theory Spec2Isabelle
  imports Complex_Main "HOL-Library.Word" "HOL-Library.Signed_Division"
begin

unbundle bit_operations_syntax

section \<open>Machine model\<close>

text \<open>
  The blur engine of SkBlurMask.cpp works on raw buffers through pointers. A buffer is
  modelled as the memory seen from its base pointer: a total function from the offset
  (in elements) to the element stored there. A pointer into the buffer is its offset.
  Bytes are \<open>8 word\<close>, \<open>uint32_t\<close> is \<open>32 word\<close> (arithmetic wraps around), and a C
  \<open>int\<close> is a mathematical integer: signed overflow is undefined in C, so the model
  speaks about the runs in which no \<open>int\<close> overflows. Integer division of C truncates
  (\<open>sdiv\<close>).
\<close>

type_synonym u8 = "8 word"
type_synonym u32 = "32 word"
type_synonym bytes = "int \<Rightarrow> u8"
type_synonym words = "int \<Rightarrow> u32"

text \<open>
  \<open>for (; x < bound; x += step) body\<close>, started at \<open>x\<close>; the steps of the source are
  the literals 1, 4 and 16. The loop returns the final value of \<open>x\<close> with the state,
  since the source keeps \<open>x\<close> alive between an unrolled loop and its remainder loop.
\<close>

function for_loop :: "int \<Rightarrow> int \<Rightarrow> (int \<Rightarrow> 's \<Rightarrow> 's) \<Rightarrow> int \<Rightarrow> 's \<Rightarrow> int \<times> 's" where
  "for_loop step bound body x s =
     (if 0 < step \<and> x < bound then for_loop step bound body (x + step) (body x s)
      else (x, s))"
  by pat_completeness auto
termination
  by (relation "measure (\<lambda>(step, bound, body, x, s). nat (bound - x))") auto

declare for_loop.simps [simp del]

text \<open>
  The loops that count down: \<open>for (...; cond && x >= lo; x -= step) body\<close>, started at
  \<open>x\<close>, where \<open>cond\<close> looks at the state. \<open>while (--n >= 0) body\<close> is the loop
  started at \<open>n - 1\<close> with \<open>lo = 0\<close>, and \<open>for (y = n - 1; y > 0; --y)\<close> has \<open>lo = 1\<close>.
\<close>

function down_loop ::
  "int \<Rightarrow> int \<Rightarrow> ('s \<Rightarrow> bool) \<Rightarrow> (int \<Rightarrow> 's \<Rightarrow> 's) \<Rightarrow> int \<Rightarrow> 's \<Rightarrow> int \<times> 's" where
  "down_loop step lo cond body x s =
     (if 0 < step \<and> cond s \<and> lo \<le> x then down_loop step lo cond body (x - step) (body x s)
      else (x, s))"
  by pat_completeness auto
termination
  by (relation "measure (\<lambda>(step, lo, cond, body, x, s). nat (x - lo + 1))") auto

declare down_loop.simps [simp del]

section \<open>Helpers declared outside the sources at hand\<close>

text \<open>Modelled from the spec: \<open>SkMin32\<close> and \<open>SkMax32\<close> of SkTypes.h, the minimum and
  the maximum of two ints.\<close>

definition SkMin32 :: "int \<Rightarrow> int \<Rightarrow> int" where
  "SkMin32 a b = (if a < b then a else b)"

definition SkMax32 :: "int \<Rightarrow> int \<Rightarrow> int" where
  "SkMax32 a b = (if a > b then a else b)"

text \<open>Modelled from the spec: \<open>SkClampPos\<close> and \<open>SkFastMin32\<close> of SkMath.h, which pin a
  sample coordinate to \<open>[0, \<infinity>)\<close> and to \<open>(-\<infinity>, max]\<close>.\<close>

definition SkClampPos :: "int \<Rightarrow> int" where
  "SkClampPos v = (if v < 0 then 0 else v)"

definition SkFastMin32 :: "int \<Rightarrow> int \<Rightarrow> int" where
  "SkFastMin32 v mx = (if v > mx then mx else v)"

text \<open>Modelled from the spec: \<open>SkClampMax\<close> of SkMath.h, which pins a value to
  \<open>[0, max]\<close>.\<close>

definition SkClampMax :: "int \<Rightarrow> int \<Rightarrow> int" where
  "SkClampMax v mx = (if v < 0 then 0 else if v > mx then mx else v)"

text \<open>Modelled from the spec: \<open>SkToU8\<close> of SkTypes.h, the cast of a 32-bit value to a
  byte (the store into a \<open>uint8_t\<close> keeps the low eight bits).\<close>

definition SkToU8 :: "u32 \<Rightarrow> u8" where
  "SkToU8 v = ucast v"

section \<open>The box blur in X\<close>

text \<open>\<open>uint32_t half = 1 << 23\<close>: \<open>SK_DISABLE_BLUR_ROUNDING\<close> is not defined.\<close>

definition half :: u32 where
  "half = push_bit 23 1"

text \<open>The locals of one row of \<open>boxBlur\<close>: the running sum, the write pointer into
  \<open>dst\<close>, the two read pointers into \<open>src\<close>, and the destination memory.\<close>

record box_row =
  b_sum :: u32
  b_dptr :: int
  b_right :: int
  b_left :: int
  b_dst :: bytes

text \<open>The loop at the two ends of a row: \<open>*dptr = 0; dptr += dst_x_stride;\<close>\<close>

definition ZERO_ITER :: "int \<Rightarrow> box_row \<Rightarrow> box_row" where
  "ZERO_ITER dst_x_stride s =
     s\<lparr>b_dst := (b_dst s)(b_dptr s := 0), b_dptr := b_dptr s + dst_x_stride\<rparr>"

text \<open>\<open>sum += *right++; *dptr = (sum * scale + half) >> 24; dptr += dst_x_stride;\<close>\<close>

definition LEFT_BORDER_ITER :: "bytes \<Rightarrow> u32 \<Rightarrow> int \<Rightarrow> box_row \<Rightarrow> box_row" where
  "LEFT_BORDER_ITER src scale dst_x_stride s =
     (let sum1 = b_sum s + ucast (src (b_right s))
      in s\<lparr>b_sum := sum1, b_right := b_right s + 1,
           b_dst := (b_dst s)(b_dptr s := ucast (drop_bit 24 (sum1 * scale + half))),
           b_dptr := b_dptr s + dst_x_stride\<rparr>)"

text \<open>\<open>*dptr = (sum * scale + half) >> 24; dptr += dst_x_stride;\<close>\<close>

definition TRIVIAL_ITER :: "u32 \<Rightarrow> int \<Rightarrow> box_row \<Rightarrow> box_row" where
  "TRIVIAL_ITER scale dst_x_stride s =
     s\<lparr>b_dst := (b_dst s)(b_dptr s := ucast (drop_bit 24 (b_sum s * scale + half))),
       b_dptr := b_dptr s + dst_x_stride\<rparr>"

text \<open>\<open>sum += *right++; *dptr = (sum * scale + half) >> 24; sum -= *left++;
  dptr += dst_x_stride;\<close>\<close>

definition CENTER_ITER :: "bytes \<Rightarrow> u32 \<Rightarrow> int \<Rightarrow> box_row \<Rightarrow> box_row" where
  "CENTER_ITER src scale dst_x_stride s =
     (let sum1 = b_sum s + ucast (src (b_right s))
      in s\<lparr>b_sum := sum1 - ucast (src (b_left s)),
           b_right := b_right s + 1, b_left := b_left s + 1,
           b_dst := (b_dst s)(b_dptr s := ucast (drop_bit 24 (sum1 * scale + half))),
           b_dptr := b_dptr s + dst_x_stride\<rparr>)"

text \<open>\<open>*dptr = (sum * scale + half) >> 24; sum -= *left++; dptr += dst_x_stride;\<close>\<close>

definition RIGHT_BORDER_ITER :: "bytes \<Rightarrow> u32 \<Rightarrow> int \<Rightarrow> box_row \<Rightarrow> box_row" where
  "RIGHT_BORDER_ITER src scale dst_x_stride s =
     s\<lparr>b_sum := b_sum s - ucast (src (b_left s)), b_left := b_left s + 1,
       b_dst := (b_dst s)(b_dptr s := ucast (drop_bit 24 (b_sum s * scale + half))),
       b_dptr := b_dptr s + dst_x_stride\<rparr>"

text \<open>
  The body of \<open>for (int y = 0; y < height; ++y)\<close> in \<open>boxBlur\<close>, up to the assertion
  \<open>SkASSERT(sum == 0)\<close>: the state it returns is the one the assertion looks at.
  \<open>UNROLL_SEPARABLE_LOOPS\<close> is defined, so each of the four inner loops is a loop that
  runs the macro sixteen times per round, followed by the loop for the remainder.
\<close>

definition boxBlur_row ::
  "bytes \<Rightarrow> int \<Rightarrow> int \<Rightarrow> int \<Rightarrow> int \<Rightarrow> int \<Rightarrow> int \<Rightarrow> u32 \<Rightarrow> int \<Rightarrow> int \<Rightarrow> int \<Rightarrow> bytes
     \<Rightarrow> box_row" where
  "boxBlur_row src src_y_stride leftRadius rightRadius width diameter border scale
       dst_x_stride dst_y_stride y dst0 =
     (let s = \<lparr>b_sum = 0, b_dptr = y * dst_y_stride, b_right = y * src_y_stride,
               b_left = y * src_y_stride, b_dst = dst0\<rparr>;
          (x, s) = for_loop 1 (rightRadius - leftRadius) (\<lambda>_. ZERO_ITER dst_x_stride) 0 s;
          (x, s) = for_loop 16 (border - 16)
                     (\<lambda>_. LEFT_BORDER_ITER src scale dst_x_stride ^^ 16) 0 s;
          (x, s) = for_loop 1 border (\<lambda>_. LEFT_BORDER_ITER src scale dst_x_stride) x s;
          (x, s) = for_loop 16 (diameter - 16)
                     (\<lambda>_. TRIVIAL_ITER scale dst_x_stride ^^ 16) width s;
          (x, s) = for_loop 1 diameter (\<lambda>_. TRIVIAL_ITER scale dst_x_stride) x s;
          (x, s) = for_loop 16 (width - 16)
                     (\<lambda>_. CENTER_ITER src scale dst_x_stride ^^ 16) diameter s;
          (x, s) = for_loop 1 width (\<lambda>_. CENTER_ITER src scale dst_x_stride) x s;
          (x, s) = for_loop 16 (border - 16)
                     (\<lambda>_. RIGHT_BORDER_ITER src scale dst_x_stride ^^ 16) 0 s;
          (x, s) = for_loop 1 border (\<lambda>_. RIGHT_BORDER_ITER src scale dst_x_stride) x s;
          (x, s) = for_loop 1 (leftRadius - rightRadius) (\<lambda>_. ZERO_ITER dst_x_stride) 0 s
      in s)"

text \<open>
  \<open>boxBlur\<close> returns the new width; the model returns it with the destination memory.
  The division \<open>(1 << 24) / kernelSize\<close> needs \<open>kernelSize \<noteq> 0\<close>, which holds for the
  radii \<open>\<ge> 0\<close> the function is called with.
\<close>

definition boxBlur ::
  "bytes \<Rightarrow> int \<Rightarrow> bytes \<Rightarrow> int \<Rightarrow> int \<Rightarrow> int \<Rightarrow> int \<Rightarrow> bool \<Rightarrow> int \<times> bytes" where
  "boxBlur src src_y_stride dst leftRadius rightRadius width height transposed =
     (let diameter = leftRadius + rightRadius;
          kernelSize = diameter + 1;
          border = SkMin32 width diameter;
          scale = (word_of_int (2 ^ 24 sdiv kernelSize) :: u32);
          new_width = width + SkMax32 leftRadius rightRadius * 2;
          dst_x_stride = (if transposed then height else 1);
          dst_y_stride = (if transposed then 1 else new_width);
          (y, dst1) = for_loop 1 height
             (\<lambda>y d. b_dst (boxBlur_row src src_y_stride leftRadius rightRadius width diameter
                              border scale dst_x_stride dst_y_stride y d)) 0 dst
      in (new_width, dst1))"

section \<open>The box blur in X for a fractional radius\<close>

record interp_row =
  i_outer_sum :: u32
  i_inner_sum :: u32
  i_dptr :: int
  i_right :: int
  i_left :: int
  i_dst :: bytes

text \<open>\<open>(outer_sum * outer_scale + inner_sum * inner_scale + half) >> 24\<close>, stored into
  a byte.\<close>

definition interp_px :: "u32 \<Rightarrow> u32 \<Rightarrow> u32 \<Rightarrow> u32 \<Rightarrow> u8" where
  "interp_px outer_scale inner_scale outer_sum inner_sum =
     ucast (drop_bit 24 (outer_sum * outer_scale + inner_sum * inner_scale + half))"

text \<open>\<open>inner_sum = outer_sum; outer_sum += *right++; *dptr = ...;
  dptr += dst_x_stride;\<close>\<close>

definition LEFT_BORDER_ITER_interp :: "bytes \<Rightarrow> u32 \<Rightarrow> u32 \<Rightarrow> int \<Rightarrow> interp_row \<Rightarrow> interp_row" where
  "LEFT_BORDER_ITER_interp src outer_scale inner_scale dst_x_stride s =
     (let inner1 = i_outer_sum s;
          outer1 = i_outer_sum s + ucast (src (i_right s))
      in s\<lparr>i_inner_sum := inner1, i_outer_sum := outer1, i_right := i_right s + 1,
           i_dst := (i_dst s)(i_dptr s := interp_px outer_scale inner_scale outer1 inner1),
           i_dptr := i_dptr s + dst_x_stride\<rparr>)"

text \<open>The loop \<open>for (int x = width; x < diameter; ++x)\<close>: \<open>*dptr = ...;
  dptr += dst_x_stride;\<close>\<close>

definition TRIVIAL_ITER_interp :: "u32 \<Rightarrow> u32 \<Rightarrow> int \<Rightarrow> interp_row \<Rightarrow> interp_row" where
  "TRIVIAL_ITER_interp outer_scale inner_scale dst_x_stride s =
     s\<lparr>i_dst := (i_dst s)(i_dptr s :=
                   interp_px outer_scale inner_scale (i_outer_sum s) (i_inner_sum s)),
       i_dptr := i_dptr s + dst_x_stride\<rparr>"

text \<open>\<open>inner_sum = outer_sum - *left; outer_sum += *right++; *dptr = ...;
  dptr += dst_x_stride; outer_sum -= *left++;\<close>\<close>

definition CENTER_ITER_interp :: "bytes \<Rightarrow> u32 \<Rightarrow> u32 \<Rightarrow> int \<Rightarrow> interp_row \<Rightarrow> interp_row" where
  "CENTER_ITER_interp src outer_scale inner_scale dst_x_stride s =
     (let inner1 = i_outer_sum s - ucast (src (i_left s));
          outer1 = i_outer_sum s + ucast (src (i_right s))
      in s\<lparr>i_inner_sum := inner1, i_outer_sum := outer1 - ucast (src (i_left s)),
           i_right := i_right s + 1, i_left := i_left s + 1,
           i_dst := (i_dst s)(i_dptr s := interp_px outer_scale inner_scale outer1 inner1),
           i_dptr := i_dptr s + dst_x_stride\<rparr>)"

text \<open>\<open>inner_sum = outer_sum - *left++; *dptr = ...; dptr += dst_x_stride;
  outer_sum = inner_sum;\<close>\<close>

definition RIGHT_BORDER_ITER_interp :: "bytes \<Rightarrow> u32 \<Rightarrow> u32 \<Rightarrow> int \<Rightarrow> interp_row \<Rightarrow> interp_row" where
  "RIGHT_BORDER_ITER_interp src outer_scale inner_scale dst_x_stride s =
     (let inner1 = i_outer_sum s - ucast (src (i_left s))
      in s\<lparr>i_inner_sum := inner1, i_outer_sum := inner1, i_left := i_left s + 1,
           i_dst := (i_dst s)(i_dptr s :=
                       interp_px outer_scale inner_scale (i_outer_sum s) inner1),
           i_dptr := i_dptr s + dst_x_stride\<rparr>)"

text \<open>The body of the row loop of \<open>boxBlurInterp\<close>, up to
  \<open>SkASSERT(outer_sum == 0 && inner_sum == 0)\<close>.\<close>

definition boxBlurInterp_row ::
  "bytes \<Rightarrow> int \<Rightarrow> int \<Rightarrow> int \<Rightarrow> int \<Rightarrow> u32 \<Rightarrow> u32 \<Rightarrow> int \<Rightarrow> int \<Rightarrow> int \<Rightarrow> bytes
     \<Rightarrow> interp_row" where
  "boxBlurInterp_row src src_y_stride width diameter border outer_scale inner_scale
       dst_x_stride dst_y_stride y dst0 =
     (let s = \<lparr>i_outer_sum = 0, i_inner_sum = 0, i_dptr = y * dst_y_stride,
               i_right = y * src_y_stride, i_left = y * src_y_stride, i_dst = dst0\<rparr>;
          (x, s) = for_loop 16 (border - 16)
                     (\<lambda>_. LEFT_BORDER_ITER_interp src outer_scale inner_scale dst_x_stride ^^ 16)
                     0 s;
          (x, s) = for_loop 1 border
                     (\<lambda>_. LEFT_BORDER_ITER_interp src outer_scale inner_scale dst_x_stride) x s;
          (x', s) = for_loop 1 diameter
                     (\<lambda>_. TRIVIAL_ITER_interp outer_scale inner_scale dst_x_stride) width s;
          (x, s) = for_loop 16 (width - 16)
                     (\<lambda>_. CENTER_ITER_interp src outer_scale inner_scale dst_x_stride ^^ 16)
                     diameter s;
          (x, s) = for_loop 1 width
                     (\<lambda>_. CENTER_ITER_interp src outer_scale inner_scale dst_x_stride) x s;
          (x, s) = for_loop 16 (border - 16)
                     (\<lambda>_. RIGHT_BORDER_ITER_interp src outer_scale inner_scale dst_x_stride ^^ 16)
                     0 s;
          (x, s) = for_loop 1 border
                     (\<lambda>_. RIGHT_BORDER_ITER_interp src outer_scale inner_scale dst_x_stride) x s
      in s)"

text \<open>
  \<open>outer_weight\<close> is a \<open>uint8_t\<close> parameter, so \<open>outer_weight += outer_weight >> 7\<close>
  is computed in a byte; \<open>inner_weight\<close> is an \<open>int\<close>. The divisions need
  \<open>kernelSize \<noteq> 0\<close> and \<open>kernelSize \<noteq> 2\<close>.
\<close>

definition boxBlurInterp ::
  "bytes \<Rightarrow> int \<Rightarrow> bytes \<Rightarrow> int \<Rightarrow> int \<Rightarrow> int \<Rightarrow> bool \<Rightarrow> u8 \<Rightarrow> int \<times> bytes" where
  "boxBlurInterp src src_y_stride dst radius width height transposed outer_weight =
     (let diameter = radius * 2;
          kernelSize = diameter + 1;
          border = SkMin32 width diameter;
          inner_weight = 255 - uint outer_weight;
          outer_weight1 = outer_weight + drop_bit 7 outer_weight;
          inner_weight1 = inner_weight + inner_weight div 2 ^ 7;
          outer_scale = (word_of_int (uint outer_weight1 * 2 ^ 16 sdiv kernelSize) :: u32);
          inner_scale = (word_of_int (inner_weight1 * 2 ^ 16 sdiv (kernelSize - 2)) :: u32);
          new_width = width + diameter;
          dst_x_stride = (if transposed then height else 1);
          dst_y_stride = (if transposed then 1 else new_width);
          (y, dst1) = for_loop 1 height
             (\<lambda>y d. i_dst (boxBlurInterp_row src src_y_stride width diameter border
                              outer_scale inner_scale dst_x_stride dst_y_stride y d)) 0 dst
      in (new_width, dst1))"

section \<open>The summed-area table\<close>

text \<open>The locals of \<open>build_sum_buffer\<close>: the write pointer \<open>sum\<close> and the read pointer
  \<open>src\<close> (as offsets), \<open>X\<close>, \<open>L\<close> and \<open>C\<close>, and the memory of the sum buffer.\<close>

record sum_buf =
  sb_sum :: int
  sb_src :: int
  sb_X :: u32
  sb_L :: u32
  sb_C :: u32
  sb_mem :: words

text \<open>\<open>memset(sum, 0, n * sizeof(sum[0]))\<close> at offset \<open>p\<close>.\<close>

definition memset0 :: "words \<Rightarrow> int \<Rightarrow> int \<Rightarrow> words" where
  "memset0 m p n = (\<lambda>i. if p \<le> i \<and> i < p + n then 0 else m i)"

text \<open>\<open>*sum++ = 0;\<close>\<close>

definition first_column :: "sum_buf \<Rightarrow> sum_buf" where
  "first_column s = s\<lparr>sb_mem := (sb_mem s)(sb_sum s := 0), sb_sum := sb_sum s + 1\<rparr>"

text \<open>The body of the loop over the first row: \<open>X = *src++ + X; *sum++ = X;\<close>\<close>

definition first_row_iter :: "bytes \<Rightarrow> sum_buf \<Rightarrow> sum_buf" where
  "first_row_iter src s =
     (let X = ucast (src (sb_src s)) + sb_X s
      in s\<lparr>sb_X := X, sb_src := sb_src s + 1,
           sb_mem := (sb_mem s)(sb_sum s := X), sb_sum := sb_sum s + 1\<rparr>)"

text \<open>The body of the loops over the other rows:
  \<open>uint32_t T = sum[-sumW]; X = *src++ + L + T - C; *sum++ = X; L = X; C = T;\<close>\<close>

definition sum_iter :: "bytes \<Rightarrow> int \<Rightarrow> sum_buf \<Rightarrow> sum_buf" where
  "sum_iter src sumW s =
     (let T = sb_mem s (sb_sum s - sumW);
          X = ucast (src (sb_src s)) + sb_L s + T - sb_C s
      in s\<lparr>sb_X := X, sb_src := sb_src s + 1,
           sb_mem := (sb_mem s)(sb_sum s := X), sb_sum := sb_sum s + 1,
           sb_L := X, sb_C := T\<rparr>)"

text \<open>
  The body of \<open>for (y = srcH - 1; y > 0; --y)\<close>. Its first inner loop runs while the
  read pointer is not 4-byte aligned; \<open>SkIsAlign4((intptr_t) src)\<close> depends on the
  address of the source, so the alignment of each offset is the parameter \<open>aligned\<close>.
  The second loop runs the body four times per round.
\<close>

definition sum_row :: "(int \<Rightarrow> bool) \<Rightarrow> bytes \<Rightarrow> int \<Rightarrow> int \<Rightarrow> int \<Rightarrow> sum_buf \<Rightarrow> sum_buf" where
  "sum_row aligned src sumW srcW srcRB s =
     (let s = s\<lparr>sb_L := 0, sb_C := 0\<rparr>;
          s = first_column s;
          (x, s) = down_loop 1 0 (\<lambda>s. \<not> aligned (sb_src s)) (\<lambda>_. sum_iter src sumW)
                     (srcW - 1) s;
          (x, s) = down_loop 4 4 (\<lambda>_. True) (\<lambda>_. sum_iter src sumW ^^ 4) x s;
          (x, s) = down_loop 1 0 (\<lambda>_. True) (\<lambda>_. sum_iter src sumW) x s
      in s\<lparr>sb_src := sb_src s + srcRB\<rparr>)"

text \<open>\<open>build_sum_buffer(sum, srcW, srcH, src, srcRB)\<close>; the result is the memory of
  \<open>sum\<close>.\<close>

definition build_sum_buffer ::
  "(int \<Rightarrow> bool) \<Rightarrow> words \<Rightarrow> int \<Rightarrow> int \<Rightarrow> bytes \<Rightarrow> int \<Rightarrow> words" where
  "build_sum_buffer aligned sbuf srcW srcH src srcRB0 =
     (let sumW = srcW + 1;
          srcRB = srcRB0 - srcW;
          s = \<lparr>sb_sum = 0, sb_src = 0, sb_X = 0, sb_L = 0, sb_C = 0,
               sb_mem = memset0 sbuf 0 sumW\<rparr>;
          s = s\<lparr>sb_sum := sb_sum s + sumW\<rparr>;
          s = s\<lparr>sb_X := 0\<rparr>;
          s = first_column s;
          (x, s) = down_loop 1 0 (\<lambda>_. True) (\<lambda>_. first_row_iter src) (srcW - 1) s;
          s = s\<lparr>sb_src := sb_src s + srcRB\<rparr>;
          (y, s) = down_loop 1 1 (\<lambda>_. True) (\<lambda>_. sum_row aligned src sumW srcW srcRB)
                     (srcH - 1) s
      in sb_mem s)"

section \<open>The box blur from the summed-area table\<close>

text \<open>The locals of \<open>apply_kernel\<close> and \<open>kernel_clamped\<close>: the write pointer \<open>dst\<close>
  and the destination memory, the window coordinates, and the four running indices
  of the centre section.\<close>

record kern =
  k_dst :: int
  k_mem :: bytes
  k_prev_y :: int
  k_next_y :: int
  k_prev_x :: int
  k_next_x :: int
  k_i0 :: int
  k_i1 :: int
  k_i2 :: int
  k_i3 :: int

text \<open>\<open>uint32_t tmp = sum[px+py] + sum[nx+ny] - sum[nx+py] - sum[px+ny];\<close>\<close>

definition four_corners :: "words \<Rightarrow> int \<Rightarrow> int \<Rightarrow> int \<Rightarrow> int \<Rightarrow> u32" where
  "four_corners sbuf px py nx ny = sbuf (px + py) + sbuf (nx + ny) - sbuf (nx + py) - sbuf (px + ny)"

text \<open>\<open>*dst++ = SkToU8(tmp * scale >> 24);\<close>\<close>

definition put_px :: "u32 \<Rightarrow> u32 \<Rightarrow> kern \<Rightarrow> kern" where
  "put_px scale tmp s =
     s\<lparr>k_mem := (k_mem s)(k_dst s := SkToU8 (drop_bit 24 (tmp * scale))), k_dst := k_dst s + 1\<rparr>"

text \<open>\<open>prev_x += n; next_x += n;\<close>\<close>

definition advance_x :: "int \<Rightarrow> kern \<Rightarrow> kern" where
  "advance_x n s = s\<lparr>k_prev_x := k_prev_x s + n, k_next_x := k_next_x s + n\<rparr>"

text \<open>The inner loop body of \<open>kernel_clamped\<close>, which is the loop that the comment of
  \<open>apply_kernel\<close> calls the original version.\<close>

definition clamped_iter :: "words \<Rightarrow> u32 \<Rightarrow> int \<Rightarrow> int \<Rightarrow> int \<Rightarrow> kern \<Rightarrow> kern" where
  "clamped_iter sbuf scale sw py ny s =
     (let px = SkClampPos (k_prev_x s);
          nx = SkFastMin32 (k_next_x s) sw
      in advance_x 1 (put_px scale (four_corners sbuf px py nx ny) s))"

definition kernel_clamped_row :: "words \<Rightarrow> u32 \<Rightarrow> int \<Rightarrow> int \<Rightarrow> int \<Rightarrow> int \<Rightarrow> int \<Rightarrow> kern \<Rightarrow> kern" where
  "kernel_clamped_row sbuf scale rx sw sh sumStride dw s =
     (let py = SkClampPos (k_prev_y s) * sumStride;
          ny = SkFastMin32 (k_next_y s) sh * sumStride;
          s = s\<lparr>k_prev_x := - 2 * rx, k_next_x := 1\<rparr>;
          (x, s) = for_loop 1 dw (\<lambda>_. clamped_iter sbuf scale sw py ny) 0 s
      in s\<lparr>k_prev_y := k_prev_y s + 1, k_next_y := k_next_y s + 1\<rparr>)"

text \<open>\<open>kernel_clamped(dst, rx, ry, sum, sw, sh)\<close>; the result is the memory of \<open>dst\<close>.
  The division needs \<open>(2*rx + 1)*(2*ry + 1) \<noteq> 0\<close>, which holds for radii \<open>\<ge> 0\<close>.\<close>

definition kern_init :: "bytes \<Rightarrow> int \<Rightarrow> kern" where
  "kern_init dst ry =
     \<lparr>k_dst = 0, k_mem = dst, k_prev_y = - 2 * ry, k_next_y = 1, k_prev_x = 0, k_next_x = 0,
      k_i0 = 0, k_i1 = 0, k_i2 = 0, k_i3 = 0\<rparr>"

definition kernel_clamped :: "bytes \<Rightarrow> int \<Rightarrow> int \<Rightarrow> words \<Rightarrow> int \<Rightarrow> int \<Rightarrow> bytes" where
  "kernel_clamped dst rx ry sbuf sw sh =
     (let scale = (word_of_int (2 ^ 24 sdiv ((2 * rx + 1) * (2 * ry + 1))) :: u32);
          sumStride = sw + 1;
          dw = sw + 2 * rx;
          dh = sh + 2 * ry;
          (y, s) = for_loop 1 dh (\<lambda>_. kernel_clamped_row sbuf scale rx sw sh sumStride dw) 0
                     (kern_init dst ry)
      in k_mem s)"

text \<open>The left-hand section of \<open>apply_kernel\<close>: \<open>px = 0\<close>, \<open>nx = next_x\<close>.\<close>

definition left_iter :: "words \<Rightarrow> u32 \<Rightarrow> int \<Rightarrow> int \<Rightarrow> kern \<Rightarrow> kern" where
  "left_iter sbuf scale py ny s =
     advance_x 1 (put_px scale (four_corners sbuf 0 py (k_next_x s) ny) s)"

text \<open>One pixel of the centre section:
  \<open>tmp = sum[i0++] + sum[i1++] - sum[i2++] - sum[i3++]; *dst++ = SkToU8(tmp * scale >> 24);\<close>\<close>

definition center_px :: "words \<Rightarrow> u32 \<Rightarrow> kern \<Rightarrow> kern" where
  "center_px sbuf scale s =
     (let tmp = sbuf (k_i0 s) + sbuf (k_i1 s) - sbuf (k_i2 s) - sbuf (k_i3 s);
          s = s\<lparr>k_i0 := k_i0 s + 1, k_i1 := k_i1 s + 1, k_i2 := k_i2 s + 1, k_i3 := k_i3 s + 1\<rparr>
      in put_px scale tmp s)"

text \<open>The right-hand section: \<open>px = prev_x\<close>, \<open>nx = sw\<close>.\<close>

definition right_iter :: "words \<Rightarrow> u32 \<Rightarrow> int \<Rightarrow> int \<Rightarrow> int \<Rightarrow> kern \<Rightarrow> kern" where
  "right_iter sbuf scale sw py ny s =
     advance_x 1 (put_px scale (four_corners sbuf (k_prev_x s) py sw ny) s)"

text \<open>
  The body of the row loop of \<open>apply_kernel\<close>. \<open>UNROLL_KERNEL_LOOP\<close> is defined on
  Windows only, so it is the parameter \<open>unroll\<close>: when it is set, the centre section
  first runs the loop that handles four pixels per round.
\<close>

definition apply_kernel_row ::
  "bool \<Rightarrow> words \<Rightarrow> u32 \<Rightarrow> int \<Rightarrow> int \<Rightarrow> int \<Rightarrow> int \<Rightarrow> int \<Rightarrow> kern \<Rightarrow> kern" where
  "apply_kernel_row unroll sbuf scale rx sw sh sumStride dw s =
     (let py = SkClampPos (k_prev_y s) * sumStride;
          ny = SkFastMin32 (k_next_y s) sh * sumStride;
          s = s\<lparr>k_prev_x := - 2 * rx, k_next_x := 1\<rparr>;
          (x, s) = for_loop 1 (2 * rx) (\<lambda>_. left_iter sbuf scale py ny) 0 s;
          s = s\<lparr>k_i0 := k_prev_x s + py, k_i1 := k_next_x s + ny,
                k_i2 := k_next_x s + py, k_i3 := k_prev_x s + ny\<rparr>;
          (x, s) = (if unroll
                    then for_loop 4 (dw - 2 * rx - 4)
                           (\<lambda>_ s. advance_x 4 ((center_px sbuf scale ^^ 4) s)) x s
                    else (x, s));
          (x, s) = for_loop 1 (dw - 2 * rx) (\<lambda>_ s. advance_x 1 (center_px sbuf scale s)) x s;
          (x, s) = for_loop 1 dw (\<lambda>_. right_iter sbuf scale sw py ny) x s
      in s\<lparr>k_prev_y := k_prev_y s + 1, k_next_y := k_next_y s + 1\<rparr>)"

text \<open>\<open>apply_kernel(dst, rx, ry, sum, sw, sh)\<close>; the result is the memory of \<open>dst\<close>.\<close>

definition apply_kernel :: "bool \<Rightarrow> bytes \<Rightarrow> int \<Rightarrow> int \<Rightarrow> words \<Rightarrow> int \<Rightarrow> int \<Rightarrow> bytes" where
  "apply_kernel unroll dst rx ry sbuf sw sh =
     (if 2 * rx > sw then kernel_clamped dst rx ry sbuf sw sh
      else
       (let scale = (word_of_int (2 ^ 24 sdiv ((2 * rx + 1) * (2 * ry + 1))) :: u32);
            sumStride = sw + 1;
            dw = sw + 2 * rx;
            dh = sh + 2 * ry;
            (y, s) = for_loop 1 dh (\<lambda>_. apply_kernel_row unroll sbuf scale rx sw sh sumStride dw)
                       0 (kern_init dst ry)
        in k_mem s))"

section \<open>The interpolating box blur from the summed-area table\<close>

text \<open>The locals of \<open>apply_kernel_interp\<close> and \<open>kernel_interp_clamped\<close>.\<close>

record ikern =
  ik_dst :: int
  ik_mem :: bytes
  ik_prev_y :: int
  ik_next_y :: int
  ik_prev_x :: int
  ik_next_x :: int
  ik_i0 :: int
  ik_i1 :: int
  ik_i2 :: int
  ik_i3 :: int
  ik_i4 :: int
  ik_i5 :: int
  ik_i6 :: int
  ik_i7 :: int

text \<open>\<open>*dst++ = SkToU8((outerSum * outerScale + innerSum * innerScale) >> 24);\<close>\<close>

definition iput_px :: "u32 \<Rightarrow> u32 \<Rightarrow> u32 \<Rightarrow> u32 \<Rightarrow> ikern \<Rightarrow> ikern" where
  "iput_px outerScale innerScale outerSum innerSum s =
     s\<lparr>ik_mem := (ik_mem s)(ik_dst s :=
                    SkToU8 (drop_bit 24 (outerSum * outerScale + innerSum * innerScale))),
       ik_dst := ik_dst s + 1\<rparr>"

definition iadvance_x :: "int \<Rightarrow> ikern \<Rightarrow> ikern" where
  "iadvance_x n s = s\<lparr>ik_prev_x := ik_prev_x s + n, ik_next_x := ik_next_x s + n\<rparr>"

text \<open>
  The weights and scales that both interpolating kernels compute first. The weights
  are at most 255 and the kernel areas are positive for the radii \<open>rx, ry > 0\<close> that
  \<open>apply_kernel_interp\<close> asserts, so the divisions are divisions of numbers that are
  not negative.
\<close>

definition interp_scales :: "int \<Rightarrow> int \<Rightarrow> int \<Rightarrow> u32 \<times> u32" where
  "interp_scales rx ry outerWeight =
     (let innerWeight = 255 - outerWeight;
          outerWeight1 = outerWeight + outerWeight div 2 ^ 7;
          innerWeight1 = innerWeight + innerWeight div 2 ^ 7;
          outerScale = (word_of_int (outerWeight1 * 2 ^ 16 sdiv ((2 * rx + 1) * (2 * ry + 1))) :: u32);
          innerScale = (word_of_int (innerWeight1 * 2 ^ 16 sdiv ((2 * rx - 1) * (2 * ry - 1))) :: u32)
      in (outerScale, innerScale))"

definition ikern_init :: "bytes \<Rightarrow> int \<Rightarrow> ikern" where
  "ikern_init dst ry =
     \<lparr>ik_dst = 0, ik_mem = dst, ik_prev_y = - 2 * ry, ik_next_y = 1, ik_prev_x = 0,
      ik_next_x = 0, ik_i0 = 0, ik_i1 = 0, ik_i2 = 0, ik_i3 = 0, ik_i4 = 0, ik_i5 = 0,
      ik_i6 = 0, ik_i7 = 0\<rparr>"

text \<open>The inner loop body of \<open>kernel_interp_clamped\<close>.\<close>

definition interp_clamped_iter ::
  "words \<Rightarrow> u32 \<Rightarrow> u32 \<Rightarrow> int \<Rightarrow> int \<Rightarrow> int \<Rightarrow> int \<Rightarrow> int \<Rightarrow> ikern \<Rightarrow> ikern" where
  "interp_clamped_iter sbuf outerScale innerScale sw py ny ipy iny s =
     (let px = SkClampPos (ik_prev_x s);
          nx = SkFastMin32 (ik_next_x s) sw;
          ipx = SkClampPos (ik_prev_x s + 1);
          inx = SkClampMax (ik_next_x s - 1) sw;
          outerSum = four_corners sbuf px py nx ny;
          innerSum = four_corners sbuf ipx ipy inx iny
      in iadvance_x 1 (iput_px outerScale innerScale outerSum innerSum s))"

definition kernel_interp_clamped_row ::
  "words \<Rightarrow> u32 \<Rightarrow> u32 \<Rightarrow> int \<Rightarrow> int \<Rightarrow> int \<Rightarrow> int \<Rightarrow> int \<Rightarrow> ikern \<Rightarrow> ikern" where
  "kernel_interp_clamped_row sbuf outerScale innerScale rx sw sh sumStride dw s =
     (let py = SkClampPos (ik_prev_y s) * sumStride;
          ny = SkFastMin32 (ik_next_y s) sh * sumStride;
          ipy = SkClampPos (ik_prev_y s + 1) * sumStride;
          iny = SkClampMax (ik_next_y s - 1) sh * sumStride;
          s = s\<lparr>ik_prev_x := - 2 * rx, ik_next_x := 1\<rparr>;
          (x, s) = for_loop 1 dw
                     (\<lambda>_. interp_clamped_iter sbuf outerScale innerScale sw py ny ipy iny) 0 s
      in s\<lparr>ik_prev_y := ik_prev_y s + 1, ik_next_y := ik_next_y s + 1\<rparr>)"

definition kernel_interp_clamped ::
  "bytes \<Rightarrow> int \<Rightarrow> int \<Rightarrow> words \<Rightarrow> int \<Rightarrow> int \<Rightarrow> int \<Rightarrow> bytes" where
  "kernel_interp_clamped dst rx ry sbuf sw sh outerWeight =
     (let (outerScale, innerScale) = interp_scales rx ry outerWeight;
          sumStride = sw + 1;
          dw = sw + 2 * rx;
          dh = sh + 2 * ry;
          (y, s) = for_loop 1 dh
                     (\<lambda>_. kernel_interp_clamped_row sbuf outerScale innerScale rx sw sh sumStride dw)
                     0 (ikern_init dst ry)
      in ik_mem s)"

text \<open>The left-hand section of \<open>apply_kernel_interp\<close>: \<open>px = 0\<close>, \<open>nx = next_x\<close>,
  \<open>ipx = 0\<close>, \<open>inx = next_x - 1\<close>.\<close>

definition interp_left_iter ::
  "words \<Rightarrow> u32 \<Rightarrow> u32 \<Rightarrow> int \<Rightarrow> int \<Rightarrow> int \<Rightarrow> int \<Rightarrow> ikern \<Rightarrow> ikern" where
  "interp_left_iter sbuf outerScale innerScale py ny ipy iny s =
     (let outerSum = four_corners sbuf 0 py (ik_next_x s) ny;
          innerSum = four_corners sbuf 0 ipy (ik_next_x s - 1) iny
      in iadvance_x 1 (iput_px outerScale innerScale outerSum innerSum s))"

text \<open>One pixel of the centre section, read through the eight running indices.\<close>

definition interp_center_px :: "words \<Rightarrow> u32 \<Rightarrow> u32 \<Rightarrow> ikern \<Rightarrow> ikern" where
  "interp_center_px sbuf outerScale innerScale s =
     (let outerSum = sbuf (ik_i0 s) + sbuf (ik_i1 s) - sbuf (ik_i2 s) - sbuf (ik_i3 s);
          innerSum = sbuf (ik_i4 s) + sbuf (ik_i5 s) - sbuf (ik_i6 s) - sbuf (ik_i7 s);
          s = s\<lparr>ik_i0 := ik_i0 s + 1, ik_i1 := ik_i1 s + 1, ik_i2 := ik_i2 s + 1,
                ik_i3 := ik_i3 s + 1, ik_i4 := ik_i4 s + 1, ik_i5 := ik_i5 s + 1,
                ik_i6 := ik_i6 s + 1, ik_i7 := ik_i7 s + 1\<rparr>
      in iput_px outerScale innerScale outerSum innerSum s)"

text \<open>The right-hand section: \<open>px = prev_x\<close>, \<open>nx = sw\<close>, \<open>ipx = prev_x + 1\<close>,
  \<open>inx = sw\<close>.\<close>

definition interp_right_iter ::
  "words \<Rightarrow> u32 \<Rightarrow> u32 \<Rightarrow> int \<Rightarrow> int \<Rightarrow> int \<Rightarrow> int \<Rightarrow> int \<Rightarrow> ikern \<Rightarrow> ikern" where
  "interp_right_iter sbuf outerScale innerScale sw py ny ipy iny s =
     (let outerSum = four_corners sbuf (ik_prev_x s) py sw ny;
          innerSum = four_corners sbuf (ik_prev_x s + 1) ipy sw iny
      in iadvance_x 1 (iput_px outerScale innerScale outerSum innerSum s))"

definition apply_kernel_interp_row ::
  "bool \<Rightarrow> words \<Rightarrow> u32 \<Rightarrow> u32 \<Rightarrow> int \<Rightarrow> int \<Rightarrow> int \<Rightarrow> int \<Rightarrow> int \<Rightarrow> ikern \<Rightarrow> ikern" where
  "apply_kernel_interp_row unroll sbuf outerScale innerScale rx sw sh sumStride dw s =
     (let py = SkClampPos (ik_prev_y s) * sumStride;
          ny = SkFastMin32 (ik_next_y s) sh * sumStride;
          ipy = SkClampPos (ik_prev_y s + 1) * sumStride;
          iny = SkClampMax (ik_next_y s - 1) sh * sumStride;
          s = s\<lparr>ik_prev_x := - 2 * rx, ik_next_x := 1\<rparr>;
          (x, s) = for_loop 1 (2 * rx)
                     (\<lambda>_. interp_left_iter sbuf outerScale innerScale py ny ipy iny) 0 s;
          s = s\<lparr>ik_i0 := ik_prev_x s + py, ik_i1 := ik_next_x s + ny,
                ik_i2 := ik_next_x s + py, ik_i3 := ik_prev_x s + ny,
                ik_i4 := ik_prev_x s + 1 + ipy, ik_i5 := ik_next_x s - 1 + iny,
                ik_i6 := ik_next_x s - 1 + ipy, ik_i7 := ik_prev_x s + 1 + iny\<rparr>;
          (x, s) = (if unroll
                    then for_loop 4 (dw - 2 * rx - 4)
                           (\<lambda>_ s. iadvance_x 4
                                    ((interp_center_px sbuf outerScale innerScale ^^ 4) s)) x s
                    else (x, s));
          (x, s) = for_loop 1 (dw - 2 * rx)
                     (\<lambda>_ s. iadvance_x 1 (interp_center_px sbuf outerScale innerScale s)) x s;
          (x, s) = for_loop 1 dw
                     (\<lambda>_. interp_right_iter sbuf outerScale innerScale sw py ny ipy iny) x s
      in s\<lparr>ik_prev_y := ik_prev_y s + 1, ik_next_y := ik_next_y s + 1\<rparr>)"

text \<open>\<open>apply_kernel_interp(dst, rx, ry, sum, sw, sh, outerWeight)\<close>, which asserts
  \<open>rx > 0 && ry > 0\<close> and \<open>outerWeight <= 255\<close>.\<close>

definition apply_kernel_interp ::
  "bool \<Rightarrow> bytes \<Rightarrow> int \<Rightarrow> int \<Rightarrow> words \<Rightarrow> int \<Rightarrow> int \<Rightarrow> int \<Rightarrow> bytes" where
  "apply_kernel_interp unroll dst rx ry sbuf sw sh outerWeight =
     (if 2 * rx > sw then kernel_interp_clamped dst rx ry sbuf sw sh outerWeight
      else
       (let (outerScale, innerScale) = interp_scales rx ry outerWeight;
            sumStride = sw + 1;
            dw = sw + 2 * rx;
            dh = sh + 2 * ry;
            (y, s) = for_loop 1 dh
                       (\<lambda>_. apply_kernel_interp_row unroll sbuf outerScale innerScale rx sw sh
                               sumStride dw)
                       0 (ikern_init dst ry)
        in ik_mem s))"

section \<open>Style post-processing\<close>

text \<open>Modelled from the spec: \<open>SkAlpha255To256\<close> and \<open>SkAlphaMul\<close> of SkColorPriv.h,
  which together scale a value by an alpha: the alpha in \<open>[0, 255]\<close> becomes a scale in
  \<open>[1, 256]\<close>, and the product with the scale is shifted right by 8.\<close>

definition SkAlpha255To256 :: "int \<Rightarrow> int" where
  "SkAlpha255To256 alpha = alpha + 1"

definition SkAlphaMul :: "int \<Rightarrow> int \<Rightarrow> int" where
  "SkAlphaMul v alpha256 = (v * alpha256) div 2 ^ 8"

text \<open>Modelled from the spec: \<open>SkMulDiv255Round\<close> of SkMath.h, the product of two bytes
  divided by 255 and rounded to the nearest integer, computed without a division as
  \<open>prod = a * b + 128; (prod + (prod >> 8)) >> 8\<close>.\<close>

definition SkMulDiv255Round :: "int \<Rightarrow> int \<Rightarrow> int" where
  "SkMulDiv255Round a b = (let prod = a * b + 128 in (prod + prod div 2 ^ 8) div 2 ^ 8)"

text \<open>The pointers \<open>dst\<close>, \<open>src\<close> and \<open>blur\<close> of the two functions, with the memory
  that \<open>dst\<close> points into.\<close>

record style_state =
  st_dst :: int
  st_src :: int
  st_blur :: int
  st_mem :: bytes

text \<open>\<open>*dst = SkToU8(SkAlphaMul(*blur, SkAlpha255To256(*src))); dst += 1; src += 1;
  blur += 1;\<close>\<close>

definition merge_px :: "bytes \<Rightarrow> bytes \<Rightarrow> style_state \<Rightarrow> style_state" where
  "merge_px src blur s =
     s\<lparr>st_mem := (st_mem s)(st_dst s :=
                    SkToU8 (word_of_int (SkAlphaMul (uint (blur (st_blur s)))
                                           (SkAlpha255To256 (uint (src (st_src s))))))),
       st_dst := st_dst s + 1, st_src := st_src s + 1, st_blur := st_blur s + 1\<rparr>"

text \<open>
  \<open>merge_src_with_blur(dst, dstRB, src, srcRB, blur, blurRB, sw, sh)\<close>. The three
  pointers are given as a memory and an offset into it; the result is the memory of
  \<open>dst\<close>.
\<close>

definition merge_src_with_blur ::
  "bytes \<Rightarrow> int \<Rightarrow> int \<Rightarrow> bytes \<Rightarrow> int \<Rightarrow> int \<Rightarrow> bytes \<Rightarrow> int \<Rightarrow> int \<Rightarrow> int \<Rightarrow> int \<Rightarrow> bytes" where
  "merge_src_with_blur dst dst0 dstRB0 src src0 srcRB0 blur blur0 blurRB0 sw sh =
     (let dstRB = dstRB0 - sw;
          srcRB = srcRB0 - sw;
          blurRB = blurRB0 - sw;
          (sh1, s) = down_loop 1 0 (\<lambda>_. True)
             (\<lambda>_ s. let (x, s) = down_loop 1 0 (\<lambda>_. True) (\<lambda>_. merge_px src blur) (sw - 1) s
                     in s\<lparr>st_dst := st_dst s + dstRB, st_src := st_src s + srcRB,
                          st_blur := st_blur s + blurRB\<rparr>)
             (sh - 1) \<lparr>st_dst = dst0, st_src = src0, st_blur = blur0, st_mem = dst\<rparr>
      in st_mem s)"

datatype Style = kNormal_Style | kSolid_Style | kOuter_Style | kInner_Style

text \<open>\<open>int s = *src; int d = *dst; *dst = SkToU8(s + d - SkMulDiv255Round(s, d));
  dst += 1; src += 1;\<close>\<close>

definition solid_px :: "bytes \<Rightarrow> style_state \<Rightarrow> style_state" where
  "solid_px src st =
     (let s = uint (src (st_src st));
          d = uint (st_mem st (st_dst st))
      in st\<lparr>st_mem := (st_mem st)(st_dst st := SkToU8 (word_of_int (s + d - SkMulDiv255Round s d))),
            st_dst := st_dst st + 1, st_src := st_src st + 1\<rparr>)"

text \<open>\<open>if (*src) { *dst = SkToU8(SkAlphaMul(*dst, SkAlpha255To256(255 - *src))); }
  dst += 1; src += 1;\<close>\<close>

definition outer_px :: "bytes \<Rightarrow> style_state \<Rightarrow> style_state" where
  "outer_px src st =
     (let st1 = (if src (st_src st) \<noteq> 0
                 then st\<lparr>st_mem := (st_mem st)(st_dst st :=
                        SkToU8 (word_of_int (SkAlphaMul (uint (st_mem st (st_dst st)))
                                   (SkAlpha255To256 (255 - uint (src (st_src st)))))))\<rparr>
                 else st)
      in st1\<lparr>st_dst := st_dst st1 + 1, st_src := st_src st1 + 1\<rparr>)"

text \<open>
  \<open>clamp_with_orig(dst, dstRowBytes, src, srcRowBytes, sw, sh, style)\<close>. For a style
  other than solid and outer the switch only reaches \<open>SkDEBUGFAIL\<close>, which does
  nothing in a release build: the row writes nothing.
\<close>

definition clamp_with_orig ::
  "bytes \<Rightarrow> int \<Rightarrow> int \<Rightarrow> bytes \<Rightarrow> int \<Rightarrow> int \<Rightarrow> int \<Rightarrow> int \<Rightarrow> Style \<Rightarrow> bytes" where
  "clamp_with_orig dst dst0 dstRowBytes src src0 srcRowBytes sw sh style =
     (let (sh1, s) = down_loop 1 0 (\<lambda>_. True)
             (\<lambda>_ s. let s = (case style of
                              kSolid_Style \<Rightarrow>
                                snd (down_loop 1 0 (\<lambda>_. True) (\<lambda>_. solid_px src) (sw - 1) s)
                            | kOuter_Style \<Rightarrow>
                                snd (down_loop 1 0 (\<lambda>_. True) (\<lambda>_. outer_px src) (sw - 1) s)
                            | _ \<Rightarrow> s)
                     in s\<lparr>st_dst := st_dst s + (dstRowBytes - sw),
                          st_src := st_src s + (srcRowBytes - sw)\<rparr>)
             (sh - 1) \<lparr>st_dst = dst0, st_src = src0, st_blur = 0, st_mem = dst\<rparr>
      in st_mem s)"

section \<open>Masks and scalars\<close>

text \<open>\<open>SkIRect\<close> and \<open>SkRect\<close>: the four edges, integers or scalars.\<close>

record 'a Rect =
  fLeft :: 'a
  fTop :: 'a
  fRight :: 'a
  fBottom :: 'a

text \<open>Modelled from the spec: the mask formats of SkMask.h, of which the blur engine
  supports the 8-bit alpha format only.\<close>

datatype Format = kBW_Format | kA8_Format | k3D_Format | kARGB32_Format | kLCD16_Format
  | kLCD32_Format

text \<open>\<open>SkMask\<close>. \<open>fImage\<close> is \<open>None\<close> for the NULL pointer and the memory of the pixel
  buffer otherwise. \<open>fRowBytes\<close> is a \<open>uint32_t\<close>, kept as its value, a number in
  \<open>[0, 2^32)\<close>.\<close>

record SkMask =
  fImage :: "bytes option"
  fBounds :: "int Rect"
  fRowBytes :: int
  fFormat :: Format

text \<open>The conversion of an \<open>int\<close> to \<open>uint32_t\<close>, which the stores \<open>dst->fRowBytes =
  dst->fBounds.width()\<close> and \<open>dst->fRowBytes = sw\<close> do: a negative value wraps around to
  \<open>v + 2^32\<close>.\<close>

definition int_to_u32 :: "int \<Rightarrow> int" where
  "int_to_u32 v = (if v < 0 then v + 2 ^ 32 else v)"

text \<open>Modelled from the spec: \<open>SkIRect::width\<close> and \<open>SkIRect::height\<close>.\<close>

definition SkIRect_width :: "int Rect \<Rightarrow> int" where
  "SkIRect_width r = fRight r - fLeft r"

definition SkIRect_height :: "int Rect \<Rightarrow> int" where
  "SkIRect_height r = fBottom r - fTop r"

text \<open>Modelled from the spec: \<open>SkMask::computeImageSize\<close> of SkMask.cpp, the number of
  bytes of an 8-bit image, \<open>height * rowBytes\<close>, or 0 when that is not a positive
  number that fits a signed 32-bit integer.\<close>

definition computeImageSize :: "SkMask \<Rightarrow> int" where
  "computeImageSize m =
     (let size = SkIRect_height (fBounds m) * fRowBytes m
      in if 0 < size \<and> size < 2 ^ 31 then size else 0)"

text \<open>
  \<open>SkScalar\<close> and its operations are declared in SkScalar.h, outside the sources at
  hand, and exist in a floating-point and in a fixed-point build. The model takes the
  scalar type and the operations the code uses as parameters: the conversion macros,
  the rounding macros, and the C operators on scalars and floats (\<open>scalar_trunc\<close> is
  the cast to an integer type; the operator \<open>*\<close> is \<open>SkScalarMul\<close>, which it is in the
  floating-point build, and an \<open>int\<close> operand is converted by \<open>SkIntToScalar\<close>). \<open>SkFloatToScalar\<close> is applied to the decimal literals
  of the source, given as rationals.
\<close>

record 's scalar_ops =
  SkIntToScalar :: "int \<Rightarrow> 's"
  SkFloatToScalar :: "rat \<Rightarrow> 's"
  SkScalarMul :: "'s \<Rightarrow> 's \<Rightarrow> 's"
  SkScalarCeil :: "'s \<Rightarrow> int"
  SkScalarRound :: "'s \<Rightarrow> int"
  SkScalarRoundToInt :: "'s \<Rightarrow> int"
  SkScalarFloorToInt :: "'s \<Rightarrow> int"
  scalar_add :: "'s \<Rightarrow> 's \<Rightarrow> 's"
  scalar_sub :: "'s \<Rightarrow> 's \<Rightarrow> 's"
  scalar_neg :: "'s \<Rightarrow> 's"
  scalar_div :: "'s \<Rightarrow> 's \<Rightarrow> 's"
  scalar_less :: "'s \<Rightarrow> 's \<Rightarrow> bool"
  scalar_trunc :: "'s \<Rightarrow> int"

text \<open>\<open>#define kBlurRadiusFudgeFactor SkFloatToScalar( .57735f )\<close>\<close>

definition kBlurRadiusFudgeFactor :: "'s scalar_ops \<Rightarrow> 's" where
  "kBlurRadiusFudgeFactor ops = SkFloatToScalar ops (57735 / 100000)"

text \<open>\<open>get_adjusted_radii(passRadius, &loRadius, &hiRadius)\<close> returns the two
  radii.\<close>

definition get_adjusted_radii :: "'s scalar_ops \<Rightarrow> 's \<Rightarrow> int \<times> int" where
  "get_adjusted_radii ops passRadius =
     (let hiRadius = SkScalarCeil ops passRadius;
          loRadius = hiRadius
      in if scalar_less ops (SkFloatToScalar ops (1 / 2))
              (scalar_sub ops (SkIntToScalar ops hiRadius) passRadius)
         then (hiRadius - 1, hiRadius) else (loRadius, hiRadius))"

section \<open>The blur of a mask\<close>

datatype Quality = kLow_Quality | kHigh_Quality

text \<open>The buffers that \<open>Blur\<close> and \<open>BlurRect\<close> read or allocate: the source image, the
  destination image \<open>dp\<close>, the temporary \<open>tmpBuffer\<close> of the separable passes, the
  \<open>storage\<close> of the sum buffer, the \<open>tmpBuffer\<close> of the second pass over the sum buffer,
  the image of the inner style, and the profile and the scanline of \<open>BlurRect\<close>.\<close>

datatype buffer = Src_image | Dst_image | Tmp_buffer | Sum_storage | Pass_buffer | Inner_image
  | Profile_array | Scanline

text \<open>
  What the source leaves to the build and to the run: whether \<open>UNROLL_KERNEL_LOOP\<close>
  is defined, which offsets of each buffer are 4-byte aligned, and what a buffer
  holds when it has just been allocated.
\<close>

record platform =
  UNROLL_KERNEL_LOOP :: bool
  SkIsAlign4 :: "buffer \<Rightarrow> int \<Rightarrow> bool"
  fresh_bytes :: "buffer \<Rightarrow> bytes"
  fresh_words :: "buffer \<Rightarrow> words"

text \<open>The branch \<open>if (separable)\<close> of \<open>Blur\<close>: the passes of \<open>boxBlur\<close> or
  \<open>boxBlurInterp\<close> between \<open>sp\<close>, \<open>tp\<close> and \<open>dp\<close>. The result is the memory of \<open>dp\<close>.\<close>

definition separable_passes ::
  "'s scalar_ops \<Rightarrow> bytes \<Rightarrow> int \<Rightarrow> bytes \<Rightarrow> bytes \<Rightarrow> 's \<Rightarrow> int \<Rightarrow> int \<Rightarrow> int \<Rightarrow> Quality
     \<Rightarrow> int \<Rightarrow> int \<Rightarrow> bytes" where
  "separable_passes ops sp srcRB tp dp passRadius rx ry outerWeight quality sw sh =
     (let w = sw; h = sh
      in if outerWeight = 255
         then
          (let (loRadius, hiRadius) = get_adjusted_radii ops passRadius
           in if quality = kHigh_Quality
              then
               (let (w, tp) = boxBlur sp srcRB tp loRadius hiRadius w h False;
                    (w, dp) = boxBlur tp w dp hiRadius loRadius w h False;
                    (w, tp) = boxBlur dp w tp hiRadius hiRadius w h True;
                    (h, dp) = boxBlur tp h dp loRadius hiRadius h w False;
                    (h, tp) = boxBlur dp h tp hiRadius loRadius h w False;
                    (h, dp) = boxBlur tp h dp hiRadius hiRadius h w True
                in dp)
              else
               (let (w, tp) = boxBlur sp srcRB tp rx rx w h True;
                    (h, dp) = boxBlur tp h dp ry ry h w True
                in dp))
         else
          (let ow = (word_of_int outerWeight :: u8)
           in if quality = kHigh_Quality
              then
               (let (w, tp) = boxBlurInterp sp srcRB tp rx w h False ow;
                    (w, dp) = boxBlurInterp tp w dp rx w h False ow;
                    (w, tp) = boxBlurInterp dp w tp rx w h True ow;
                    (h, dp) = boxBlurInterp tp h dp ry h w False ow;
                    (h, tp) = boxBlurInterp dp h tp ry h w False ow;
                    (h, dp) = boxBlurInterp tp h dp ry h w True ow
                in dp)
              else
               (let (w, tp) = boxBlurInterp sp srcRB tp rx w h True ow;
                    (h, dp) = boxBlurInterp tp h dp ry h w True ow
                in dp)))"

text \<open>\<open>apply_kernel\<close> or \<open>apply_kernel_interp\<close>, chosen by \<open>outerWeight == 255\<close>.\<close>

definition kernel_pass :: "platform \<Rightarrow> bytes \<Rightarrow> int \<Rightarrow> int \<Rightarrow> words \<Rightarrow> int \<Rightarrow> int \<Rightarrow> int \<Rightarrow> bytes" where
  "kernel_pass pf dst rx ry sumBuffer sw sh outerWeight =
     (if outerWeight = 255 then apply_kernel (UNROLL_KERNEL_LOOP pf) dst rx ry sumBuffer sw sh
      else apply_kernel_interp (UNROLL_KERNEL_LOOP pf) dst rx ry sumBuffer sw sh outerWeight)"

text \<open>The other branch: one pass over the sum buffer, and two more for the high
  quality. The result is the memory of \<open>dp\<close>.\<close>

definition sum_buffer_passes ::
  "platform \<Rightarrow> bytes \<Rightarrow> int \<Rightarrow> bytes \<Rightarrow> int \<Rightarrow> int \<Rightarrow> int \<Rightarrow> Quality \<Rightarrow> int \<Rightarrow> int \<Rightarrow> bytes" where
  "sum_buffer_passes pf sp srcRB dp rx ry outerWeight quality sw sh =
     (let sumBuffer = build_sum_buffer (SkIsAlign4 pf Src_image) (fresh_words pf Sum_storage)
                        sw sh sp srcRB;
          dp = kernel_pass pf dp rx ry sumBuffer sw sh outerWeight
      in if quality = kHigh_Quality
         then
          (let tmp_sw = sw + 2 * rx;
               tmp_sh = sh + 2 * ry;
               tmpBuffer = fresh_bytes pf Pass_buffer;
               sumBuffer = build_sum_buffer (SkIsAlign4 pf Dst_image) sumBuffer tmp_sw tmp_sh
                             dp tmp_sw;
               tmpBuffer = kernel_pass pf tmpBuffer rx ry sumBuffer tmp_sw tmp_sh outerWeight;
               tmp_sw = tmp_sw + 2 * rx;
               tmp_sh = tmp_sh + 2 * ry;
               sumBuffer = build_sum_buffer (SkIsAlign4 pf Pass_buffer) sumBuffer tmp_sw tmp_sh
                             tmpBuffer tmp_sw
           in kernel_pass pf dp rx ry sumBuffer tmp_sw tmp_sh outerWeight)
         else dp)"

text \<open>The locals that \<open>Blur\<close> computes from the radius and the quality.\<close>

definition Blur_quality :: "'s scalar_ops \<Rightarrow> 's \<Rightarrow> Quality \<Rightarrow> Quality" where
  "Blur_quality ops radius quality =
     (if scalar_less ops radius (SkIntToScalar ops 3) then kLow_Quality else quality)"

definition Blur_passCount :: "'s scalar_ops \<Rightarrow> 's \<Rightarrow> Quality \<Rightarrow> int" where
  "Blur_passCount ops radius quality =
     (if kHigh_Quality = Blur_quality ops radius quality then 3 else 1)"

definition Blur_passRadius :: "'s scalar_ops \<Rightarrow> 's \<Rightarrow> Quality \<Rightarrow> 's" where
  "Blur_passRadius ops radius quality =
     (if kHigh_Quality = Blur_quality ops radius quality
      then SkScalarMul ops radius (kBlurRadiusFudgeFactor ops) else radius)"

definition Blur_rx :: "'s scalar_ops \<Rightarrow> 's \<Rightarrow> Quality \<Rightarrow> int" where
  "Blur_rx ops radius quality = SkScalarCeil ops (Blur_passRadius ops radius quality)"

definition Blur_outerWeight :: "'s scalar_ops \<Rightarrow> 's \<Rightarrow> Quality \<Rightarrow> int" where
  "Blur_outerWeight ops radius quality =
     255 - SkScalarRound ops
             (SkScalarMul ops
                (scalar_sub ops (SkIntToScalar ops (Blur_rx ops radius quality))
                   (Blur_passRadius ops radius quality))
                (SkIntToScalar ops 255))"

text \<open>
  The block \<open>if (src.fImage) { ... }\<close> of \<open>Blur\<close> for a source image \<open>sp\<close>. It returns
  whether the function goes on (\<open>False\<close> for \<open>return false\<close>), the mask \<open>dst\<close>, and the
  buffers that are allocated when the block is left. \<open>dp\<close> is held by the guard
  \<open>autoCall\<close>, which frees it when the block is left by \<open>return false\<close> and lets go of
  it at \<open>detach()\<close>; \<open>tmpBuffer\<close> and \<open>storage\<close> are released at the end of their scopes;
  the inner style allocates the final image and frees \<open>dp\<close>.
\<close>

definition Blur_image ::
  "'s scalar_ops \<Rightarrow> platform \<Rightarrow> SkMask \<Rightarrow> SkMask \<Rightarrow> bytes \<Rightarrow> 's \<Rightarrow> Style \<Rightarrow> Quality \<Rightarrow> bool
     \<Rightarrow> bool \<times> SkMask \<times> buffer list" where
  "Blur_image ops pf dst src sp radius style quality0 separable =
     (let quality = Blur_quality ops radius quality0;
          passCount = Blur_passCount ops radius quality0;
          passRadius = Blur_passRadius ops radius quality0;
          rx = Blur_rx ops radius quality0;
          ry = rx;
          outerWeight = Blur_outerWeight ops radius quality0;
          dstSize = computeImageSize dst
      in if 0 = dstSize then (False, dst, [])
         else
          (let sw = SkIRect_width (fBounds src);
               sh = SkIRect_height (fBounds src);
               dp = fresh_bytes pf Dst_image;
               dp = (if separable
                     then separable_passes ops sp (fRowBytes src) (fresh_bytes pf Tmp_buffer) dp
                            passRadius rx ry outerWeight quality sw sh
                     else sum_buffer_passes pf sp (fRowBytes src) dp rx ry outerWeight quality
                            sw sh);
               dst = dst\<lparr>fImage := Some dp\<rparr>
           in if style = kInner_Style
              then
               (let srcSize = computeImageSize src
                in if 0 = srcSize then (False, dst, [])
                   else
                    (let img = merge_src_with_blur (fresh_bytes pf Inner_image) 0 (fRowBytes src)
                                 sp 0 (fRowBytes src)
                                 dp (passCount * (rx + ry * fRowBytes dst)) (fRowBytes dst) sw sh
                     in (True, dst\<lparr>fImage := Some img\<rparr>, [Inner_image])))
              else if style \<noteq> kNormal_Style
              then
               (let dp = clamp_with_orig dp (passCount * (rx + ry * fRowBytes dst)) (fRowBytes dst)
                           sp 0 (fRowBytes src) sw sh style
                in (True, dst\<lparr>fImage := Some dp\<rparr>, [Dst_image]))
              else (True, dst, [Dst_image])))"

text \<open>
  \<open>SkBlurMask::Blur(dst, src, radius, style, quality, margin, separable)\<close>. The
  pointer \<open>margin\<close> is an option: \<open>None\<close> for NULL. The result is the returned flag, the
  mask \<open>*dst\<close>, the point \<open>*margin\<close>, and the buffers that are allocated on return.
  \<open>BlurSeparable\<close> is this function with \<open>separable = true\<close>, and the overload of
  \<open>Blur\<close> with six arguments is this function with \<open>separable = false\<close>.
\<close>

definition Blur ::
  "'s scalar_ops \<Rightarrow> platform \<Rightarrow> SkMask \<Rightarrow> SkMask \<Rightarrow> 's \<Rightarrow> Style \<Rightarrow> Quality \<Rightarrow> (int \<times> int) option
     \<Rightarrow> bool \<Rightarrow> bool \<times> SkMask \<times> (int \<times> int) option \<times> buffer list" where
  "Blur ops pf dst src radius style quality margin separable =
     (if fFormat src \<noteq> kA8_Format then (False, dst, margin, [])
      else
       (let passCount = Blur_passCount ops radius quality;
            rx = Blur_rx ops radius quality
        in if rx \<le> 0 then (False, dst, margin, [])
           else
            (let ry = rx;
                 padx = passCount * rx;
                 pady = passCount * ry;
                 margin = (case margin of None \<Rightarrow> None | Some m \<Rightarrow> Some (padx, pady));
                 dst = dst\<lparr>fBounds := \<lparr>fLeft = fLeft (fBounds src) - padx,
                                        fTop = fTop (fBounds src) - pady,
                                        fRight = fRight (fBounds src) + padx,
                                        fBottom = fBottom (fBounds src) + pady\<rparr>\<rparr>;
                 dst = dst\<lparr>fRowBytes := int_to_u32 (SkIRect_width (fBounds dst))\<rparr>;
                 dst = dst\<lparr>fFormat := kA8_Format\<rparr>;
                 dst = dst\<lparr>fImage := None\<rparr>;
                 (go_on, dst, live) =
                    (case fImage src of
                       None \<Rightarrow> (True, dst, [])
                     | Some sp \<Rightarrow> Blur_image ops pf dst src sp radius style quality separable)
             in if \<not> go_on then (False, dst, margin, live)
                else
                 (let dst = (if style = kInner_Style
                             then dst\<lparr>fBounds := fBounds src, fRowBytes := fRowBytes src\<rparr>
                             else dst)
                  in (True, dst, margin, live)))))"

definition BlurSeparable ::
  "'s scalar_ops \<Rightarrow> platform \<Rightarrow> SkMask \<Rightarrow> SkMask \<Rightarrow> 's \<Rightarrow> Style \<Rightarrow> Quality \<Rightarrow> (int \<times> int) option
     \<Rightarrow> bool \<times> SkMask \<times> (int \<times> int) option \<times> buffer list" where
  "BlurSeparable ops pf dst src radius style quality margin =
     Blur ops pf dst src radius style quality margin True"


section \<open>The analytic blur of a rectangle\<close>

text \<open>\<open>gaussianIntegral(x)\<close>, with the operators on floats taken from \<open>ops\<close>.\<close>

definition gaussianIntegral :: "'s scalar_ops \<Rightarrow> 's \<Rightarrow> 's" where
  "gaussianIntegral ops x =
     (let lit = SkFloatToScalar ops;
          fadd = scalar_add ops; fsub = scalar_sub ops; fmul = SkScalarMul ops; fdiv = scalar_div ops
      in if scalar_less ops (lit (3 / 2)) x then lit 0
         else if scalar_less ops x (lit (- 3 / 2)) then lit 1
         else
          (let x2 = fmul x x;
               x3 = fmul x2 x
           in if scalar_less ops (lit (1 / 2)) x
              then fsub (lit (5625 / 10000))
                     (fadd (fsub (fdiv x3 (lit 6)) (fmul (fmul (lit 3) x2) (lit (1 / 4))))
                          (fmul (lit (1125 / 1000)) x))
              else if scalar_less ops (lit (- 1 / 2)) x
              then fsub (lit (1 / 2)) (fsub (fmul (lit (3 / 4)) x) (fdiv x3 (lit 3)))
              else fadd (lit (4375 / 10000))
                     (fsub (fsub (fdiv (scalar_neg ops x3) (lit 6)) (fmul (fmul (lit 3) x2) (lit (1 / 4))))
                          (fmul (lit (1125 / 1000)) x))))"

definition compute_profile_size :: "'s scalar_ops \<Rightarrow> 's \<Rightarrow> int" where
  "compute_profile_size ops radius =
     SkScalarRoundToInt ops (SkScalarMul ops radius (SkIntToScalar ops 3))"

text \<open>\<open>(uint8_t) (255 * v)\<close> for a float \<open>v\<close>.\<close>

definition float_to_u8 :: "'s scalar_ops \<Rightarrow> 's \<Rightarrow> u8" where
  "float_to_u8 ops v = word_of_int (scalar_trunc ops (SkScalarMul ops (SkIntToScalar ops 255) v))"

text \<open>\<open>compute_profile(radius, &profile)\<close> returns the array it allocates, an array of
  \<open>unsigned int\<close>. It writes \<open>profile[0]\<close> whatever the size is.\<close>

definition compute_profile :: "'s scalar_ops \<Rightarrow> platform \<Rightarrow> 's \<Rightarrow> words" where
  "compute_profile ops pf radius =
     (let size = compute_profile_size ops radius;
          center = size div 2;
          profile = fresh_words pf Profile_array;
          invr = scalar_div ops (SkFloatToScalar ops 1) radius;
          profile = profile(0 := 255);
          (x, profile) = for_loop 1 size
             (\<lambda>x profile.
                let scaled_x = SkScalarMul ops
                      (scalar_sub ops (SkIntToScalar ops (center - x)) (SkFloatToScalar ops (1 / 2)))
                      invr;
                    gi = gaussianIntegral ops scaled_x
                in profile(x := word_of_int (255 - uint (float_to_u8 ops gi))))
             1 profile
      in profile)"

definition profile_lookup :: "words \<Rightarrow> int \<Rightarrow> int \<Rightarrow> int \<Rightarrow> u32" where
  "profile_lookup profile loc blurred_width sharp_width =
     (let dx = \<bar>(loc * 2 + 1) - blurred_width\<bar> - sharp_width;
          ox = dx div 2;
          ox = (if ox < 0 then 0 else ox)
      in profile ox)"

text \<open>Modelled from the spec: the create modes of SkMask.h.\<close>

datatype CreateMode = kJustComputeBounds_CreateMode | kJustRenderImage_CreateMode
  | kComputeBoundsAndRenderImage_CreateMode

text \<open>\<open>memcpy(dst + d, src + s, n)\<close> and \<open>memset(dst + d, 0, n)\<close> on bytes.\<close>

definition memcpy_bytes :: "bytes \<Rightarrow> int \<Rightarrow> bytes \<Rightarrow> int \<Rightarrow> int \<Rightarrow> bytes" where
  "memcpy_bytes dst d src s n = (\<lambda>i. if d \<le> i \<and> i < d + n then src (s + (i - d)) else dst i)"

definition memset0_bytes :: "bytes \<Rightarrow> int \<Rightarrow> int \<Rightarrow> bytes" where
  "memset0_bytes dst d n = (\<lambda>i. if d \<le> i \<and> i < d + n then 0 else dst i)"

text \<open>The value at position \<open>x\<close> across a side of \<open>sw\<close> pixels when the profile is wider
  than the side: \<open>(uint8_t) (255 * (gaussianIntegral(giX) - gaussianIntegral(giX + span)))\<close>.\<close>

definition side_integral :: "'s scalar_ops \<Rightarrow> 's \<Rightarrow> int \<Rightarrow> int \<Rightarrow> u8" where
  "side_integral ops radius sw x =
     (let span = scalar_div ops (SkIntToScalar ops sw) radius;
          giX = scalar_sub ops (SkFloatToScalar ops (3 / 2))
                  (scalar_div ops (scalar_add ops (SkIntToScalar ops x) (SkFloatToScalar ops (1 / 2)))
                     radius)
      in float_to_u8 ops
           (scalar_sub ops (gaussianIntegral ops giX)
              (gaussianIntegral ops (scalar_add ops giX span))))"

text \<open>The rounded rectangle \<open>src\<close>, moved out by \<open>pad\<close> on each side.\<close>

definition rounded_outset :: "'s scalar_ops \<Rightarrow> 's Rect \<Rightarrow> int \<Rightarrow> int Rect" where
  "rounded_outset ops src pad =
     \<lparr>fLeft = SkScalarRoundToInt ops (scalar_sub ops (fLeft src) (SkIntToScalar ops pad)),
      fTop = SkScalarRoundToInt ops (scalar_sub ops (fTop src) (SkIntToScalar ops pad)),
      fRight = SkScalarRoundToInt ops (scalar_add ops (fRight src) (SkIntToScalar ops pad)),
      fBottom = SkScalarRoundToInt ops (scalar_add ops (fBottom src) (SkIntToScalar ops pad))\<rparr>"

definition rounded :: "'s scalar_ops \<Rightarrow> 's Rect \<Rightarrow> int Rect" where
  "rounded ops src =
     \<lparr>fLeft = SkScalarRoundToInt ops (fLeft src), fTop = SkScalarRoundToInt ops (fTop src),
      fRight = SkScalarRoundToInt ops (fRight src),
      fBottom = SkScalarRoundToInt ops (fBottom src)\<rparr>"

text \<open>
  The part of \<open>BlurRect\<close> after the test of \<open>createMode\<close>: the profile, the pixels and
  the styles. \<open>dp\<close> is not held by a guard here.
\<close>

definition BlurRect_render ::
  "'s scalar_ops \<Rightarrow> platform \<Rightarrow> SkMask \<Rightarrow> 's Rect \<Rightarrow> 's \<Rightarrow> int \<Rightarrow> int \<Rightarrow> int \<Rightarrow> int \<Rightarrow> Style
     \<Rightarrow> bool \<times> SkMask \<times> buffer list" where
  "BlurRect_render ops pf dst src radius profile_size pad sw sh style =
     (let profile = compute_profile ops pf radius;
          dstSize = computeImageSize dst
      in if 0 = dstSize then (False, dst, [])
         else
          (let dp = fresh_bytes pf Dst_image;
               dstHeight = SkIRect_height (fBounds dst);
               dstWidth = SkIRect_width (fBounds dst);
               center = (profile_size AND NOT 1) - 1;
               w = sw - center;
               h = sh - center;
               (x, horizontalScanline) = for_loop 1 dstWidth
                  (\<lambda>x hs. hs(x := (if profile_size \<le> sw
                                       then ucast (profile_lookup profile x dstWidth w)
                                       else side_integral ops radius sw x)))
                  0 (fresh_bytes pf Scanline);
               (y, outptr, dp) = for_loop 1 dstHeight
                  (\<lambda>y (outptr, dp).
                     let profile_y = (if profile_size \<le> sh
                                      then profile_lookup profile y dstHeight h
                                      else ucast (side_integral ops radius sh y));
                         (x, outptr, dp) = for_loop 1 dstWidth
                            (\<lambda>x (outptr, dp).
                               (outptr + 1,
                                dp(outptr := word_of_int
                                     (SkMulDiv255Round (uint (horizontalScanline x))
                                        (uint profile_y)))))
                            0 (outptr, dp)
                     in (outptr, dp))
                  0 (0, dp)
           in if style = kInner_Style
              then
               (let srcSize = scalar_trunc ops
                      (SkScalarMul ops (scalar_sub ops (fRight src) (fLeft src))
                         (scalar_sub ops (fBottom src) (fTop src)))
                in if 0 = srcSize then (False, dst\<lparr>fImage := Some dp\<rparr>, [Dst_image])
                   else
                    (let (y, img) = for_loop 1 sh
                            (\<lambda>y img. memcpy_bytes img (y * sw) dp ((y + pad) * dstWidth + pad) sw)
                            0 (fresh_bytes pf Inner_image)
                     in (True,
                         dst\<lparr>fImage := Some img, fBounds := rounded ops src, fRowBytes := int_to_u32 sw\<rparr>,
                         [Inner_image])))
              else if style = kOuter_Style
              then
               (let (y, dp) = for_loop 1 (dstHeight - pad)
                       (\<lambda>y dp. memset0_bytes dp (y * dstWidth + pad) sw) pad dp
                in (True, dst\<lparr>fImage := Some dp\<rparr>, [Dst_image]))
              else (True, dst\<lparr>fImage := Some dp\<rparr>, [Dst_image])))"

text \<open>
  \<open>SkBlurMask::BlurRect(dst, src, provided_radius, style, margin, createMode)\<close>, with
  the same results as \<open>Blur\<close>.
\<close>

definition BlurRect ::
  "'s scalar_ops \<Rightarrow> platform \<Rightarrow> SkMask \<Rightarrow> 's Rect \<Rightarrow> 's \<Rightarrow> Style \<Rightarrow> (int \<times> int) option
     \<Rightarrow> CreateMode \<Rightarrow> bool \<times> SkMask \<times> (int \<times> int) option \<times> buffer list" where
  "BlurRect ops pf dst src provided_radius style margin createMode =
     (let radius = SkScalarMul ops provided_radius (kBlurRadiusFudgeFactor ops);
          radius = SkScalarMul ops (scalar_add ops radius (SkFloatToScalar ops (1 / 2)))
                     (SkFloatToScalar ops 2);
          profile_size = compute_profile_size ops radius;
          pad = profile_size sdiv 2;
          margin = (case margin of None \<Rightarrow> None | Some m \<Rightarrow> Some (pad, pad));
          dst = dst\<lparr>fBounds := rounded_outset ops src pad\<rparr>;
          dst = dst\<lparr>fRowBytes := int_to_u32 (SkIRect_width (fBounds dst))\<rparr>;
          dst = dst\<lparr>fFormat := kA8_Format\<rparr>;
          dst = dst\<lparr>fImage := None\<rparr>;
          sw = SkScalarFloorToInt ops (scalar_sub ops (fRight src) (fLeft src));
          sh = SkScalarFloorToInt ops (scalar_sub ops (fBottom src) (fTop src))
      in if createMode = kJustComputeBounds_CreateMode
         then
          (let dst = (if style = kInner_Style
                      then dst\<lparr>fBounds := rounded ops src, fRowBytes := int_to_u32 sw\<rparr> else dst)
           in (True, dst, margin, []))
         else
          (let (ok, dst, live) = BlurRect_render ops pf dst src radius profile_size pad sw sh style
           in (ok, dst, margin, live)))"

section \<open>Notions used to state the properties\<close>

text \<open>The sum of the \<open>n\<close> source bytes from offset \<open>p\<close> on, as the \<open>uint32_t\<close>
  accumulator adds them.\<close>

primrec rsum :: "bytes \<Rightarrow> int \<Rightarrow> nat \<Rightarrow> u32" where
  "rsum src p 0 = 0"
| "rsum src p (Suc n) = rsum src p n + ucast (src (p + int n))"

text \<open>\<open>n\<close> stores through a pointer that starts at \<open>d\<close> and advances by \<open>st\<close>; the
  \<open>i\<close>-th store writes \<open>v i\<close>.\<close>

primrec writes :: "int \<Rightarrow> int \<Rightarrow> (nat \<Rightarrow> 'a) \<Rightarrow> nat \<Rightarrow> (int \<Rightarrow> 'a) \<Rightarrow> (int \<Rightarrow> 'a)" where
  "writes d st v 0 m = m"
| "writes d st v (Suc n) m = (writes d st v n m)(d + int n * st := v n)"

text \<open>The rounded fixed-point average \<open>(sum * scale + half) >> 24\<close> as a byte.\<close>

definition box_px :: "u32 \<Rightarrow> u32 \<Rightarrow> u8" where
  "box_px scale v = ucast (drop_bit 24 (v * scale + half))"

text \<open>The source row that starts at \<open>base\<close>, padded with zeros outside
  \<open>[0, width)\<close>.\<close>

definition padded :: "bytes \<Rightarrow> int \<Rightarrow> int \<Rightarrow> int \<Rightarrow> u32" where
  "padded src base width i = (if 0 \<le> i \<and> i < width then ucast (src (base + i)) else 0)"

primrec isum :: "(int \<Rightarrow> u32) \<Rightarrow> int \<Rightarrow> nat \<Rightarrow> u32" where
  "isum f p 0 = 0"
| "isum f p (Suc n) = isum f p n + f (p + int n)"

text \<open>The sum of the padded row over the window \<open>[j - diameter, j]\<close>.\<close>

definition box_window :: "bytes \<Rightarrow> int \<Rightarrow> int \<Rightarrow> int \<Rightarrow> int \<Rightarrow> u32" where
  "box_window src base width diameter j =
     isum (padded src base width) (j - diameter) (nat (diameter + 1))"

definition clampw :: "int \<Rightarrow> int \<Rightarrow> nat" where
  "clampw w x = nat (max 0 (min x w))"

text \<open>The iterations \<open>x, x + 1, \<dots>, x + n - 1\<close> of a loop body.\<close>

primrec rows :: "(int \<Rightarrow> 's \<Rightarrow> 's) \<Rightarrow> int \<Rightarrow> nat \<Rightarrow> 's \<Rightarrow> 's" where
  "rows body x 0 s = s"
| "rows body x (Suc n) s = body (x + int n) (rows body x n s)"

text \<open>
  What a row of the destination of \<open>boxBlur\<close> holds at column \<open>k\<close>: the box averages of
  the zero-padded source row in \<open>width + leftRadius + rightRadius\<close> columns, after
  \<open>rightRadius - leftRadius\<close> leading zeros and before \<open>leftRadius - rightRadius\<close>
  trailing zeros.
\<close>

definition boxBlur_columns :: "bytes \<Rightarrow> int \<Rightarrow> int \<Rightarrow> int \<Rightarrow> int \<Rightarrow> nat \<Rightarrow> u8" where
  "boxBlur_columns src base width leftRadius rightRadius k =
     (if k < nat (rightRadius - leftRadius) then 0
      else if k < nat (rightRadius - leftRadius) + nat (width + leftRadius + rightRadius)
        then box_px (word_of_int (2 ^ 24 sdiv (leftRadius + rightRadius + 1)))
               (box_window src base width (leftRadius + rightRadius)
                  (int k - int (nat (rightRadius - leftRadius))))
      else 0)"

text \<open>
  The two-dimensional prefix sum of the source image with row stride \<open>rb\<close>: the sum of
  the first \<open>i\<close> bytes of each of the first \<open>j\<close> rows, as \<open>uint32_t\<close> arithmetic adds
  them.
\<close>

primrec prefix2 :: "bytes \<Rightarrow> int \<Rightarrow> nat \<Rightarrow> nat \<Rightarrow> u32" where
  "prefix2 src rb i 0 = 0"
| "prefix2 src rb i (Suc j) = prefix2 src rb i j + rsum src (int j * rb) i"

text \<open>The sum of the source bytes in columns \<open>[x0, x0 + n)\<close> of rows \<open>[y0, y0 + m)\<close>.\<close>

primrec rect_sum :: "bytes \<Rightarrow> int \<Rightarrow> nat \<Rightarrow> nat \<Rightarrow> nat \<Rightarrow> nat \<Rightarrow> u32" where
  "rect_sum src rb x0 n y0 0 = 0"
| "rect_sum src rb x0 n y0 (Suc m) =
     rect_sum src rb x0 n y0 m + rsum src (int (y0 + m) * rb + int x0) n"

text \<open>The rows \<open>0, \<dots>, J\<close> of the sum buffer of an image of width \<open>srcW\<close> hold the
  prefix sums.\<close>

definition tab_ok :: "words \<Rightarrow> bytes \<Rightarrow> int \<Rightarrow> int \<Rightarrow> nat \<Rightarrow> bool" where
  "tab_ok mem src rb srcW J =
     (\<forall>j i. j \<le> J \<and> int i \<le> srcW \<longrightarrow> mem (int j * (srcW + 1) + int i) = prefix2 src rb i j)"

text \<open>The state between two rows of \<open>build_sum_buffer\<close>, after \<open>J\<close> rows of the source.\<close>

definition sum_inv :: "bytes \<Rightarrow> int \<Rightarrow> int \<Rightarrow> nat \<Rightarrow> sum_buf \<Rightarrow> bool" where
  "sum_inv src rb srcW J s \<longleftrightarrow>
     tab_ok (sb_mem s) src rb srcW J \<and> sb_sum s = int (Suc J) * (srcW + 1)
       \<and> sb_src s = int J * rb"

text \<open>\<open>SkToU8(tmp * scale >> 24)\<close> for the four-corner sample \<open>tmp\<close>.\<close>

definition kpix :: "words \<Rightarrow> u32 \<Rightarrow> int \<Rightarrow> int \<Rightarrow> int \<Rightarrow> int \<Rightarrow> u8" where
  "kpix sbuf scale px py nx ny = SkToU8 (drop_bit 24 (four_corners sbuf px py nx ny * scale))"

text \<open>What one row of either kernel does to the write pointer, the destination and
  the window rows.\<close>

definition krow_step ::
  "words \<Rightarrow> u32 \<Rightarrow> int \<Rightarrow> int \<Rightarrow> int \<Rightarrow> int \<times> bytes \<times> int \<times> int \<Rightarrow> int \<times> bytes \<times> int \<times> int" where
  "krow_step sbuf scale rx sw sh c =
     (case c of (d, mem, prev_y, next_y) \<Rightarrow>
        (d + int (nat (sw + 2 * rx)),
         writes d 1
           (\<lambda>i. kpix sbuf scale (SkClampPos (- 2 * rx + int i)) (SkClampPos prev_y * (sw + 1))
                   (SkFastMin32 (1 + int i) sw) (SkFastMin32 next_y sh * (sw + 1)))
           (nat (sw + 2 * rx)) mem,
         prev_y + 1, next_y + 1))"

definition kcore :: "kern \<Rightarrow> int \<times> bytes \<times> int \<times> int" where
  "kcore s = (k_dst s, k_mem s, k_prev_y s, k_next_y s)"

text \<open>A coordinate clamped to \<open>[lo, hi]\<close>.\<close>

definition pin :: "int \<Rightarrow> int \<Rightarrow> int \<Rightarrow> int" where
  "pin lo hi v = max lo (min hi v)"

text \<open>
  The box blur of radius \<open>(rx, ry)\<close> at the output pixel \<open>(x, y)\<close>, read off the
  prefix sums: the four-corner sample with the window coordinates clamped to
  \<open>[0, sw]\<close> and \<open>[0, sh]\<close>, scaled by \<open>(1 << 24) / ((2*rx + 1) * (2*ry + 1))\<close> and
  truncated by \<open>>> 24\<close>.
\<close>

definition kernel_pixel :: "words \<Rightarrow> int \<Rightarrow> int \<Rightarrow> int \<Rightarrow> int \<Rightarrow> nat \<Rightarrow> nat \<Rightarrow> u8" where
  "kernel_pixel sbuf rx ry sw sh x y =
     (let scale = (word_of_int (2 ^ 24 sdiv ((2 * rx + 1) * (2 * ry + 1))) :: u32);
          px = pin 0 sw (int x - 2 * rx);
          nx = pin 0 sw (int x + 1);
          py = pin 0 sh (int y - 2 * ry);
          ny = pin 0 sh (int y + 1);
          tmp = sbuf (py * (sw + 1) + px) + sbuf (ny * (sw + 1) + nx)
                - sbuf (py * (sw + 1) + nx) - sbuf (ny * (sw + 1) + px)
      in SkToU8 (drop_bit 24 (tmp * scale)))"

text \<open>The bounds that \<open>Blur\<close> gives to \<open>dst\<close> before it looks at the image: the bounds of
  the source moved out by \<open>passCount * rx\<close> on each side.\<close>

definition Blur_bounds :: "'s scalar_ops \<Rightarrow> SkMask \<Rightarrow> 's \<Rightarrow> Quality \<Rightarrow> int Rect" where
  "Blur_bounds ops src radius quality =
     (let pad = Blur_passCount ops radius quality * Blur_rx ops radius quality
      in \<lparr>fLeft = fLeft (fBounds src) - pad, fTop = fTop (fBounds src) - pad,
          fRight = fRight (fBounds src) + pad, fBottom = fBottom (fBounds src) + pad\<rparr>)"

text \<open>The mask \<open>dst\<close> at that point.\<close>

definition Blur_dst :: "'s scalar_ops \<Rightarrow> SkMask \<Rightarrow> SkMask \<Rightarrow> 's \<Rightarrow> Quality \<Rightarrow> SkMask" where
  "Blur_dst ops dst src radius quality =
     dst\<lparr>fBounds := Blur_bounds ops src radius quality,
         fRowBytes := int_to_u32 (SkIRect_width (Blur_bounds ops src radius quality)),
         fFormat := kA8_Format, fImage := None\<rparr>"

text \<open>What \<open>*margin\<close> holds after a call that sets it to \<open>(pad, pad)\<close>: nothing when the
  pointer is NULL.\<close>

definition margin_set :: "(int \<times> int) option \<Rightarrow> int \<Rightarrow> (int \<times> int) option" where
  "margin_set margin pad = (case margin of None \<Rightarrow> None | Some m \<Rightarrow> Some (pad, pad))"

text \<open>Scalars as exact rationals, and a platform, for concrete runs of the model.\<close>

definition exact_scalars :: "rat scalar_ops" where
  "exact_scalars =
     \<lparr>SkIntToScalar = of_int, SkFloatToScalar = (\<lambda>q. q), SkScalarMul = (\<lambda>a b. a * b),
      SkScalarCeil = ceiling, SkScalarRound = (\<lambda>x. \<lfloor>x + 1 / 2\<rfloor>),
      SkScalarRoundToInt = (\<lambda>x. \<lfloor>x + 1 / 2\<rfloor>), SkScalarFloorToInt = floor,
      scalar_add = (\<lambda>a b. a + b), scalar_sub = (\<lambda>a b. a - b), scalar_neg = (\<lambda>a. - a),
      scalar_div = (\<lambda>a b. a / b), scalar_less = (\<lambda>a b. a < b),
      scalar_trunc = (\<lambda>x. if 0 \<le> x then \<lfloor>x\<rfloor> else \<lceil>x\<rceil>)\<rparr>"

definition plain_platform :: platform where
  "plain_platform =
     \<lparr>UNROLL_KERNEL_LOOP = False, SkIsAlign4 = (\<lambda>b p. p mod 4 = 0),
      fresh_bytes = (\<lambda>b p. 0), fresh_words = (\<lambda>b p. 0)\<rparr>"


text \<open>
  The common shape of a pixel of the style post-processing: the byte under \<open>dst\<close>
  becomes a function \<open>g\<close> of the offsets \<open>src\<close> and \<open>blur\<close> and of the byte it replaces;
  \<open>dst\<close> and \<open>src\<close> advance by 1 and \<open>blur\<close> by \<open>b\<close>. A row is \<open>sw\<close> pixels, followed by
  the increments of the three pointers.
\<close>

definition style_px :: "(int \<Rightarrow> int \<Rightarrow> u8 \<Rightarrow> u8) \<Rightarrow> int \<Rightarrow> style_state \<Rightarrow> style_state" where
  "style_px g b st =
     st\<lparr>st_mem := (st_mem st)(st_dst st := g (st_src st) (st_blur st) (st_mem st (st_dst st))),
        st_dst := st_dst st + 1, st_src := st_src st + 1, st_blur := st_blur st + b\<rparr>"

definition style_row ::
  "(int \<Rightarrow> int \<Rightarrow> u8 \<Rightarrow> u8) \<Rightarrow> int \<Rightarrow> int \<Rightarrow> int \<Rightarrow> int \<Rightarrow> int \<Rightarrow> style_state \<Rightarrow> style_state" where
  "style_row g b sw rd rs rb st =
     (let s = (style_px g b ^^ nat sw) st
      in s\<lparr>st_dst := st_dst s + rd, st_src := st_src s + rs, st_blur := st_blur s + rb\<rparr>)"

text \<open>The bytes that the three styles store.\<close>

definition solid_value :: "u8 \<Rightarrow> u8 \<Rightarrow> u8" where
  "solid_value s d = SkToU8 (word_of_int (uint s + uint d - SkMulDiv255Round (uint s) (uint d)))"

definition outer_value :: "u8 \<Rightarrow> u8 \<Rightarrow> u8" where
  "outer_value s d =
     (if s \<noteq> 0 then SkToU8 (word_of_int (SkAlphaMul (uint d) (SkAlpha255To256 (255 - uint s))))
      else d)"

definition inner_value :: "u8 \<Rightarrow> u8 \<Rightarrow> u8" where
  "inner_value s b = SkToU8 (word_of_int (SkAlphaMul (uint b) (SkAlpha255To256 (uint s))))"

text \<open>The blurred image that \<open>Blur\<close> builds in \<open>dp\<close> before the style is applied; \<open>d\<close> is
  the mask \<open>*dst\<close> with its bounds and row bytes set.\<close>

definition Blur_blurred ::
  "'s scalar_ops \<Rightarrow> platform \<Rightarrow> SkMask \<Rightarrow> bytes \<Rightarrow> 's \<Rightarrow> Quality \<Rightarrow> bool \<Rightarrow> bytes" where
  "Blur_blurred ops pf src sp radius quality separable =
     (if separable
      then separable_passes ops sp (fRowBytes src) (fresh_bytes pf Tmp_buffer)
             (fresh_bytes pf Dst_image) (Blur_passRadius ops radius quality)
             (Blur_rx ops radius quality) (Blur_rx ops radius quality)
             (Blur_outerWeight ops radius quality) (Blur_quality ops radius quality)
             (SkIRect_width (fBounds src)) (SkIRect_height (fBounds src))
      else sum_buffer_passes pf sp (fRowBytes src) (fresh_bytes pf Dst_image)
             (Blur_rx ops radius quality) (Blur_rx ops radius quality)
             (Blur_outerWeight ops radius quality) (Blur_quality ops radius quality)
             (SkIRect_width (fBounds src)) (SkIRect_height (fBounds src)))"

text \<open>The image of the mask that \<open>Blur\<close> returns.\<close>

definition Blur_pixels ::
  "'s scalar_ops \<Rightarrow> platform \<Rightarrow> SkMask \<Rightarrow> SkMask \<Rightarrow> 's \<Rightarrow> Style \<Rightarrow> Quality \<Rightarrow> (int \<times> int) option
     \<Rightarrow> bool \<Rightarrow> bytes" where
  "Blur_pixels ops pf dst src radius style quality margin separable =
     the (fImage (fst (snd (Blur ops pf dst src radius style quality margin separable))))"

text \<open>The offset, in the image of \<open>dst\<close>, of the pixel that lies over the pixel \<open>(x, y)\<close> of
  the source: \<open>passCount * (rx + ry * dst->fRowBytes)\<close> is the offset of the pixel over
  \<open>(0, 0)\<close>.\<close>

definition Blur_offset :: "'s scalar_ops \<Rightarrow> SkMask \<Rightarrow> 's \<Rightarrow> Quality \<Rightarrow> nat \<Rightarrow> nat \<Rightarrow> int" where
  "Blur_offset ops src radius quality x y =
     (let rowBytes = SkIRect_width (Blur_bounds ops src radius quality)
      in Blur_passCount ops radius quality
           * (Blur_rx ops radius quality + Blur_rx ops radius quality * rowBytes)
         + int y * rowBytes + int x)"

text \<open>The same sums as integers, without wrap-around: the sum of \<open>n\<close> bytes from the
  offset \<open>p\<close>, and the sum of the source bytes in columns \<open>[x0, x0 + n)\<close> of rows
  \<open>[y0, y0 + m)\<close>.\<close>

primrec row_total :: "bytes \<Rightarrow> int \<Rightarrow> nat \<Rightarrow> int" where
  "row_total src p 0 = 0"
| "row_total src p (Suc n) = row_total src p n + uint (src (p + int n))"

primrec rect_total :: "bytes \<Rightarrow> int \<Rightarrow> nat \<Rightarrow> nat \<Rightarrow> nat \<Rightarrow> nat \<Rightarrow> int" where
  "rect_total src rb x0 n y0 0 = 0"
| "rect_total src rb x0 n y0 (Suc m) =
     rect_total src rb x0 n y0 m + row_total src (int (y0 + m) * rb + int x0) n"
section \<open>Loops as iteration\<close>


lemma for_loop_1: "for_loop 1 b (\<lambda>_. f) x s = (max x b, (f ^^ nat (b - x)) s)"
proof (induction "nat (b - x)" arbitrary: x s)
  case 0
  then show ?case by (simp add: for_loop.simps [of 1 b _ x s] max_def)
next
  case (Suc n)
  then have lt: "x < b" and n: "n = nat (b - (x + 1))" by linarith+
  have step: "nat (b - x) = Suc (nat (b - (x + 1)))" using lt by linarith
  show ?case
    using Suc.hyps(1) [OF n, of "f s"] lt
    by (simp add: for_loop.simps [of 1 b _ x s] step funpow_swap1 max_def)
qed

lemma for_loop_unrolled:
  assumes k: "0 < k"
  shows "(case for_loop k (b - k) (\<lambda>_. f ^^ nat k) x s of (x', s') \<Rightarrow> for_loop 1 b (\<lambda>_. f) x' s')
           = (max x b, (f ^^ nat (b - x)) s)"
proof (induction "nat (b - k - x)" arbitrary: x s rule: less_induct)
  case less
  show ?case
  proof (cases "x < b - k")
    case True
    then have m: "nat (b - k - (x + k)) < nat (b - k - x)" using k by linarith
    have e: "nat (b - x) = nat (b - (x + k)) + nat k" using True k by linarith
    have mx: "max (x + k) b = max x b" using True k by linarith
    show ?thesis
      using less.hyps [OF m, of "(f ^^ nat k) s"] True k
      by (simp add: for_loop.simps [of k "b - k" _ x s] e funpow_add mx)
  next
    case False
    then show ?thesis
      by (simp add: for_loop.simps [of k "b - k" _ x s] for_loop_1)
  qed
qed

lemma loop1_then:
  "(case for_loop 1 b (\<lambda>_. f) x s of (x', s') \<Rightarrow> K x' s') = K (max x b) ((f ^^ nat (b - x)) s)"
  by (simp add: for_loop_1)

lemma unrolled16_then:
  "(case for_loop 16 (b - 16) (\<lambda>_. f ^^ 16) x s of
      (x', s') \<Rightarrow> (case for_loop 1 b (\<lambda>_. f) x' s' of (x'', s'') \<Rightarrow> K x'' s''))
     = K (max x b) ((f ^^ nat (b - x)) s)"
proof -
  have "(case for_loop 16 (b - 16) (\<lambda>_. f ^^ 16) x s of
      (x', s') \<Rightarrow> (case for_loop 1 b (\<lambda>_. f) x' s' of (x'', s'') \<Rightarrow> K x'' s''))
     = (case (case for_loop 16 (b - 16) (\<lambda>_. f ^^ nat 16) x s of
      (x', s') \<Rightarrow> for_loop 1 b (\<lambda>_. f) x' s') of (x'', s'') \<Rightarrow> K x'' s'')"
    by (simp split: prod.splits)
  also have "\<dots> = K (max x b) ((f ^^ nat (b - x)) s)"
    by (simp only: for_loop_unrolled [of 16] prod.case)
  finally show ?thesis .
qed

lemma boxBlur_row_unfold:
  "boxBlur_row src sys l r w dia border scale xs ys y d0 =
     (ZERO_ITER xs ^^ nat (l - r))
       ((RIGHT_BORDER_ITER src scale xs ^^ nat border)
         ((CENTER_ITER src scale xs ^^ nat (w - dia))
           ((TRIVIAL_ITER scale xs ^^ nat (dia - w))
             ((LEFT_BORDER_ITER src scale xs ^^ nat border)
               ((ZERO_ITER xs ^^ nat (r - l))
                  \<lparr>b_sum = 0, b_dptr = y * ys, b_right = y * sys, b_left = y * sys,
                   b_dst = d0\<rparr>)))))"
  unfolding boxBlur_row_def Let_def
  apply (simp only: unrolled16_then)
  apply (simp only: loop1_then)
  apply simp
  done

lemma rsum_add: "rsum src p (m + n) = rsum src p m + rsum src (p + int m) n"
  by (induction n) (simp_all add: add.assoc)


lemma ZERO_step [simp]:
  "b_sum (ZERO_ITER xs t) = b_sum t"
  "b_right (ZERO_ITER xs t) = b_right t"
  "b_left (ZERO_ITER xs t) = b_left t"
  "b_dptr (ZERO_ITER xs t) = b_dptr t + xs"
  "b_dst (ZERO_ITER xs t) = (b_dst t)(b_dptr t := 0)"
  by (simp_all add: ZERO_ITER_def)

lemma LEFT_step [simp]:
  "b_sum (LEFT_BORDER_ITER src scale xs t) = b_sum t + ucast (src (b_right t))"
  "b_right (LEFT_BORDER_ITER src scale xs t) = b_right t + 1"
  "b_left (LEFT_BORDER_ITER src scale xs t) = b_left t"
  "b_dptr (LEFT_BORDER_ITER src scale xs t) = b_dptr t + xs"
  "b_dst (LEFT_BORDER_ITER src scale xs t) =
     (b_dst t)(b_dptr t := box_px scale (b_sum t + ucast (src (b_right t))))"
  by (simp_all add: LEFT_BORDER_ITER_def Let_def box_px_def)

lemma TRIVIAL_step [simp]:
  "b_sum (TRIVIAL_ITER scale xs t) = b_sum t"
  "b_right (TRIVIAL_ITER scale xs t) = b_right t"
  "b_left (TRIVIAL_ITER scale xs t) = b_left t"
  "b_dptr (TRIVIAL_ITER scale xs t) = b_dptr t + xs"
  "b_dst (TRIVIAL_ITER scale xs t) = (b_dst t)(b_dptr t := box_px scale (b_sum t))"
  by (simp_all add: TRIVIAL_ITER_def box_px_def)

lemma CENTER_step [simp]:
  "b_sum (CENTER_ITER src scale xs t) =
     b_sum t + ucast (src (b_right t)) - ucast (src (b_left t))"
  "b_right (CENTER_ITER src scale xs t) = b_right t + 1"
  "b_left (CENTER_ITER src scale xs t) = b_left t + 1"
  "b_dptr (CENTER_ITER src scale xs t) = b_dptr t + xs"
  "b_dst (CENTER_ITER src scale xs t) =
     (b_dst t)(b_dptr t := box_px scale (b_sum t + ucast (src (b_right t))))"
  by (simp_all add: CENTER_ITER_def Let_def box_px_def)

lemma RIGHT_step [simp]:
  "b_sum (RIGHT_BORDER_ITER src scale xs t) = b_sum t - ucast (src (b_left t))"
  "b_right (RIGHT_BORDER_ITER src scale xs t) = b_right t"
  "b_left (RIGHT_BORDER_ITER src scale xs t) = b_left t + 1"
  "b_dptr (RIGHT_BORDER_ITER src scale xs t) = b_dptr t + xs"
  "b_dst (RIGHT_BORDER_ITER src scale xs t) = (b_dst t)(b_dptr t := box_px scale (b_sum t))"
  by (simp_all add: RIGHT_BORDER_ITER_def box_px_def)

lemma ZERO_pow:
  "b_sum ((ZERO_ITER xs ^^ n) s) = b_sum s"
  "b_right ((ZERO_ITER xs ^^ n) s) = b_right s"
  "b_left ((ZERO_ITER xs ^^ n) s) = b_left s"
  "b_dptr ((ZERO_ITER xs ^^ n) s) = b_dptr s + int n * xs"
  by (induction n) (simp_all add: distrib_right)

lemma ZERO_pow_dst:
  "b_dst ((ZERO_ITER xs ^^ n) s) = writes (b_dptr s) xs (\<lambda>_. 0) n (b_dst s)"
  by (induction n) (simp_all add: ZERO_pow)

lemma LEFT_pow:
  "b_right ((LEFT_BORDER_ITER src scale xs ^^ n) s) = b_right s + int n"
  "b_left ((LEFT_BORDER_ITER src scale xs ^^ n) s) = b_left s"
  "b_dptr ((LEFT_BORDER_ITER src scale xs ^^ n) s) = b_dptr s + int n * xs"
  by (induction n) (simp_all add: distrib_right)

lemma LEFT_pow_sum:
  "b_sum ((LEFT_BORDER_ITER src scale xs ^^ n) s) = b_sum s + rsum src (b_right s) n"
  by (induction n) (simp_all add: LEFT_pow)

lemma LEFT_pow_dst:
  "b_dst ((LEFT_BORDER_ITER src scale xs ^^ n) s) =
     writes (b_dptr s) xs (\<lambda>i. box_px scale (b_sum s + rsum src (b_right s) (Suc i))) n (b_dst s)"
  by (induction n) (simp_all add: LEFT_pow LEFT_pow_sum add.assoc)

lemma TRIVIAL_pow:
  "b_sum ((TRIVIAL_ITER scale xs ^^ n) s) = b_sum s"
  "b_right ((TRIVIAL_ITER scale xs ^^ n) s) = b_right s"
  "b_left ((TRIVIAL_ITER scale xs ^^ n) s) = b_left s"
  "b_dptr ((TRIVIAL_ITER scale xs ^^ n) s) = b_dptr s + int n * xs"
  by (induction n) (simp_all add: distrib_right)

lemma TRIVIAL_pow_dst:
  "b_dst ((TRIVIAL_ITER scale xs ^^ n) s) =
     writes (b_dptr s) xs (\<lambda>i. box_px scale (b_sum s)) n (b_dst s)"
  by (induction n) (simp_all add: TRIVIAL_pow)

lemma CENTER_pow:
  "b_right ((CENTER_ITER src scale xs ^^ n) s) = b_right s + int n"
  "b_left ((CENTER_ITER src scale xs ^^ n) s) = b_left s + int n"
  "b_dptr ((CENTER_ITER src scale xs ^^ n) s) = b_dptr s + int n * xs"
  by (induction n) (simp_all add: distrib_right)

lemma CENTER_pow_sum:
  "b_sum ((CENTER_ITER src scale xs ^^ n) s) =
     b_sum s + rsum src (b_right s) n - rsum src (b_left s) n"
  by (induction n) (simp_all add: CENTER_pow)

lemma CENTER_pow_dst:
  "b_dst ((CENTER_ITER src scale xs ^^ n) s) =
     writes (b_dptr s) xs
       (\<lambda>i. box_px scale (b_sum s + rsum src (b_right s) (Suc i) - rsum src (b_left s) i)) n
       (b_dst s)"
proof (induction n)
  case 0
  show ?case by simp
next
  case (Suc n)
  have e: "a + b - c + d = a + (b + d) - c" for a b c d :: u32
    by simp
  show ?case using Suc by (simp add: CENTER_pow CENTER_pow_sum e)
qed

lemma RIGHT_pow:
  "b_right ((RIGHT_BORDER_ITER src scale xs ^^ n) s) = b_right s"
  "b_left ((RIGHT_BORDER_ITER src scale xs ^^ n) s) = b_left s + int n"
  "b_dptr ((RIGHT_BORDER_ITER src scale xs ^^ n) s) = b_dptr s + int n * xs"
  by (induction n) (simp_all add: distrib_right)

lemma RIGHT_pow_sum:
  "b_sum ((RIGHT_BORDER_ITER src scale xs ^^ n) s) = b_sum s - rsum src (b_left s) n"
  by (induction n) (simp_all add: RIGHT_pow)

lemma RIGHT_pow_dst:
  "b_dst ((RIGHT_BORDER_ITER src scale xs ^^ n) s) =
     writes (b_dptr s) xs (\<lambda>i. box_px scale (b_sum s - rsum src (b_left s) i)) n (b_dst s)"
  by (induction n) (simp_all add: RIGHT_pow RIGHT_pow_sum)

lemma rsum_swap:
  "rsum src p m + rsum src (p + int m) n = rsum src p n + rsum src (p + int n) m"
  using rsum_add [of src p m n] rsum_add [of src p n m] by (simp add: add.commute)

lemma boxBlur_row_sum:
  "b_sum (boxBlur_row src sys l r w dia border scale xs ys y d0) = 0"
  using rsum_swap [of src "y * sys" "nat border" "nat (w - dia)"]
  by (simp add: boxBlur_row_unfold ZERO_pow RIGHT_pow RIGHT_pow_sum CENTER_pow CENTER_pow_sum
      TRIVIAL_pow LEFT_pow LEFT_pow_sum)

lemma boxBlurInterp_row_unfold:
  "boxBlurInterp_row src sys w dia border os is xs ys y d0 =
     (RIGHT_BORDER_ITER_interp src os is xs ^^ nat border)
       ((CENTER_ITER_interp src os is xs ^^ nat (w - dia))
         ((TRIVIAL_ITER_interp os is xs ^^ nat (dia - w))
           ((LEFT_BORDER_ITER_interp src os is xs ^^ nat border)
              \<lparr>i_outer_sum = 0, i_inner_sum = 0, i_dptr = y * ys, i_right = y * sys,
               i_left = y * sys, i_dst = d0\<rparr>)))"
  unfolding boxBlurInterp_row_def Let_def
  apply (simp only: unrolled16_then)
  apply (simp only: loop1_then)
  apply simp
  done

lemma LEFT_interp_step [simp]:
  "i_outer_sum (LEFT_BORDER_ITER_interp src os is xs t) = i_outer_sum t + ucast (src (i_right t))"
  "i_inner_sum (LEFT_BORDER_ITER_interp src os is xs t) = i_outer_sum t"
  "i_right (LEFT_BORDER_ITER_interp src os is xs t) = i_right t + 1"
  "i_left (LEFT_BORDER_ITER_interp src os is xs t) = i_left t"
  by (simp_all add: LEFT_BORDER_ITER_interp_def Let_def)

lemma TRIVIAL_interp_step [simp]:
  "i_outer_sum (TRIVIAL_ITER_interp os is xs t) = i_outer_sum t"
  "i_inner_sum (TRIVIAL_ITER_interp os is xs t) = i_inner_sum t"
  "i_right (TRIVIAL_ITER_interp os is xs t) = i_right t"
  "i_left (TRIVIAL_ITER_interp os is xs t) = i_left t"
  by (simp_all add: TRIVIAL_ITER_interp_def)

lemma CENTER_interp_step [simp]:
  "i_outer_sum (CENTER_ITER_interp src os is xs t) =
     i_outer_sum t + ucast (src (i_right t)) - ucast (src (i_left t))"
  "i_inner_sum (CENTER_ITER_interp src os is xs t) = i_outer_sum t - ucast (src (i_left t))"
  "i_right (CENTER_ITER_interp src os is xs t) = i_right t + 1"
  "i_left (CENTER_ITER_interp src os is xs t) = i_left t + 1"
  by (simp_all add: CENTER_ITER_interp_def Let_def)

lemma RIGHT_interp_step [simp]:
  "i_outer_sum (RIGHT_BORDER_ITER_interp src os is xs t) = i_outer_sum t - ucast (src (i_left t))"
  "i_inner_sum (RIGHT_BORDER_ITER_interp src os is xs t) = i_outer_sum t - ucast (src (i_left t))"
  "i_right (RIGHT_BORDER_ITER_interp src os is xs t) = i_right t"
  "i_left (RIGHT_BORDER_ITER_interp src os is xs t) = i_left t + 1"
  by (simp_all add: RIGHT_BORDER_ITER_interp_def Let_def)

lemma LEFT_interp_pow:
  "i_right ((LEFT_BORDER_ITER_interp src os is xs ^^ n) s) = i_right s + int n"
  "i_left ((LEFT_BORDER_ITER_interp src os is xs ^^ n) s) = i_left s"
  by (induction n) simp_all

lemma LEFT_interp_pow_outer:
  "i_outer_sum ((LEFT_BORDER_ITER_interp src os is xs ^^ n) s)
     = i_outer_sum s + rsum src (i_right s) n"
  by (induction n) (simp_all add: LEFT_interp_pow)

lemma LEFT_interp_pow_inner:
  "i_inner_sum ((LEFT_BORDER_ITER_interp src os is xs ^^ n) s)
     = (case n of 0 \<Rightarrow> i_inner_sum s | Suc m \<Rightarrow> i_outer_sum s + rsum src (i_right s) m)"
  by (cases n) (simp_all add: LEFT_interp_pow_outer)

lemma TRIVIAL_interp_pow:
  "i_outer_sum ((TRIVIAL_ITER_interp os is xs ^^ n) s) = i_outer_sum s"
  "i_inner_sum ((TRIVIAL_ITER_interp os is xs ^^ n) s) = i_inner_sum s"
  "i_right ((TRIVIAL_ITER_interp os is xs ^^ n) s) = i_right s"
  "i_left ((TRIVIAL_ITER_interp os is xs ^^ n) s) = i_left s"
  by (induction n) simp_all

lemma CENTER_interp_pow:
  "i_right ((CENTER_ITER_interp src os is xs ^^ n) s) = i_right s + int n"
  "i_left ((CENTER_ITER_interp src os is xs ^^ n) s) = i_left s + int n"
  by (induction n) simp_all

lemma CENTER_interp_pow_outer:
  "i_outer_sum ((CENTER_ITER_interp src os is xs ^^ n) s)
     = i_outer_sum s + rsum src (i_right s) n - rsum src (i_left s) n"
  by (induction n) (simp_all add: CENTER_interp_pow)

lemma RIGHT_interp_pow:
  "i_right ((RIGHT_BORDER_ITER_interp src os is xs ^^ n) s) = i_right s"
  "i_left ((RIGHT_BORDER_ITER_interp src os is xs ^^ n) s) = i_left s + int n"
  by (induction n) simp_all

lemma RIGHT_interp_pow_outer:
  "i_outer_sum ((RIGHT_BORDER_ITER_interp src os is xs ^^ n) s)
     = i_outer_sum s - rsum src (i_left s) n"
  by (induction n) (simp_all add: RIGHT_interp_pow)

lemma RIGHT_interp_pow_inner:
  "i_inner_sum ((RIGHT_BORDER_ITER_interp src os is xs ^^ n) s)
     = (case n of 0 \<Rightarrow> i_inner_sum s | Suc m \<Rightarrow> i_outer_sum s - rsum src (i_left s) n)"
  by (cases n) (simp_all add: RIGHT_interp_pow_outer RIGHT_interp_pow)

lemma boxBlurInterp_row_outer:
  "i_outer_sum (boxBlurInterp_row src sys w dia border os is xs ys y d0) = 0"
  using rsum_swap [of src "y * sys" "nat border" "nat (w - dia)"]
  by (simp add: boxBlurInterp_row_unfold RIGHT_interp_pow_outer CENTER_interp_pow
      CENTER_interp_pow_outer TRIVIAL_interp_pow LEFT_interp_pow LEFT_interp_pow_outer)

lemma boxBlurInterp_row_inner:
  assumes "0 < border \<or> w \<le> dia"
  shows "i_inner_sum (boxBlurInterp_row src sys w dia border os is xs ys y d0) = 0"
proof (cases "0 < border")
  case True
  then obtain m where m: "nat border = Suc m" by (cases "nat border") auto
  have "i_inner_sum (boxBlurInterp_row src sys w dia border os is xs ys y d0)
      = i_outer_sum (boxBlurInterp_row src sys w dia border os is xs ys y d0)"
    by (simp add: boxBlurInterp_row_unfold RIGHT_interp_pow_inner RIGHT_interp_pow_outer m)
  then show ?thesis by (simp add: boxBlurInterp_row_outer)
next
  case False
  with assms have "nat border = 0" "nat (w - dia) = 0" by simp_all
  then show ?thesis
    by (simp add: boxBlurInterp_row_unfold TRIVIAL_interp_pow)
qed




lemma isum_padded:
  assumes "0 \<le> w"
  shows "isum (padded src b w) lo n = rsum src b (clampw w (lo + int n)) - rsum src b (clampw w lo)"
proof (induction n)
  case 0
  show ?case by simp
next
  case (Suc n)
  show ?case
  proof (cases "0 \<le> lo + int n \<and> lo + int n < w")
    case True
    then have a: "clampw w (lo + int (Suc n)) = Suc (nat (lo + int n))"
      and b: "clampw w (lo + int n) = nat (lo + int n)"
      by (simp_all add: clampw_def max_def min_def) linarith+
    from True have c: "int (nat (lo + int n)) = lo + int n" by simp
    from True have pv: "padded src b w (lo + int n) = ucast (src (b + (lo + int n)))"
      by (simp add: padded_def)
    show ?thesis unfolding isum.simps Suc a b rsum.simps c pv by simp
  next
    case False
    then have a: "clampw w (lo + int (Suc n)) = clampw w (lo + int n)"
      using assms by (auto simp: clampw_def max_def min_def)
    from False have pv: "padded src b w (lo + int n) = 0"
      by (auto simp: padded_def)
    show ?thesis by (simp add: Suc a pv del: of_nat_Suc)
  qed
qed

lemma writes_lookup:
  assumes "st \<noteq> 0"
  shows "writes (d + int a * st) st v n m (d + int k * st)
           = (if a \<le> k \<and> k < a + n then v (k - a) else m (d + int k * st))"
proof (induction n)
  case 0
  show ?case by auto
next
  case (Suc n)
  have eq: "(d + int k * st = d + int a * st + int n * st) = (k = a + n)"
  proof -
    have "(d + int k * st = d + int a * st + int n * st) = (int k * st = int (a + n) * st)"
      by (simp add: distrib_right)
    also have "\<dots> = (int k = int (a + n))" using assms by simp
    also have "\<dots> = (k = a + n)" by (simp only: of_nat_eq_iff)
    finally show ?thesis .
  qed
  show ?case using Suc by (auto simp: eq)
qed

lemma writes_other:
  "(\<And>k. k < n \<Longrightarrow> p \<noteq> d + int k * st) \<Longrightarrow> writes d st v n m p = m p"
  by (induction n) auto

lemma add_strides: "d + int a * st + int b * st = d + int (a + b) * st"
  by (simp add: distrib_right)

lemma boxBlur_row_dst:
  fixes src sys l r w dia border scale xs ys y d0
  defines "b \<equiv> y * sys"
  defines "Z1 \<equiv> nat (r - l)" and "L \<equiv> nat border" and "T \<equiv> nat (dia - w)"
    and "C \<equiv> nat (w - dia)" and "Z2 \<equiv> nat (l - r)"
  shows "b_dst (boxBlur_row src sys l r w dia border scale xs ys y d0) =
     writes (y * ys + int (Z1 + L + T + C + L) * xs) xs (\<lambda>_. 0) Z2
      (writes (y * ys + int (Z1 + L + T + C) * xs) xs
         (\<lambda>i. box_px scale (rsum src b (L + C) - rsum src b (C + i))) L
       (writes (y * ys + int (Z1 + L + T) * xs) xs
          (\<lambda>i. box_px scale (rsum src b (L + Suc i) - rsum src b i)) C
        (writes (y * ys + int (Z1 + L) * xs) xs (\<lambda>i. box_px scale (rsum src b L)) T
         (writes (y * ys + int Z1 * xs) xs (\<lambda>i. box_px scale (rsum src b (Suc i))) L
          (writes (y * ys + int 0 * xs) xs (\<lambda>_. 0) Z1 d0)))))"
proof -
  have e1: "rsum src b L + rsum src (b + int L) (Suc i) - rsum src b i
           = rsum src b (L + Suc i) - rsum src b i" for i
    by (simp only: rsum_add)
  have e2: "rsum src b L + rsum src (b + int L) C - rsum src b C - rsum src (b + int C) i
           = rsum src b (L + C) - rsum src b (C + i)" for i
    by (simp only: rsum_add) simp
  show ?thesis
    unfolding boxBlur_row_unfold
    apply (simp only: ZERO_pow ZERO_pow_dst RIGHT_pow RIGHT_pow_sum RIGHT_pow_dst CENTER_pow
       CENTER_pow_sum CENTER_pow_dst TRIVIAL_pow TRIVIAL_pow_dst LEFT_pow LEFT_pow_sum LEFT_pow_dst
       box_row.simps add_strides)
    apply (simp only: b_def [symmetric] Z1_def [symmetric] L_def [symmetric] T_def [symmetric]
       C_def [symmetric] Z2_def [symmetric] add_0 e1 e2)
    apply simp
    done
qed

lemma box_window_rsum:
  assumes "0 \<le> w" "0 \<le> dia"
  shows "box_window src b w dia j
           = rsum src b (clampw w (j + 1)) - rsum src b (clampw w (j - dia))"
proof -
  have "j - dia + int (nat (dia + 1)) = j + 1" using assms by simp
  then show ?thesis by (simp only: box_window_def isum_padded [OF assms(1)])
qed

lemma boxBlur_row_at:
  assumes xs: "xs \<noteq> 0" and l: "0 \<le> l" and r: "0 \<le> r" and w: "0 \<le> w"
  shows "b_dst (boxBlur_row src sys l r w (l + r) (SkMin32 w (l + r)) scale xs ys y d0)
            (y * ys + int k * xs)
       = (if k < nat (r - l) then 0
          else if k < nat (r - l) + nat (w + l + r)
            then box_px scale (box_window src (y * sys) w (l + r) (int k - int (nat (r - l))))
          else if k < nat (w + 2 * max l r) then 0
          else d0 (y * ys + int k * xs))"
proof -
  define dia where "dia = l + r"
  define b where "b = y * sys"
  define Z1 where "Z1 = nat (r - l)"
  define L where "L = nat (SkMin32 w dia)"
  define T where "T = nat (dia - w)"
  define C where "C = nat (w - dia)"
  define Z2 where "Z2 = nat (l - r)"
  have dia: "0 \<le> dia" using l r by (simp add: dia_def)
  have lhs: "b_dst (boxBlur_row src sys l r w dia (SkMin32 w dia) scale xs ys y d0)
            (y * ys + int k * xs)
     = (if Z1 + L + T + C + L \<le> k \<and> k < Z1 + L + T + C + L + Z2 then 0
        else if Z1 + L + T + C \<le> k \<and> k < Z1 + L + T + C + L
          then box_px scale (rsum src b (L + C) - rsum src b (C + (k - (Z1 + L + T + C))))
        else if Z1 + L + T \<le> k \<and> k < Z1 + L + T + C
          then box_px scale (rsum src b (L + Suc (k - (Z1 + L + T))) - rsum src b (k - (Z1 + L + T)))
        else if Z1 + L \<le> k \<and> k < Z1 + L + T then box_px scale (rsum src b L)
        else if Z1 \<le> k \<and> k < Z1 + L then box_px scale (rsum src b (Suc (k - Z1)))
        else if 0 \<le> k \<and> k < 0 + Z1 then 0
        else d0 (y * ys + int k * xs))"
    by (simp only: boxBlur_row_dst writes_lookup [OF xs] b_def Z1_def L_def T_def C_def Z2_def)
  have win: "box_window src b w dia j
           = rsum src b (clampw w (j + 1)) - rsum src b (clampw w (j - dia))" for j
    by (rule box_window_rsum [OF w dia])
  have tot: "int (L + T + C + L) = w + dia" "int (Z1 + L + T + C + L + Z2) = w + 2 * max l r"
    using l r w by (auto simp: L_def T_def C_def Z1_def Z2_def dia_def SkMin32_def)
  have sizes: "nat (w + l + r) = L + T + C + L" "nat (w + 2 * max l r) = Z1 + L + T + C + L + Z2"
    using tot by (simp_all add: dia_def)
  consider (A) "k < Z1"
    | (B) "Z1 \<le> k" "k < Z1 + L"
    | (C) "Z1 + L \<le> k" "k < Z1 + L + T"
    | (D) "Z1 + L + T \<le> k" "k < Z1 + L + T + C"
    | (E) "Z1 + L + T + C \<le> k" "k < Z1 + L + T + C + L"
    | (F) "Z1 + L + T + C + L \<le> k" "k < Z1 + L + T + C + L + Z2"
    | (G) "Z1 + L + T + C + L + Z2 \<le> k"
    by linarith
  then have "(if Z1 + L + T + C + L \<le> k \<and> k < Z1 + L + T + C + L + Z2 then 0
        else if Z1 + L + T + C \<le> k \<and> k < Z1 + L + T + C + L
          then box_px scale (rsum src b (L + C) - rsum src b (C + (k - (Z1 + L + T + C))))
        else if Z1 + L + T \<le> k \<and> k < Z1 + L + T + C
          then box_px scale (rsum src b (L + Suc (k - (Z1 + L + T))) - rsum src b (k - (Z1 + L + T)))
        else if Z1 + L \<le> k \<and> k < Z1 + L + T then box_px scale (rsum src b L)
        else if Z1 \<le> k \<and> k < Z1 + L then box_px scale (rsum src b (Suc (k - Z1)))
        else if 0 \<le> k \<and> k < 0 + Z1 then 0
        else d0 (y * ys + int k * xs))
     = (if k < Z1 then 0
          else if k < Z1 + (L + T + C + L)
            then box_px scale (box_window src b w dia (int k - int Z1))
          else if k < Z1 + L + T + C + L + Z2 then 0
          else d0 (y * ys + int k * xs))"
  proof cases
    case A
    then show ?thesis by simp
  next
    case B
    have "clampw w (int k - int Z1 + 1) = Suc (k - Z1)" "clampw w (int k - int Z1 - dia) = 0"
      using B w dia by (auto simp: clampw_def L_def SkMin32_def split: if_splits)
    then show ?thesis using B by (simp add: win)
  next
    case C
    have "clampw w (int k - int Z1 + 1) = L" "clampw w (int k - int Z1 - dia) = 0"
      using C w dia by (auto simp: clampw_def L_def T_def SkMin32_def split: if_splits)
    then show ?thesis using C by (simp add: win)
  next
    case D
    have "clampw w (int k - int Z1 + 1) = L + Suc (k - (Z1 + L + T))"
      "clampw w (int k - int Z1 - dia) = k - (Z1 + L + T)"
      using D w dia by (auto simp: clampw_def L_def T_def C_def SkMin32_def split: if_splits)
    then show ?thesis using D by (simp add: win)
  next
    case E
    have "clampw w (int k - int Z1 + 1) = L + C"
      "clampw w (int k - int Z1 - dia) = C + (k - (Z1 + L + T + C))"
      using E w dia by (auto simp: clampw_def L_def T_def C_def SkMin32_def split: if_splits)
    then show ?thesis using E by (simp add: win)
  next
    case F
    then show ?thesis by simp
  next
    case G
    then show ?thesis by simp
  qed
  then show ?thesis
    using lhs by (simp only: dia_def [symmetric] sizes b_def [symmetric] Z1_def [symmetric])
qed

lemma boxBlur_row_frame:
  assumes l: "0 \<le> l" and r: "0 \<le> r" and w: "0 \<le> w"
    and p: "\<And>k. k < nat (w + 2 * max l r) \<Longrightarrow> p \<noteq> y * ys + int k * xs"
  shows "b_dst (boxBlur_row src sys l r w (l + r) (SkMin32 w (l + r)) scale xs ys y d0) p = d0 p"
proof -
  define dia where "dia = l + r"
  define Z1 where "Z1 = nat (r - l)"
  define L where "L = nat (SkMin32 w dia)"
  define T where "T = nat (dia - w)"
  define C where "C = nat (w - dia)"
  define Z2 where "Z2 = nat (l - r)"
  have tot: "int (Z1 + L + T + C + L + Z2) = w + 2 * max l r"
    using l r w by (auto simp: L_def T_def C_def Z1_def Z2_def dia_def SkMin32_def)
  then have N: "nat (w + 2 * max l r) = Z1 + L + T + C + L + Z2" by simp
  have q: "p \<noteq> y * ys + int a * xs + int k * xs" if "a + k < Z1 + L + T + C + L + Z2" for a k
    using p [of "a + k"] that by (simp add: N distrib_right)
  have wo: "writes (y * ys + int a * xs) xs v n m p = m p"
    if "a + n \<le> Z1 + L + T + C + L + Z2" for a n v m
  proof (rule writes_other)
    fix k assume "k < n"
    with that have "a + k < Z1 + L + T + C + L + Z2" by simp
    then show "p \<noteq> y * ys + int a * xs + int k * xs" by (rule q)
  qed
  have w6: "writes (y * ys + int (Z1 + L + T + C + L) * xs) xs v Z2 m p = m p" for v m
    by (rule wo) simp
  have w5: "writes (y * ys + int (Z1 + L + T + C) * xs) xs v L m p = m p" for v m
    by (rule wo) simp
  have w4: "writes (y * ys + int (Z1 + L + T) * xs) xs v C m p = m p" for v m
    by (rule wo) simp
  have w3: "writes (y * ys + int (Z1 + L) * xs) xs v T m p = m p" for v m
    by (rule wo) simp
  have w2: "writes (y * ys + int Z1 * xs) xs v L m p = m p" for v m
    by (rule wo) simp
  have w1: "writes (y * ys + int 0 * xs) xs v Z1 m p = m p" for v m
    by (rule wo) simp
  show ?thesis
    unfolding dia_def [symmetric]
    by (simp only: boxBlur_row_dst Z1_def [symmetric] L_def [symmetric] T_def [symmetric]
          C_def [symmetric] Z2_def [symmetric] w6 w5 w4 w3 w2 w1)
qed

lemma rows_shift: "rows body x (Suc n) s = rows body (x + 1) n (body x s)"
  by (induction n) (simp_all add: ac_simps)

lemma for_loop_rows: "for_loop 1 b body x s = (max x b, rows body x (nat (b - x)) s)"
proof (induction "nat (b - x)" arbitrary: x s)
  case 0
  then show ?case by (simp add: for_loop.simps [of 1 b _ x s] max_def)
next
  case (Suc n)
  then have lt: "x < b" and n: "n = nat (b - (x + 1))" by linarith+
  have step: "nat (b - x) = Suc (nat (b - (x + 1)))" using lt by linarith
  show ?case
    using Suc.hyps(1) [OF n, of "body x s"] lt
    by (simp only: for_loop.simps [of 1 b _ x s] step rows_shift) (simp add: max_def)
qed

lemma offsets_transposed:
  assumes "int y * 1 + int k * h = int y' * 1 + int k' * h" "int y < h" "int y' < h"
  shows "y = y'"
proof -
  have "(int y + int k * h) mod h = (int y' + int k' * h) mod h" using assms(1) by simp
  then have "int y mod h = int y' mod h" by simp
  then show ?thesis using assms(2,3) by simp
qed

lemma offsets_rows:
  assumes "int y * n + int k = int y' * n + int k'" "int k < n" "int k' < n"
  shows "y = y'"
proof -
  have "(int k + int y * n) mod n = (int k' + int y' * n) mod n"
    using assms(1) by (simp add: add.commute)
  then have "int k mod n = int k' mod n" by simp
  then have "k = k'" using assms(2,3) by simp
  then have "int y * n = int y' * n" using assms(1) by simp
  then show ?thesis using assms(2) by simp
qed

lemma boxBlur_rows_at:
  fixes scale :: u32
  assumes l: "0 \<le> l" and r: "0 \<le> r" and w: "0 \<le> w"
    and cfg: "(xs = h \<and> ys = 1) \<or> (xs = 1 \<and> ys = w + 2 * max l r)"
    and scale: "scale = word_of_int (2 ^ 24 sdiv (l + r + 1))"
    and n: "int n \<le> h" and y: "y < n" and k: "k < nat (w + 2 * max l r)"
  shows "rows (\<lambda>y d. b_dst (boxBlur_row src sys l r w (l + r) (SkMin32 w (l + r)) scale
                             xs ys y d)) 0 n dst (int y * ys + int k * xs)
           = boxBlur_columns src (int y * sys) w l r k"
  using n y
proof (induction n)
  case 0
  then show ?case by simp
next
  case (Suc n)
  have xs: "xs \<noteq> 0" using cfg Suc.prems by auto
  show ?case
  proof (cases "y = n")
    case True
    show ?thesis
      by (simp only: True rows.simps add_0 boxBlur_row_at [OF xs l r w] boxBlur_columns_def
            scale k if_True)
  next
    case False
    then have yn: "y < n" using Suc.prems by simp
    have "int y * ys + int k * xs \<noteq> int n * ys + int k' * xs"
      if "k' < nat (w + 2 * max l r)" for k'
    proof
      assume e: "int y * ys + int k * xs = int n * ys + int k' * xs"
      from cfg show False
      proof
        assume "xs = h \<and> ys = 1"
        then have "y = n"
          using offsets_transposed [of y k h n k'] e yn Suc.prems by simp
        then show False using False by simp
      next
        assume c: "xs = 1 \<and> ys = w + 2 * max l r"
        then have "y = n"
          using offsets_rows [of y "w + 2 * max l r" k n k'] e k that by simp
        then show False using False by simp
      qed
    qed
    then show ?thesis
      using Suc.IH yn Suc.prems by (simp add: boxBlur_row_frame [OF l r w])
  qed
qed

lemma boxBlur_new_width:
  "fst (boxBlur src sys dst l r w h tr) = w + 2 * max l r"
  by (simp add: boxBlur_def Let_def SkMax32_def max_def split: prod.splits)

lemma boxBlur_at:
  assumes l: "0 \<le> l" and r: "0 \<le> r" and w: "0 \<le> w"
    and y: "int y < h" and k: "k < nat (w + 2 * max l r)"
  shows "snd (boxBlur src sys dst l r w h tr)
           (int y * (if tr then 1 else w + 2 * max l r) + int k * (if tr then h else 1))
         = boxBlur_columns src (int y * sys) w l r k"
proof -
  have nw: "w + SkMax32 l r * 2 = w + 2 * max l r"
    by (simp add: SkMax32_def max_def)
  have h: "int (nat h) \<le> h" "y < nat h" using y by simp_all
  show ?thesis
    unfolding boxBlur_def Let_def nw
    by (simp only: for_loop_rows prod.case snd_conv diff_zero)
      (rule boxBlur_rows_at [OF l r w _ _ h k], auto)
qed


subsection \<open>Evaluation at numerals\<close>

lemma isum_numeral:
  "isum f p (numeral k) = isum f p (pred_numeral k) + f (p + int (pred_numeral k))"
  by (simp add: numeral_eq_Suc)

lemma rsum_numeral:
  "rsum src p (numeral k) = rsum src p (pred_numeral k) + ucast (src (p + int (pred_numeral k)))"
  by (simp add: numeral_eq_Suc)

lemma writes_numeral:
  "writes d st v (numeral k) m
     = (writes d st v (pred_numeral k) m)(d + int (pred_numeral k) * st := v (pred_numeral k))"
  by (simp add: numeral_eq_Suc)

lemma rows_numeral:
  "rows body x (numeral k) s = body (x + int (pred_numeral k)) (rows body x (pred_numeral k) s)"
  by (simp add: numeral_eq_Suc)

lemma funpow_numeral_apply:
  "(f ^^ numeral k) s = f ((f ^^ pred_numeral k) s)"
  by (simp add: numeral_eq_Suc)

lemmas eval_simps = isum_numeral rsum_numeral writes_numeral rows_numeral funpow_numeral_apply

section \<open>The summed-area table holds the prefix sums\<close>


lemma down_loop_1:
  "down_loop 1 lo (\<lambda>_. True) (\<lambda>_. f) x s = (min x (lo - 1), (f ^^ nat (x - lo + 1)) s)"
proof (induction "nat (x - lo + 1)" arbitrary: x s)
  case 0
  then show ?case by (simp add: down_loop.simps [of 1 lo _ _ x s] min_def)
next
  case (Suc n)
  then have ge: "lo \<le> x" and n: "n = nat (x - 1 - lo + 1)" by linarith+
  have step: "nat (x - lo + 1) = Suc (nat (x - 1 - lo + 1))" using ge by linarith
  show ?case
    using Suc.hyps(1) [OF n, of "f s"] ge
    by (simp add: down_loop.simps [of 1 lo _ _ x s] step funpow_swap1 min_def)
qed

lemma down_loop_cond:
  "\<exists>k. k \<le> nat (x - lo + 1) \<and> down_loop 1 lo cond (\<lambda>_. f) x s = (x - int k, (f ^^ k) s)"
proof (induction "nat (x - lo + 1)" arbitrary: x s)
  case 0
  then show ?case by (simp add: down_loop.simps [of 1 lo _ _ x s])
next
  case (Suc n)
  then have ge: "lo \<le> x" and n: "n = nat (x - 1 - lo + 1)" by linarith+
  show ?case
  proof (cases "cond s")
    case False
    then have "down_loop 1 lo cond (\<lambda>_. f) x s = (x - int 0, (f ^^ 0) s)"
      by (simp add: down_loop.simps [of 1 lo _ _ x s])
    then show ?thesis by blast
  next
    case True
    from Suc.hyps(1) [OF n, of "f s"] obtain k where
      k: "k \<le> nat (x - 1 - lo + 1)" "down_loop 1 lo cond (\<lambda>_. f) (x - 1) (f s)
          = (x - 1 - int k, (f ^^ k) (f s))" by blast
    have "down_loop 1 lo cond (\<lambda>_. f) x s = (x - int (Suc k), (f ^^ Suc k) s)"
      using True ge k(2) by (simp add: down_loop.simps [of 1 lo _ _ x s] funpow_swap1)
    moreover have "Suc k \<le> nat (x - lo + 1)" using k(1) ge by linarith
    ultimately show ?thesis by blast
  qed
qed

lemma down_loop_unrolled:
  assumes k: "0 < k"
  shows "(case down_loop k k (\<lambda>_. True) (\<lambda>_. f ^^ nat k) x s of
            (x', s') \<Rightarrow> down_loop 1 0 (\<lambda>_. True) (\<lambda>_. f) x' s')
           = (min x (- 1), (f ^^ nat (x + 1)) s)"
proof (induction "nat (x + 1)" arbitrary: x s rule: less_induct)
  case less
  show ?case
  proof (cases "k \<le> x")
    case True
    then have m: "nat (x - k + 1) < nat (x + 1)" using k by linarith
    have e: "nat (x + 1) = nat (x - k + 1) + nat k" using True k by linarith
    have mn: "min (x - k) (- 1) = min x (- 1)" using True k by linarith
    show ?thesis
      using less.hyps [OF m, of "(f ^^ nat k) s"] True k
      by (simp add: down_loop.simps [of k k _ _ x s] e funpow_add mn)
  next
    case False
    then show ?thesis
      using down_loop_1 [of 0 f x s] by (simp add: down_loop.simps [of k k _ _ x s])
  qed
qed

lemma sum_row_loops:
  "(case down_loop 1 0 cond (\<lambda>_. f) x s of
      (x1, s1) \<Rightarrow> (case down_loop 4 4 (\<lambda>_. True) (\<lambda>_. f ^^ 4) x1 s1 of
        (x2, s2) \<Rightarrow> (case down_loop 1 0 (\<lambda>_. True) (\<lambda>_. f) x2 s2 of (x3, s3) \<Rightarrow> K s3)))
     = K ((f ^^ nat (x + 1)) s)"
proof -
  obtain k where k: "k \<le> nat (x - 0 + 1)"
      "down_loop 1 0 cond (\<lambda>_. f) x s = (x - int k, (f ^^ k) s)"
    using down_loop_cond [of x 0 cond f s] by blast
  have u: "(case down_loop 4 4 (\<lambda>_. True) (\<lambda>_. f ^^ 4) x1 s1 of
        (x2, s2) \<Rightarrow> (case down_loop 1 0 (\<lambda>_. True) (\<lambda>_. f) x2 s2 of (x3, s3) \<Rightarrow> K s3))
      = K ((f ^^ nat (x1 + 1)) s1)" for x1 s1
    using down_loop_unrolled [of 4 f x1 s1] by (simp split: prod.splits)
  have "nat (x - int k + 1) + k = nat (x + 1)" using k(1) by linarith
  then have "(f ^^ nat (x - int k + 1)) ((f ^^ k) s) = (f ^^ nat (x + 1)) s"
    by (simp add: funpow_add [symmetric, unfolded o_def, THEN fun_cong] del: funpow.simps)
  then show ?thesis by (simp add: k(2) u)
qed



lemma first_column_step [simp]:
  "sb_sum (first_column t) = sb_sum t + 1"
  "sb_src (first_column t) = sb_src t"
  "sb_X (first_column t) = sb_X t"
  "sb_L (first_column t) = sb_L t"
  "sb_C (first_column t) = sb_C t"
  "sb_mem (first_column t) = (sb_mem t)(sb_sum t := 0)"
  by (simp_all add: first_column_def)

lemma first_row_iter_step [simp]:
  "sb_sum (first_row_iter src t) = sb_sum t + 1"
  "sb_src (first_row_iter src t) = sb_src t + 1"
  "sb_X (first_row_iter src t) = ucast (src (sb_src t)) + sb_X t"
  "sb_mem (first_row_iter src t) = (sb_mem t)(sb_sum t := ucast (src (sb_src t)) + sb_X t)"
  by (simp_all add: first_row_iter_def Let_def)

lemma sum_iter_step [simp]:
  "sb_sum (sum_iter src sumW t) = sb_sum t + 1"
  "sb_src (sum_iter src sumW t) = sb_src t + 1"
  "sb_L (sum_iter src sumW t)
     = ucast (src (sb_src t)) + sb_L t + sb_mem t (sb_sum t - sumW) - sb_C t"
  "sb_C (sum_iter src sumW t) = sb_mem t (sb_sum t - sumW)"
  "sb_mem (sum_iter src sumW t)
     = (sb_mem t)(sb_sum t :=
          ucast (src (sb_src t)) + sb_L t + sb_mem t (sb_sum t - sumW) - sb_C t)"
  by (simp_all add: sum_iter_def Let_def)

lemma prefix2_0 [simp]: "prefix2 src rb 0 j = 0"
  by (induction j) simp_all

lemma prefix2_Suc_col:
  "prefix2 src rb (Suc i) (Suc j) =
     ucast (src (int j * rb + int i)) + prefix2 src rb i (Suc j) + prefix2 src rb (Suc i) j
       - prefix2 src rb i j"
  by simp

lemma row_offsets:
  assumes "j \<le> J" "int i \<le> srcW"
  shows "int j * (srcW + 1) + int i < int (Suc J) * (srcW + 1)"
proof -
  have "0 \<le> srcW + 1" using assms(2) by linarith
  then have "int j * (srcW + 1) \<le> int J * (srcW + 1)"
    using assms(1) by (intro mult_right_mono) simp_all
  moreover have "int (Suc J) * (srcW + 1) = int J * (srcW + 1) + (srcW + 1)"
    by (simp add: distrib_right)
  ultimately show ?thesis using assms(2) by linarith
qed

lemma tab_ok_upd:
  assumes "tab_ok mem src rb srcW J" "int (Suc J) * (srcW + 1) \<le> p"
  shows "tab_ok (mem(p := v)) src rb srcW J"
  unfolding tab_ok_def
proof (intro allI impI)
  fix j i assume a: "j \<le> J \<and> int i \<le> srcW"
  then have "int j * (srcW + 1) + int i < int (Suc J) * (srcW + 1)"
    by (intro row_offsets) simp_all
  then have "int j * (srcW + 1) + int i \<noteq> p" using assms(2) by linarith
  then show "(mem(p := v)) (int j * (srcW + 1) + int i) = prefix2 src rb i j"
    using assms(1) a by (simp add: tab_ok_def)
qed

lemma sum_iter_inv:
  fixes s0 :: sum_buf
  assumes t0: "tab_ok (sb_mem s0) src rb srcW J"
    and z: "sb_mem s0 (int (Suc J) * (srcW + 1)) = 0"
    and p0: "sb_sum s0 = int (Suc J) * (srcW + 1) + 1"
    and r0: "sb_src s0 = int J * rb"
    and lc: "sb_L s0 = 0" "sb_C s0 = 0"
    and c: "int c \<le> srcW"
  shows "sb_sum ((sum_iter src (srcW + 1) ^^ c) s0) = int (Suc J) * (srcW + 1) + 1 + int c
       \<and> sb_src ((sum_iter src (srcW + 1) ^^ c) s0) = int J * rb + int c
       \<and> sb_L ((sum_iter src (srcW + 1) ^^ c) s0) = prefix2 src rb c (Suc J)
       \<and> sb_C ((sum_iter src (srcW + 1) ^^ c) s0) = prefix2 src rb c J
       \<and> tab_ok (sb_mem ((sum_iter src (srcW + 1) ^^ c) s0)) src rb srcW J
       \<and> (\<forall>i\<le>c. sb_mem ((sum_iter src (srcW + 1) ^^ c) s0) (int (Suc J) * (srcW + 1) + int i)
                    = prefix2 src rb i (Suc J))"
  using c
proof (induction c)
  case 0
  then show ?case using t0 z p0 r0 lc by simp
next
  case (Suc c)
  define t where "t = (sum_iter src (srcW + 1) ^^ c) s0"
  have c: "int c \<le> srcW" and c1: "int (Suc c) \<le> srcW" using Suc.prems by simp_all
  note ih = Suc.IH [OF c, folded t_def]
  have T: "sb_mem t (sb_sum t - (srcW + 1)) = prefix2 src rb (Suc c) J"
  proof -
    have "sb_sum t - (srcW + 1) = int J * (srcW + 1) + int (Suc c)"
      using ih by (simp add: distrib_right)
    then show ?thesis using ih c1 by (simp add: tab_ok_def del: of_nat_Suc)
  qed
  have X: "ucast (src (sb_src t)) + sb_L t + sb_mem t (sb_sum t - (srcW + 1)) - sb_C t
        = prefix2 src rb (Suc c) (Suc J)"
    unfolding T using ih by (simp only: prefix2_Suc_col)
  have ps: "sb_sum t = int (Suc J) * (srcW + 1) + int (Suc c)" using ih by simp
  have m: "sb_mem (sum_iter src (srcW + 1) t)
             = (sb_mem t)(sb_sum t := prefix2 src rb (Suc c) (Suc J))"
    by (simp only: sum_iter_step X)
  have g1: "sb_sum (sum_iter src (srcW + 1) t) = int (Suc J) * (srcW + 1) + 1 + int (Suc c)"
    using ps by simp
  have g2: "sb_src (sum_iter src (srcW + 1) t) = int J * rb + int (Suc c)"
    using ih by simp
  have g3: "sb_L (sum_iter src (srcW + 1) t) = prefix2 src rb (Suc c) (Suc J)"
    by (simp only: sum_iter_step X)
  have g4: "sb_C (sum_iter src (srcW + 1) t) = prefix2 src rb (Suc c) J"
    by (simp only: sum_iter_step T)
  have g5: "tab_ok (sb_mem (sum_iter src (srcW + 1) t)) src rb srcW J"
    unfolding m using ih by (intro tab_ok_upd) (simp_all del: of_nat_Suc)
  have g6: "\<forall>i\<le>Suc c. sb_mem (sum_iter src (srcW + 1) t)
                    (int (Suc J) * (srcW + 1) + int i) = prefix2 src rb i (Suc J)"
    unfolding m
  proof (intro allI impI)
    fix i assume "i \<le> Suc c"
    then consider "i = Suc c" | "i \<le> c" by linarith
    then show "((sb_mem t)(sb_sum t := prefix2 src rb (Suc c) (Suc J)))
                    (int (Suc J) * (srcW + 1) + int i) = prefix2 src rb i (Suc J)"
    proof cases
      case 1
      then show ?thesis by (simp only: ps fun_upd_same)
    next
      case 2
      then have "int (Suc J) * (srcW + 1) + int i \<noteq> sb_sum t" unfolding ps by simp
      then show ?thesis using ih 2 by (simp only: fun_upd_other) simp
    qed
  qed
  show ?case
    unfolding funpow.simps o_apply t_def [symmetric]
    using g1 g2 g3 g4 g5 g6 by blast
qed


lemma first_row_iter_inv:
  fixes s0 :: sum_buf
  assumes t0: "tab_ok (sb_mem s0) src rb srcW 0"
    and z: "sb_mem s0 (srcW + 1) = 0"
    and p0: "sb_sum s0 = srcW + 1 + 1"
    and r0: "sb_src s0 = 0"
    and x0: "sb_X s0 = 0"
    and c: "int c \<le> srcW"
  shows "sb_sum ((first_row_iter src ^^ c) s0) = srcW + 1 + 1 + int c
       \<and> sb_src ((first_row_iter src ^^ c) s0) = int c
       \<and> sb_X ((first_row_iter src ^^ c) s0) = rsum src 0 c
       \<and> tab_ok (sb_mem ((first_row_iter src ^^ c) s0)) src rb srcW 0
       \<and> (\<forall>i\<le>c. sb_mem ((first_row_iter src ^^ c) s0) (srcW + 1 + int i) = rsum src 0 i)"
  using c
proof (induction c)
  case 0
  then show ?case using t0 z p0 r0 x0 by simp
next
  case (Suc c)
  define t where "t = (first_row_iter src ^^ c) s0"
  have c: "int c \<le> srcW" using Suc.prems by simp
  note ih = Suc.IH [OF c, folded t_def]
  have X: "ucast (src (sb_src t)) + sb_X t = rsum src 0 (Suc c)"
    using ih by simp
  have ps: "sb_sum t = srcW + 1 + int (Suc c)" using ih by simp
  have m: "sb_mem (first_row_iter src t) = (sb_mem t)(sb_sum t := rsum src 0 (Suc c))"
    by (simp only: first_row_iter_step X)
  have g1: "sb_sum (first_row_iter src t) = srcW + 1 + 1 + int (Suc c)"
    using ps by simp
  have g2: "sb_src (first_row_iter src t) = int (Suc c)"
    using ih by simp
  have g3: "sb_X (first_row_iter src t) = rsum src 0 (Suc c)"
    by (simp only: first_row_iter_step X)
  have g5: "tab_ok (sb_mem (first_row_iter src t)) src rb srcW 0"
    unfolding m using ih by (intro tab_ok_upd) simp_all
  have g6: "\<forall>i\<le>Suc c. sb_mem (first_row_iter src t) (srcW + 1 + int i) = rsum src 0 i"
    unfolding m
  proof (intro allI impI)
    fix i assume "i \<le> Suc c"
    then consider "i = Suc c" | "i \<le> c" by linarith
    then show "((sb_mem t)(sb_sum t := rsum src 0 (Suc c))) (srcW + 1 + int i) = rsum src 0 i"
    proof cases
      case 1
      then show ?thesis by (simp only: ps fun_upd_same)
    next
      case 2
      then have "srcW + 1 + int i \<noteq> sb_sum t" unfolding ps by simp
      then show ?thesis using ih 2 by (simp only: fun_upd_other) simp
    qed
  qed
  show ?case
    unfolding funpow.simps o_apply t_def [symmetric]
    using g1 g2 g3 g5 g6 by blast
qed

lemma tab_ok_Suc:
  assumes "tab_ok mem src rb srcW J"
    and "\<And>i. int i \<le> srcW \<Longrightarrow> mem (int (Suc J) * (srcW + 1) + int i) = prefix2 src rb i (Suc J)"
  shows "tab_ok mem src rb srcW (Suc J)"
  unfolding tab_ok_def
proof (intro allI impI)
  fix j i assume a: "j \<le> Suc J \<and> int i \<le> srcW"
  then consider "j \<le> J" | "j = Suc J" by linarith
  then show "mem (int j * (srcW + 1) + int i) = prefix2 src rb i j"
  proof cases
    case 1
    then show ?thesis using assms(1) a by (simp add: tab_ok_def)
  next
    case 2
    then show ?thesis using assms(2) a by simp
  qed
qed

lemma sum_row_inv:
  assumes w: "0 \<le> srcW" and inv: "sum_inv src rb srcW J s"
  shows "sum_inv src rb srcW (Suc J) (sum_row aligned src (srcW + 1) srcW (rb - srcW) s)"
proof -
  define s0 where "s0 = first_column (s\<lparr>sb_L := 0, sb_C := 0\<rparr>)"
  define t where "t = (sum_iter src (srcW + 1) ^^ nat srcW) s0"
  have row: "sum_row aligned src (srcW + 1) srcW (rb - srcW) s
               = t\<lparr>sb_src := sb_src t + (rb - srcW)\<rparr>"
    unfolding sum_row_def Let_def
    by (simp only: sum_row_loops s0_def [symmetric]) (simp add: t_def)
  have ps: "sb_sum s = int (Suc J) * (srcW + 1)" and rs: "sb_src s = int J * rb"
    and tk: "tab_ok (sb_mem s) src rb srcW J"
    using inv by (simp_all add: sum_inv_def)
  have "tab_ok (sb_mem s0) src rb srcW J"
    unfolding s0_def using tk ps by (simp add: tab_ok_upd)
  moreover have "sb_mem s0 (int (Suc J) * (srcW + 1)) = 0" by (simp add: s0_def ps)
  moreover have "sb_sum s0 = int (Suc J) * (srcW + 1) + 1" by (simp add: s0_def ps)
  moreover have "sb_src s0 = int J * rb" by (simp add: s0_def rs)
  moreover have "sb_L s0 = 0" "sb_C s0 = 0" by (simp_all add: s0_def)
  moreover have "int (nat srcW) \<le> srcW" using w by simp
  ultimately have r: "sb_sum t = int (Suc J) * (srcW + 1) + 1 + int (nat srcW)"
    "sb_src t = int J * rb + int (nat srcW)"
    "tab_ok (sb_mem t) src rb srcW J"
    "\<forall>i\<le>nat srcW. sb_mem t (int (Suc J) * (srcW + 1) + int i)
                    = prefix2 src rb i (Suc J)"
    using sum_iter_inv [of s0 src rb srcW J "nat srcW"] unfolding t_def by blast+
  have "tab_ok (sb_mem t) src rb srcW (Suc J)"
    using r(3) r(4) by (intro tab_ok_Suc) auto
  moreover have "sb_sum t = int (Suc (Suc J)) * (srcW + 1)"
    using r(1) w by (simp add: distrib_right)
  moreover have "sb_src t + (rb - srcW) = int (Suc J) * rb"
    using r(2) w by (simp add: distrib_right)
  ultimately show ?thesis by (simp add: row sum_inv_def)
qed

lemma sum_rows_inv:
  assumes w: "0 \<le> srcW" and inv: "sum_inv src rb srcW J s"
  shows "sum_inv src rb srcW (J + n)
           ((sum_row aligned src (srcW + 1) srcW (rb - srcW) ^^ n) s)"
  by (induction n) (simp_all add: inv sum_row_inv [OF w])

lemma first_row_inv:
  fixes sbuf :: words and srcW :: int and src :: bytes
  assumes w: "0 \<le> srcW"
  defines "s0 \<equiv> first_column \<lparr>sb_sum = srcW + 1, sb_src = 0, sb_X = 0, sb_L = 0, sb_C = 0,
                                sb_mem = memset0 sbuf 0 (srcW + 1)\<rparr>"
  defines "t \<equiv> (first_row_iter src ^^ nat srcW) s0"
  shows "sum_inv src rb srcW 1 (t\<lparr>sb_src := sb_src t + (rb - srcW)\<rparr>)"
proof -
  have "tab_ok (memset0 sbuf 0 (srcW + 1)) src rb srcW 0"
    by (simp add: tab_ok_def memset0_def)
  then have "tab_ok (sb_mem s0) src rb srcW 0"
    unfolding s0_def using tab_ok_upd [of _ src rb srcW 0 "srcW + 1" 0] by simp
  moreover have "sb_mem s0 (srcW + 1) = 0" "sb_sum s0 = srcW + 1 + 1" "sb_src s0 = 0"
    "sb_X s0 = 0"
    by (simp_all add: s0_def)
  moreover have "int (nat srcW) \<le> srcW" using w by simp
  ultimately have r: "sb_sum t = srcW + 1 + 1 + int (nat srcW)"
    "sb_src t = int (nat srcW)"
    "tab_ok (sb_mem t) src rb srcW 0"
    "\<forall>i\<le>nat srcW. sb_mem t (srcW + 1 + int i) = rsum src 0 i"
    using first_row_iter_inv [of s0 src rb srcW "nat srcW"] unfolding t_def by blast+
  have "tab_ok (sb_mem t) src rb srcW (Suc 0)"
    using r(3) r(4) by (intro tab_ok_Suc) auto
  then show ?thesis using r(1) r(2) w by (simp add: sum_inv_def)
qed

lemma build_sum_buffer_inv:
  assumes w: "0 \<le> srcW"
  shows "tab_ok (build_sum_buffer aligned sbuf srcW srcH src rb) src rb srcW
           (1 + nat (srcH - 1))"
proof -
  have "sum_inv src rb srcW (1 + nat (srcH - 1))
          ((sum_row aligned src (srcW + 1) srcW (rb - srcW) ^^ nat (srcH - 1))
             (let t = (first_row_iter src ^^ nat srcW)
                        (first_column \<lparr>sb_sum = srcW + 1, sb_src = 0, sb_X = 0, sb_L = 0,
                            sb_C = 0, sb_mem = memset0 sbuf 0 (srcW + 1)\<rparr>)
              in t\<lparr>sb_src := sb_src t + (rb - srcW)\<rparr>))"
    unfolding Let_def by (intro sum_rows_inv [OF w] first_row_inv [OF w])
  then show ?thesis
    unfolding build_sum_buffer_def Let_def
    by (simp add: down_loop_1 sum_inv_def)
qed

lemma build_sum_buffer_at:
  assumes "0 \<le> srcW" "int i \<le> srcW" "int j \<le> srcH"
  shows "build_sum_buffer aligned sbuf srcW srcH src rb (int j * (srcW + 1) + int i)
           = prefix2 src rb i j"
proof -
  have "j \<le> 1 + nat (srcH - 1)" using assms(3) by linarith
  then show ?thesis
    using build_sum_buffer_inv [OF assms(1), of aligned sbuf srcH src rb] assms(2)
    by (simp add: tab_ok_def)
qed



lemma prefix2_rect: "prefix2 src rb i j = rect_sum src rb 0 i 0 j"
  by (induction j) simp_all

lemma inclusion_exclusion_aux:
  "prefix2 src rb (x0 + n) (y0 + m) + prefix2 src rb x0 y0
     - prefix2 src rb (x0 + n) y0 - prefix2 src rb x0 (y0 + m)
   = rect_sum src rb x0 n y0 m"
proof (induction m)
  case 0
  show ?case by simp
next
  case (Suc m)
  have "prefix2 src rb (x0 + n) (y0 + Suc m) + prefix2 src rb x0 y0
     - prefix2 src rb (x0 + n) y0 - prefix2 src rb x0 (y0 + Suc m)
     = (prefix2 src rb (x0 + n) (y0 + m) + prefix2 src rb x0 y0
        - prefix2 src rb (x0 + n) y0 - prefix2 src rb x0 (y0 + m))
       + (rsum src (int (y0 + m) * rb) (x0 + n) - rsum src (int (y0 + m) * rb) x0)"
    by simp
  also have "\<dots> = rect_sum src rb x0 n y0 m + rsum src (int (y0 + m) * rb + int x0) n"
    by (simp only: Suc rsum_add) simp
  finally show ?case by simp
qed

lemma inclusion_exclusion:
  assumes "x0 \<le> x1" "y0 \<le> y1"
  shows "prefix2 src rb x1 y1 + prefix2 src rb x0 y0 - prefix2 src rb x1 y0 - prefix2 src rb x0 y1
       = rect_sum src rb x0 (x1 - x0) y0 (y1 - y0)"
  using inclusion_exclusion_aux [of src rb x0 "x1 - x0" y0 "y1 - y0"] assms by simp

lemma rect_sum_numeral:
  "rect_sum src rb x0 n y0 (numeral k) =
     rect_sum src rb x0 n y0 (pred_numeral k) + rsum src (int (y0 + pred_numeral k) * rb + int x0) n"
  by (simp add: numeral_eq_Suc)

lemma prefix2_numeral:
  "prefix2 src rb i (numeral k) = prefix2 src rb i (pred_numeral k) + rsum src (int (pred_numeral k) * rb) i"
  by (simp add: numeral_eq_Suc)


subsection \<open>The sums as integers\<close>

lemma rsum_row_total: "rsum src p n = word_of_int (row_total src p n)"
  by (induction n) simp_all

lemma rect_sum_rect_total: "rect_sum src rb x0 n y0 m = word_of_int (rect_total src rb x0 n y0 m)"
  by (induction m) (simp_all add: rsum_row_total)

lemma uint_rect_sum: "uint (rect_sum src rb x0 n y0 m) = rect_total src rb x0 n y0 m mod 2 ^ 32"
  by (simp add: rect_sum_rect_total uint_word_of_int_eq take_bit_eq_mod)

lemma row_total_bounds: "0 \<le> row_total src p n \<and> row_total src p n \<le> 255 * int n"
proof (induction n)
  case 0
  show ?case by simp
next
  case (Suc n)
  have "0 \<le> uint (src (p + int n))" "uint (src (p + int n)) \<le> 255"
    using uint_bounded [of "src (p + int n)"] by simp_all
  then show ?case using Suc by simp
qed

lemma rect_total_bounds:
  "0 \<le> rect_total src rb x0 n y0 m \<and> rect_total src rb x0 n y0 m \<le> 255 * int n * int m"
proof (induction m)
  case 0
  show ?case by simp
next
  case (Suc m)
  note r = row_total_bounds [of src "int (y0 + m) * rb + int x0" n]
  have "rect_total src rb x0 n y0 (Suc m) \<le> 255 * int n * int m + 255 * int n"
    using Suc r by simp
  also have "\<dots> = 255 * int n * int (Suc m)" by (simp add: distrib_left)
  finally show ?case using Suc r by simp
qed

lemma row_total_const: "row_total (\<lambda>_. c) p n = uint c * int n"
  by (induction n) (simp_all add: distrib_left)

lemma rect_total_const: "rect_total (\<lambda>_. c) rb x0 n y0 m = uint c * int n * int m"
  by (induction m) (simp_all add: row_total_const distrib_left)

lemma row_total_numeral:
  "row_total src p (numeral k) = row_total src p (pred_numeral k) + uint (src (p + int (pred_numeral k)))"
  by (simp add: numeral_eq_Suc)

lemma rect_total_numeral:
  "rect_total src rb x0 n y0 (numeral k) =
     rect_total src rb x0 n y0 (pred_numeral k)
       + row_total src (int (y0 + pred_numeral k) * rb + int x0) n"
  by (simp add: numeral_eq_Suc)

section \<open>The kernel loops compute the clamped four-corner sample\<close>


lemma writes_append:
  "writes (d + int n1 * st) st v2 n2 (writes d st v1 n1 m)
     = writes d st (\<lambda>i. if i < n1 then v1 i else v2 (i - n1)) (n1 + n2) m"
proof (induction n2)
  case 0
  have "writes d st (\<lambda>i. if i < n1 then v1 i else v2 (i - n1)) n m = writes d st v1 n m"
    if "n \<le> n1" for n using that by (induction n) simp_all
  then show ?case by simp
next
  case (Suc n2)
  then show ?case by (simp add: distrib_right add.assoc)
qed

lemma writes_cong:
  "(\<And>i. i < n \<Longrightarrow> v i = v' i) \<Longrightarrow> writes d st v n m = writes d st v' n m"
  by (induction n) simp_all

lemma put_px_step [simp]:
  "k_dst (put_px scale tmp t) = k_dst t + 1"
  "k_mem (put_px scale tmp t) = (k_mem t)(k_dst t := SkToU8 (drop_bit 24 (tmp * scale)))"
  "k_prev_y (put_px scale tmp t) = k_prev_y t"
  "k_next_y (put_px scale tmp t) = k_next_y t"
  "k_prev_x (put_px scale tmp t) = k_prev_x t"
  "k_next_x (put_px scale tmp t) = k_next_x t"
  "k_i0 (put_px scale tmp t) = k_i0 t"
  "k_i1 (put_px scale tmp t) = k_i1 t"
  "k_i2 (put_px scale tmp t) = k_i2 t"
  "k_i3 (put_px scale tmp t) = k_i3 t"
  by (simp_all add: put_px_def)

lemma advance_x_step [simp]:
  "k_dst (advance_x n t) = k_dst t"
  "k_mem (advance_x n t) = k_mem t"
  "k_prev_y (advance_x n t) = k_prev_y t"
  "k_next_y (advance_x n t) = k_next_y t"
  "k_prev_x (advance_x n t) = k_prev_x t + n"
  "k_next_x (advance_x n t) = k_next_x t + n"
  "k_i0 (advance_x n t) = k_i0 t"
  "k_i1 (advance_x n t) = k_i1 t"
  "k_i2 (advance_x n t) = k_i2 t"
  "k_i3 (advance_x n t) = k_i3 t"
  by (simp_all add: advance_x_def)

lemma clamped_iter_step [simp]:
  "k_dst (clamped_iter sbuf scale sw py ny t) = k_dst t + 1"
  "k_mem (clamped_iter sbuf scale sw py ny t)
     = (k_mem t)(k_dst t := kpix sbuf scale (SkClampPos (k_prev_x t)) py
                              (SkFastMin32 (k_next_x t) sw) ny)"
  "k_prev_y (clamped_iter sbuf scale sw py ny t) = k_prev_y t"
  "k_next_y (clamped_iter sbuf scale sw py ny t) = k_next_y t"
  "k_prev_x (clamped_iter sbuf scale sw py ny t) = k_prev_x t + 1"
  "k_next_x (clamped_iter sbuf scale sw py ny t) = k_next_x t + 1"
  by (simp_all add: clamped_iter_def Let_def kpix_def)

lemma clamped_pow:
  "k_dst ((clamped_iter sbuf scale sw py ny ^^ n) s) = k_dst s + int n"
  "k_prev_y ((clamped_iter sbuf scale sw py ny ^^ n) s) = k_prev_y s"
  "k_next_y ((clamped_iter sbuf scale sw py ny ^^ n) s) = k_next_y s"
  "k_prev_x ((clamped_iter sbuf scale sw py ny ^^ n) s) = k_prev_x s + int n"
  "k_next_x ((clamped_iter sbuf scale sw py ny ^^ n) s) = k_next_x s + int n"
  by (induction n) simp_all

lemma clamped_pow_mem:
  "k_mem ((clamped_iter sbuf scale sw py ny ^^ n) s)
     = writes (k_dst s) 1
         (\<lambda>i. kpix sbuf scale (SkClampPos (k_prev_x s + int i)) py
                 (SkFastMin32 (k_next_x s + int i) sw) ny) n (k_mem s)"
  by (induction n) (simp_all add: clamped_pow)

lemma kernel_clamped_row_core:
  "kcore (kernel_clamped_row sbuf scale rx sw sh (sw + 1) (sw + 2 * rx) s)
     = krow_step sbuf scale rx sw sh (kcore s)"
  unfolding kernel_clamped_row_def Let_def
  by (simp only: loop1_then) (simp add: kcore_def krow_step_def clamped_pow clamped_pow_mem)


lemma left_iter_step [simp]:
  "k_dst (left_iter sbuf scale py ny t) = k_dst t + 1"
  "k_mem (left_iter sbuf scale py ny t)
     = (k_mem t)(k_dst t := kpix sbuf scale 0 py (k_next_x t) ny)"
  "k_prev_y (left_iter sbuf scale py ny t) = k_prev_y t"
  "k_next_y (left_iter sbuf scale py ny t) = k_next_y t"
  "k_prev_x (left_iter sbuf scale py ny t) = k_prev_x t + 1"
  "k_next_x (left_iter sbuf scale py ny t) = k_next_x t + 1"
  by (simp_all add: left_iter_def kpix_def)

lemma left_pow:
  "k_dst ((left_iter sbuf scale py ny ^^ n) s) = k_dst s + int n"
  "k_prev_y ((left_iter sbuf scale py ny ^^ n) s) = k_prev_y s"
  "k_next_y ((left_iter sbuf scale py ny ^^ n) s) = k_next_y s"
  "k_prev_x ((left_iter sbuf scale py ny ^^ n) s) = k_prev_x s + int n"
  "k_next_x ((left_iter sbuf scale py ny ^^ n) s) = k_next_x s + int n"
  by (induction n) simp_all

lemma left_pow_mem:
  "k_mem ((left_iter sbuf scale py ny ^^ n) s)
     = writes (k_dst s) 1 (\<lambda>i. kpix sbuf scale 0 py (k_next_x s + int i) ny) n (k_mem s)"
  by (induction n) (simp_all add: left_pow)

lemma right_iter_step [simp]:
  "k_dst (right_iter sbuf scale sw py ny t) = k_dst t + 1"
  "k_mem (right_iter sbuf scale sw py ny t)
     = (k_mem t)(k_dst t := kpix sbuf scale (k_prev_x t) py sw ny)"
  "k_prev_y (right_iter sbuf scale sw py ny t) = k_prev_y t"
  "k_next_y (right_iter sbuf scale sw py ny t) = k_next_y t"
  "k_prev_x (right_iter sbuf scale sw py ny t) = k_prev_x t + 1"
  "k_next_x (right_iter sbuf scale sw py ny t) = k_next_x t + 1"
  by (simp_all add: right_iter_def kpix_def)

lemma right_pow:
  "k_dst ((right_iter sbuf scale sw py ny ^^ n) s) = k_dst s + int n"
  "k_prev_y ((right_iter sbuf scale sw py ny ^^ n) s) = k_prev_y s"
  "k_next_y ((right_iter sbuf scale sw py ny ^^ n) s) = k_next_y s"
  "k_prev_x ((right_iter sbuf scale sw py ny ^^ n) s) = k_prev_x s + int n"
  by (induction n) simp_all

lemma right_pow_mem:
  "k_mem ((right_iter sbuf scale sw py ny ^^ n) s)
     = writes (k_dst s) 1 (\<lambda>i. kpix sbuf scale (k_prev_x s + int i) py sw ny) n (k_mem s)"
  by (induction n) (simp_all add: right_pow)

lemma center_px_step [simp]:
  "k_dst (center_px sbuf scale t) = k_dst t + 1"
  "k_mem (center_px sbuf scale t)
     = (k_mem t)(k_dst t := SkToU8 (drop_bit 24
          ((sbuf (k_i0 t) + sbuf (k_i1 t) - sbuf (k_i2 t) - sbuf (k_i3 t)) * scale)))"
  "k_prev_y (center_px sbuf scale t) = k_prev_y t"
  "k_next_y (center_px sbuf scale t) = k_next_y t"
  "k_prev_x (center_px sbuf scale t) = k_prev_x t"
  "k_next_x (center_px sbuf scale t) = k_next_x t"
  "k_i0 (center_px sbuf scale t) = k_i0 t + 1"
  "k_i1 (center_px sbuf scale t) = k_i1 t + 1"
  "k_i2 (center_px sbuf scale t) = k_i2 t + 1"
  "k_i3 (center_px sbuf scale t) = k_i3 t + 1"
  by (simp_all add: center_px_def Let_def)

lemma center_pow:
  "k_dst (((\<lambda>s. advance_x 1 (center_px sbuf scale s)) ^^ n) s) = k_dst s + int n"
  "k_prev_y (((\<lambda>s. advance_x 1 (center_px sbuf scale s)) ^^ n) s) = k_prev_y s"
  "k_next_y (((\<lambda>s. advance_x 1 (center_px sbuf scale s)) ^^ n) s) = k_next_y s"
  "k_prev_x (((\<lambda>s. advance_x 1 (center_px sbuf scale s)) ^^ n) s) = k_prev_x s + int n"
  "k_i0 (((\<lambda>s. advance_x 1 (center_px sbuf scale s)) ^^ n) s) = k_i0 s + int n"
  "k_i1 (((\<lambda>s. advance_x 1 (center_px sbuf scale s)) ^^ n) s) = k_i1 s + int n"
  "k_i2 (((\<lambda>s. advance_x 1 (center_px sbuf scale s)) ^^ n) s) = k_i2 s + int n"
  "k_i3 (((\<lambda>s. advance_x 1 (center_px sbuf scale s)) ^^ n) s) = k_i3 s + int n"
  by (induction n) simp_all

lemma center_pow_mem:
  "k_mem (((\<lambda>s. advance_x 1 (center_px sbuf scale s)) ^^ n) s)
     = writes (k_dst s) 1
         (\<lambda>i. SkToU8 (drop_bit 24
            ((sbuf (k_i0 s + int i) + sbuf (k_i1 s + int i) - sbuf (k_i2 s + int i)
               - sbuf (k_i3 s + int i)) * scale))) n (k_mem s)"
  by (induction n) (simp_all add: center_pow)

lemma center_px_advance:
  "center_px sbuf scale (advance_x n s) = advance_x n (center_px sbuf scale s)"
  by (simp add: center_px_def advance_x_def put_px_def Let_def)

lemma advance_x_add: "advance_x a (advance_x b s) = advance_x (a + b) s"
  by (simp add: advance_x_def)

lemma center_unrolled:
  "advance_x 4 ((center_px sbuf scale ^^ 4) s)
     = ((\<lambda>s. advance_x 1 (center_px sbuf scale s)) ^^ 4) s"
  by (simp add: funpow_numeral_apply center_px_advance advance_x_add)

lemma unrolled4_then:
  assumes "\<And>s. g s = (f ^^ 4) s"
  shows "(case for_loop 4 (b - 4) (\<lambda>_. g) x s of
      (x', s') \<Rightarrow> (case for_loop 1 b (\<lambda>_. f) x' s' of (x'', s'') \<Rightarrow> K x'' s''))
     = K (max x b) ((f ^^ nat (b - x)) s)"
proof -
  have g: "g = f ^^ nat 4" using assms by auto
  have "(case for_loop 4 (b - 4) (\<lambda>_. g) x s of
      (x', s') \<Rightarrow> (case for_loop 1 b (\<lambda>_. f) x' s' of (x'', s'') \<Rightarrow> K x'' s''))
     = (case (case for_loop 4 (b - 4) (\<lambda>_. f ^^ nat 4) x s of
      (x', s') \<Rightarrow> for_loop 1 b (\<lambda>_. f) x' s') of (x'', s'') \<Rightarrow> K x'' s'')"
    unfolding g by (simp split: prod.splits)
  also have "\<dots> = K (max x b) ((f ^^ nat (b - x)) s)"
    by (simp only: for_loop_unrolled [of 4] prod.case)
  finally show ?thesis .
qed

lemma apply_kernel_row_unfold:
  "apply_kernel_row unroll sbuf scale rx sw sh sumStride dw s =
     (let py = SkClampPos (k_prev_y s) * sumStride;
          ny = SkFastMin32 (k_next_y s) sh * sumStride;
          s1 = (left_iter sbuf scale py ny ^^ nat (2 * rx)) (s\<lparr>k_prev_x := - 2 * rx, k_next_x := 1\<rparr>);
          s2 = ((\<lambda>s. advance_x 1 (center_px sbuf scale s)) ^^ nat (dw - 2 * rx - max 0 (2 * rx)))
                 (s1\<lparr>k_i0 := k_prev_x s1 + py, k_i1 := k_next_x s1 + ny,
                     k_i2 := k_next_x s1 + py, k_i3 := k_prev_x s1 + ny\<rparr>);
          s3 = (right_iter sbuf scale sw py ny ^^ nat (dw - max (max 0 (2 * rx)) (dw - 2 * rx))) s2
      in s3\<lparr>k_prev_y := k_prev_y s3 + 1, k_next_y := k_next_y s3 + 1\<rparr>)"
proof (cases unroll)
  case True
  show ?thesis
    unfolding apply_kernel_row_def Let_def
    apply (simp only: True if_True)
    apply (simp only: unrolled4_then [OF center_unrolled])
    apply (simp only: loop1_then)
    apply simp
    done
next
  case False
  show ?thesis
    unfolding apply_kernel_row_def Let_def
    apply (simp only: False if_False loop1_then prod.case)
    apply simp
    done
qed


lemma writes_append1:
  "writes (d + int n1) 1 v2 n2 (writes d 1 v1 n1 m)
     = writes d 1 (\<lambda>i. if i < n1 then v1 i else v2 (i - n1)) (n1 + n2) m"
  using writes_append [of d n1 1 v2 n2 v1 m] by simp

lemma writes_append2:
  "writes (d + int a + int b) 1 v3 n3 (writes d 1 v (a + b) m)
     = writes d 1 (\<lambda>i. if i < a + b then v i else v3 (i - (a + b))) (a + b + n3) m"
  using writes_append1 [of d "a + b" v3 n3 v m] by (simp add: add.assoc)

lemma apply_kernel_row_core:
  assumes rx: "0 \<le> rx" and sw: "2 * rx \<le> sw"
  shows "kcore (apply_kernel_row unroll sbuf scale rx sw sh (sw + 1) (sw + 2 * rx) s)
           = krow_step sbuf scale rx sw sh (kcore s)"
proof -
  define py where "py = SkClampPos (k_prev_y s) * (sw + 1)"
  define ny where "ny = SkFastMin32 (k_next_y s) sh * (sw + 1)"
  define n1 where "n1 = nat (2 * rx)"
  define n2 where "n2 = nat (sw - 2 * rx)"
  have c1: "nat (sw + 2 * rx - 2 * rx - max 0 (2 * rx)) = n2"
    using rx by (simp add: n2_def max_def)
  have c2: "nat (sw + 2 * rx - max (max 0 (2 * rx)) (sw + 2 * rx - 2 * rx)) = n1"
    using rx sw by (simp add: n1_def max_def)
  have tot: "n1 + n2 + n1 = nat (sw + 2 * rx)" using rx sw by (simp add: n1_def n2_def)
  have i1: "int n1 = 2 * rx" and i2: "int n2 = sw - 2 * rx"
    using rx sw by (simp_all add: n1_def n2_def)
  define V where "V = (\<lambda>i. if i < n1 + n2
        then (if i < n1 then kpix sbuf scale 0 py (1 + int i) ny
              else SkToU8 (drop_bit 24
                ((sbuf (int n1 - 2 * rx + py + int (i - n1))
                  + sbuf (1 + int n1 + ny + int (i - n1))
                  - sbuf (1 + int n1 + py + int (i - n1))
                  - sbuf (int n1 - 2 * rx + ny + int (i - n1))) * scale)))
        else kpix sbuf scale (int n1 - 2 * rx + int n2 + int (i - (n1 + n2))) py sw ny)"
  have mem: "k_mem (apply_kernel_row unroll sbuf scale rx sw sh (sw + 1) (sw + 2 * rx) s)
        = writes (k_dst s) 1 V (n1 + n2 + n1) (k_mem s)"
    unfolding apply_kernel_row_unfold Let_def c1 c2 py_def [symmetric] ny_def [symmetric]
      n1_def [symmetric]
    by (simp add: right_pow_mem center_pow_mem center_pow left_pow left_pow_mem
          writes_append1 writes_append2 add.assoc [symmetric] V_def)
  have dst: "k_dst (apply_kernel_row unroll sbuf scale rx sw sh (sw + 1) (sw + 2 * rx) s)
        = k_dst s + int (n1 + n2 + n1)"
    unfolding apply_kernel_row_unfold Let_def c1 c2 n1_def [symmetric]
    by (simp add: right_pow center_pow left_pow)
  have ys: "k_prev_y (apply_kernel_row unroll sbuf scale rx sw sh (sw + 1) (sw + 2 * rx) s)
        = k_prev_y s + 1"
    "k_next_y (apply_kernel_row unroll sbuf scale rx sw sh (sw + 1) (sw + 2 * rx) s)
        = k_next_y s + 1"
    unfolding apply_kernel_row_unfold Let_def
    by (simp_all add: right_pow center_pow left_pow)
  have V: "V i = kpix sbuf scale (SkClampPos (- 2 * rx + int i)) py
                   (SkFastMin32 (1 + int i) sw) ny" if "i < n1 + n2 + n1" for i
  proof -
    consider "i < n1" | "n1 \<le> i" "i < n1 + n2" | "n1 + n2 \<le> i" by linarith
    then show ?thesis
    proof cases
      case 1
      then have "SkClampPos (- 2 * rx + int i) = 0" "SkFastMin32 (1 + int i) sw = 1 + int i"
        using i1 i2 by (auto simp: SkClampPos_def SkFastMin32_def)
      then show ?thesis using 1 by (simp add: V_def)
    next
      case 2
      then have a: "SkClampPos (int i - 2 * rx) = int i - int n1"
        "SkFastMin32 (1 + int i) sw = 1 + int i"
        using i1 i2 by (auto simp: SkClampPos_def SkFastMin32_def)
      have b: "int n1 - 2 * rx = 0" using i1 by simp
      show ?thesis
        using 2 by (simp add: V_def a b kpix_def four_corners_def add.commute add.left_commute)
    next
      case 3
      then have "SkClampPos (- 2 * rx + int i) = int n1 - 2 * rx + int n2 + int (i - (n1 + n2))"
        "SkFastMin32 (1 + int i) sw = sw"
        using i1 i2 that by (auto simp: SkClampPos_def SkFastMin32_def)
      then show ?thesis using 3 by (simp add: V_def)
    qed
  qed
  have "writes (k_dst s) 1 V (n1 + n2 + n1) (k_mem s)
      = writes (k_dst s) 1 (\<lambda>i. kpix sbuf scale (SkClampPos (- 2 * rx + int i)) py
                   (SkFastMin32 (1 + int i) sw) ny) (n1 + n2 + n1) (k_mem s)"
    by (rule writes_cong) (rule V)
  then show ?thesis
    unfolding kcore_def krow_step_def prod.case mem dst ys tot py_def ny_def by simp
qed


lemma kcore_pow:
  assumes "\<And>s. kcore (f s) = g (kcore s)"
  shows "kcore ((f ^^ n) s) = (g ^^ n) (kcore s)"
  by (induction n) (simp_all add: assms)

lemma kernel_clamped_rows_core:
  "kcore ((kernel_clamped_row sbuf scale rx sw sh (sw + 1) (sw + 2 * rx) ^^ n) s)
     = (krow_step sbuf scale rx sw sh ^^ n) (kcore s)"
  by (rule kcore_pow) (rule kernel_clamped_row_core)

lemma apply_kernel_rows_core:
  assumes "0 \<le> rx" "2 * rx \<le> sw"
  shows "kcore ((apply_kernel_row unroll sbuf scale rx sw sh (sw + 1) (sw + 2 * rx) ^^ n) s)
     = (krow_step sbuf scale rx sw sh ^^ n) (kcore s)"
  by (rule kcore_pow) (rule apply_kernel_row_core [OF assms])

lemma kernel_clamped_eq:
  "kernel_clamped dst rx ry sbuf sw sh
     = fst (snd ((krow_step sbuf (word_of_int (2 ^ 24 sdiv ((2 * rx + 1) * (2 * ry + 1)))) rx sw sh
                   ^^ nat (sh + 2 * ry)) (0, dst, - 2 * ry, 1)))"
proof -
  have "k_mem s = fst (snd (kcore s))" for s by (simp add: kcore_def)
  then show ?thesis
    unfolding kernel_clamped_def Let_def
    by (simp only: loop1_then kernel_clamped_rows_core)
       (simp add: kcore_def kern_init_def)
qed

lemma apply_kernel_eq:
  assumes "0 \<le> rx"
  shows "apply_kernel unroll dst rx ry sbuf sw sh
     = fst (snd ((krow_step sbuf (word_of_int (2 ^ 24 sdiv ((2 * rx + 1) * (2 * ry + 1)))) rx sw sh
                   ^^ nat (sh + 2 * ry)) (0, dst, - 2 * ry, 1)))"
proof (cases "2 * rx > sw")
  case True
  then show ?thesis by (simp add: apply_kernel_def kernel_clamped_eq)
next
  case False
  then have sw: "2 * rx \<le> sw" by simp
  have "k_mem s = fst (snd (kcore s))" for s by (simp add: kcore_def)
  then show ?thesis
    unfolding apply_kernel_def Let_def
    by (simp only: False if_False loop1_then apply_kernel_rows_core [OF assms sw])
       (simp add: kcore_def kern_init_def)
qed

lemma krow_steps:
  fixes W :: nat
  defines "V \<equiv> \<lambda>sbuf scale rx sw sh p0 q0 y x.
      kpix sbuf scale (SkClampPos (- 2 * rx + int x)) (SkClampPos (p0 + int y) * (sw + 1))
        (SkFastMin32 (1 + int x) sw) (SkFastMin32 (q0 + int y) sh * (sw + 1))"
  assumes W: "W = nat (sw + 2 * rx)"
  shows "\<exists>M. (krow_step sbuf scale rx sw sh ^^ n) (d0, mem0, p0, q0)
             = (d0 + int (n * W), M, p0 + int n, q0 + int n)
           \<and> (\<forall>y x. y < n \<and> x < W \<longrightarrow> M (d0 + int (y * W + x)) = V sbuf scale rx sw sh p0 q0 y x)"
proof (induction n)
  case 0
  show ?case by simp
next
  case (Suc n)
  then obtain M where M: "(krow_step sbuf scale rx sw sh ^^ n) (d0, mem0, p0, q0)
             = (d0 + int (n * W), M, p0 + int n, q0 + int n)"
    "\<And>y x. y < n \<Longrightarrow> x < W \<Longrightarrow> M (d0 + int (y * W + x)) = V sbuf scale rx sw sh p0 q0 y x"
    by blast
  define M' where "M' = writes (d0 + int (n * W)) 1 (V sbuf scale rx sw sh p0 q0 n) W M"
  have step: "(krow_step sbuf scale rx sw sh ^^ Suc n) (d0, mem0, p0, q0)
             = (d0 + int (Suc n * W), M', p0 + int (Suc n), q0 + int (Suc n))"
    by (simp add: M(1) krow_step_def M'_def V_def W [symmetric] add.assoc)
  have "M' (d0 + int (y * W + x)) = V sbuf scale rx sw sh p0 q0 y x" if "y < Suc n" "x < W" for y x
  proof (cases "y = n")
    case True
    have "M' (d0 + int (n * W) + int 0 * 1 + int x * 1) = V sbuf scale rx sw sh p0 q0 n x"
      unfolding M'_def
      using writes_lookup [of 1 "d0 + int (n * W)" 0 "V sbuf scale rx sw sh p0 q0 n" W M x] that(2)
      by simp
    then show ?thesis by (simp add: True add.assoc)
  next
    case False
    then have yn: "y < n" using that(1) by simp
    then have "Suc y * W \<le> n * W" by (intro mult_le_mono1) simp
    then have lt: "y * W + x < n * W" using that(2) by simp
    have "M' (d0 + int (y * W + x)) = M (d0 + int (y * W + x))"
      unfolding M'_def
    proof (rule writes_other)
      fix k assume "k < W"
      show "d0 + int (y * W + x) \<noteq> d0 + int (n * W) + int k * 1"
        using lt by linarith
    qed
    then show ?thesis using M(2) [OF yn that(2)] by simp
  qed
  then show ?case using step by blast
qed


lemma apply_kernel_at:
  assumes rx: "0 \<le> rx" and ry: "0 \<le> ry" and sw: "0 \<le> sw" and sh: "0 \<le> sh"
    and x: "int x < sw + 2 * rx" and y: "int y < sh + 2 * ry"
  shows "apply_kernel unroll dst rx ry sbuf sw sh (int y * (sw + 2 * rx) + int x)
           = kernel_pixel sbuf rx ry sw sh x y"
proof -
  define scale :: u32 where "scale = word_of_int (2 ^ 24 sdiv ((2 * rx + 1) * (2 * ry + 1)))"
  define W where "W = nat (sw + 2 * rx)"
  obtain M where M: "(krow_step sbuf scale rx sw sh ^^ nat (sh + 2 * ry)) (0, dst, - 2 * ry, 1)
             = (0 + int (nat (sh + 2 * ry) * W), M, - 2 * ry + int (nat (sh + 2 * ry)),
                1 + int (nat (sh + 2 * ry)))"
    "\<forall>y x. y < nat (sh + 2 * ry) \<and> x < W \<longrightarrow>
       M (0 + int (y * W + x))
         = kpix sbuf scale (SkClampPos (- 2 * rx + int x)) (SkClampPos (- 2 * ry + int y) * (sw + 1))
             (SkFastMin32 (1 + int x) sw) (SkFastMin32 (1 + int y) sh * (sw + 1))"
    using krow_steps [OF W_def, where sbuf = sbuf and scale = scale and sh = sh
        and n = "nat (sh + 2 * ry)" and ?d0.0 = 0 and ?mem0.0 = dst and ?p0.0 = "- 2 * ry"
        and ?q0.0 = 1]
    by blast
  have xy: "y < nat (sh + 2 * ry)" "x < W" using x y by (simp_all add: W_def)
  have off: "int (y * W + x) = int y * (sw + 2 * rx) + int x"
    using x by (simp add: W_def)
  have c: "SkClampPos (- 2 * rx + int x) = pin 0 sw (int x - 2 * rx)"
    "SkFastMin32 (1 + int x) sw = pin 0 sw (int x + 1)"
    "SkClampPos (- 2 * ry + int y) = pin 0 sh (int y - 2 * ry)"
    "SkFastMin32 (1 + int y) sh = pin 0 sh (int y + 1)"
    using x y sw sh by (auto simp: SkClampPos_def SkFastMin32_def pin_def)
  have "apply_kernel unroll dst rx ry sbuf sw sh (int y * (sw + 2 * rx) + int x)
      = M (0 + int (y * W + x))"
    by (simp only: apply_kernel_eq [OF rx] scale_def [symmetric] M(1) off) simp
  also have "\<dots> = kpix sbuf scale (pin 0 sw (int x - 2 * rx)) (pin 0 sh (int y - 2 * ry) * (sw + 1))
             (pin 0 sw (int x + 1)) (pin 0 sh (int y + 1) * (sw + 1))"
    using M(2) xy by (simp only: c)
  also have "\<dots> = kernel_pixel sbuf rx ry sw sh x y"
    by (simp add: kernel_pixel_def kpix_def four_corners_def Let_def scale_def add.commute)
  finally show ?thesis .
qed

lemma apply_kernel_is_kernel_clamped:
  assumes "0 \<le> rx"
  shows "apply_kernel unroll dst rx ry sbuf sw sh = kernel_clamped dst rx ry sbuf sw sh"
  by (simp only: apply_kernel_eq [OF assms] kernel_clamped_eq)

section \<open>What Blur returns\<close>


lemma int_to_u32_nonneg [simp]: "0 \<le> v \<Longrightarrow> int_to_u32 v = v"
  by (simp add: int_to_u32_def)

lemma Blur_unsupported:
  assumes "fFormat src \<noteq> kA8_Format \<or> Blur_rx ops radius quality \<le> 0"
  shows "Blur ops pf dst src radius style quality margin separable = (False, dst, margin, [])"
  using assms by (auto simp: Blur_def Let_def)

lemma Blur_supported:
  assumes "fFormat src = kA8_Format" "0 < Blur_rx ops radius quality"
  shows "Blur ops pf dst src radius style quality margin separable =
     (let pad = Blur_passCount ops radius quality * Blur_rx ops radius quality;
          d = Blur_dst ops dst src radius quality;
          r = (case fImage src of
                 None \<Rightarrow> (True, d, [])
               | Some sp \<Rightarrow> Blur_image ops pf d src sp radius style quality separable)
      in if \<not> fst r then (False, fst (snd r), margin_set margin pad, snd (snd r))
         else (True,
               (if style = kInner_Style
                then (fst (snd r))\<lparr>fBounds := fBounds src, fRowBytes := fRowBytes src\<rparr>
                else fst (snd r)),
               margin_set margin pad, snd (snd r)))"
  using assms
  by (cases "fImage src")
     (simp_all add: Blur_def Let_def Blur_dst_def Blur_bounds_def margin_set_def
        split: prod.splits)

lemma Blur_image_fst:
  "fst (Blur_image ops pf d src sp radius style quality separable) \<longleftrightarrow>
     \<not> (computeImageSize d = 0 \<or> (style = kInner_Style \<and> computeImageSize src = 0))"
  by (simp add: Blur_image_def Let_def)

lemma Blur_image_live:
  "snd (snd (Blur_image ops pf d src sp radius style quality separable)) =
     (if computeImageSize d = 0 \<or> (style = kInner_Style \<and> computeImageSize src = 0) then []
      else [if style = kInner_Style then Inner_image else Dst_image])"
  by (simp add: Blur_image_def Let_def)

lemma Blur_image_bounds:
  "fBounds (fst (snd (Blur_image ops pf d src sp radius style quality separable))) = fBounds d"
  "fRowBytes (fst (snd (Blur_image ops pf d src sp radius style quality separable))) = fRowBytes d"
  "fFormat (fst (snd (Blur_image ops pf d src sp radius style quality separable))) = fFormat d"
  by (simp_all add: Blur_image_def Let_def)

lemma Blur_dst_fields [simp]:
  "fBounds (Blur_dst ops dst src radius quality) = Blur_bounds ops src radius quality"
  "fRowBytes (Blur_dst ops dst src radius quality)
     = int_to_u32 (SkIRect_width (Blur_bounds ops src radius quality))"
  "fFormat (Blur_dst ops dst src radius quality) = kA8_Format"
  "fImage (Blur_dst ops dst src radius quality) = None"
  by (simp_all add: Blur_dst_def)

lemma Blur_fst:
  "fst (Blur ops pf dst src radius style quality margin separable) \<longleftrightarrow>
     \<not> (fFormat src \<noteq> kA8_Format \<or> Blur_rx ops radius quality \<le> 0
        \<or> (fImage src \<noteq> None
            \<and> (computeImageSize (Blur_dst ops dst src radius quality) = 0
               \<or> (style = kInner_Style \<and> computeImageSize src = 0))))"
proof (cases "fFormat src \<noteq> kA8_Format \<or> Blur_rx ops radius quality \<le> 0")
  case True
  then show ?thesis by (simp add: Blur_unsupported)
next
  case False
  then have ok: "fFormat src = kA8_Format" "0 < Blur_rx ops radius quality" by auto
  show ?thesis
  proof (cases "fImage src")
    case None
    then show ?thesis using ok by (simp add: Blur_supported [OF ok] Let_def)
  next
    case (Some sp)
    then show ?thesis
      using ok
      by (simp add: Blur_supported [OF ok] Let_def Blur_image_fst)
  qed
qed

lemma Blur_false_live:
  assumes "\<not> fst (Blur ops pf dst src radius style quality margin separable)"
  shows "snd (snd (snd (Blur ops pf dst src radius style quality margin separable))) = []"
proof (cases "fFormat src \<noteq> kA8_Format \<or> Blur_rx ops radius quality \<le> 0")
  case True
  then show ?thesis by (simp add: Blur_unsupported)
next
  case False
  then have ok: "fFormat src = kA8_Format" "0 < Blur_rx ops radius quality" by auto
  show ?thesis
  proof (cases "fImage src")
    case None
    then show ?thesis using assms ok by (simp add: Blur_supported [OF ok] Let_def)
  next
    case (Some sp)
    then show ?thesis
      using assms ok
      by (auto simp add: Blur_supported [OF ok] Let_def Blur_image_fst Blur_image_live
          split: if_splits)
  qed
qed


lemma Blur_margin:
  assumes "fFormat src = kA8_Format" "0 < Blur_rx ops radius quality"
  shows "fst (snd (snd (Blur ops pf dst src radius style quality margin separable)))
           = margin_set margin (Blur_passCount ops radius quality * Blur_rx ops radius quality)"
  by (simp add: Blur_supported [OF assms] Let_def)

lemma Blur_false_bounds:
  assumes "fFormat src = kA8_Format" "0 < Blur_rx ops radius quality"
    and "\<not> fst (Blur ops pf dst src radius style quality margin separable)"
  shows "fBounds (fst (snd (Blur ops pf dst src radius style quality margin separable)))
           = Blur_bounds ops src radius quality"
proof (cases "fImage src")
  case None
  then show ?thesis using assms(3) by (simp add: Blur_supported [OF assms(1,2)] Let_def)
next
  case (Some sp)
  then show ?thesis
    using assms(3)
    by (auto simp add: Blur_supported [OF assms(1,2)] Let_def Blur_image_bounds
          split: if_splits)
qed

lemma Blur_true_margin:
  assumes "fst (Blur ops pf dst src radius style quality margin separable)"
  shows "fst (snd (snd (Blur ops pf dst src radius style quality margin separable)))
           = margin_set margin (Blur_passCount ops radius quality * Blur_rx ops radius quality)"
proof -
  have ok: "fFormat src = kA8_Format" "0 < Blur_rx ops radius quality"
    using assms by (auto simp: Blur_fst)
  show ?thesis by (rule Blur_margin [OF ok])
qed

lemma exact_scalars_simps [simp]:
  "SkIntToScalar exact_scalars = of_int"
  "SkFloatToScalar exact_scalars = (\<lambda>q. q)"
  "SkScalarMul exact_scalars = (\<lambda>a b. a * b)"
  "SkScalarCeil exact_scalars = ceiling"
  "SkScalarRound exact_scalars = (\<lambda>x. \<lfloor>x + 1 / 2\<rfloor>)"
  "SkScalarRoundToInt exact_scalars = (\<lambda>x. \<lfloor>x + 1 / 2\<rfloor>)"
  "SkScalarFloorToInt exact_scalars = floor"
  "scalar_add exact_scalars = (\<lambda>a b. a + b)"
  "scalar_sub exact_scalars = (\<lambda>a b. a - b)"
  "scalar_less exact_scalars = (\<lambda>a b. a < b)"
  by (simp_all add: exact_scalars_def)

lemmas Blur_locals = Blur_rx_def Blur_passRadius_def Blur_quality_def Blur_passCount_def
  Blur_outerWeight_def kBlurRadiusFudgeFactor_def

text \<open>Floors and ceilings of rational numerals.\<close>

lemma floor_rat_numeral:
  "\<lfloor>numeral a / numeral b :: rat\<rfloor> = numeral a div numeral b"
  using floor_divide_of_int_eq [of "numeral a" "numeral b", where ?'a = rat] by simp

lemma floor_rat_neg_numeral:
  "\<lfloor>- (numeral a / numeral b) :: rat\<rfloor> = - numeral a div numeral b"
  using floor_divide_of_int_eq [of "- numeral a" "numeral b", where ?'a = rat] by simp

lemma ceiling_rat_numeral:
  "\<lceil>numeral a / numeral b :: rat\<rceil> = - (- numeral a div numeral b)"
  using ceiling_divide_eq_div [of "numeral a" "numeral b", where ?'a = rat] by simp

lemma ceiling_rat_neg_numeral:
  "\<lceil>- (numeral a / numeral b) :: rat\<rceil> = - (numeral a div numeral b)"
  using ceiling_divide_eq_div [of "- numeral a" "numeral b", where ?'a = rat] by simp

lemma floor_rat_one_numeral:
  "\<lfloor>1 / numeral b :: rat\<rfloor> = 1 div numeral b"
  using floor_divide_of_int_eq [of 1 "numeral b", where ?'a = rat] by simp

lemma ceiling_rat_one_numeral:
  "\<lceil>1 / numeral b :: rat\<rceil> = - (- 1 div numeral b)"
  using ceiling_divide_eq_div [of 1 "numeral b", where ?'a = rat] by simp

lemmas rat_rounding = floor_rat_numeral floor_rat_neg_numeral ceiling_rat_numeral
  ceiling_rat_neg_numeral floor_rat_one_numeral ceiling_rat_one_numeral








text \<open>\<open>Blur\<close> calls \<open>get_adjusted_radii\<close> only under \<open>if (outerWeight == 255)\<close>. There
  \<open>rx - passRadius < 1/510\<close>, so the test \<open>> 0.5\<close> fails and both radii are \<open>rx\<close>.\<close>

lemma get_adjusted_radii_equal:
  assumes "Blur_outerWeight exact_scalars radius quality = 255"
  shows "get_adjusted_radii exact_scalars (Blur_passRadius exact_scalars radius quality)
           = (Blur_rx exact_scalars radius quality, Blur_rx exact_scalars radius quality)"
proof -
  define pr where "pr = Blur_passRadius exact_scalars radius quality"
  define d where "d = of_int \<lceil>pr\<rceil> - pr"
  have "\<lfloor>d * 255 + 1 / 2\<rfloor> = 0"
    using assms by (simp add: Blur_outerWeight_def Blur_rx_def pr_def d_def)
  then have "d * 255 + 1 / 2 < 1" by (simp add: floor_eq_iff)
  then have "\<not> 1 / 2 < d" by simp
  then show ?thesis
    by (simp add: get_adjusted_radii_def Blur_rx_def Let_def pr_def d_def)
qed

subsection \<open>The blur of an opaque 4 by 4 mask with the radius 1\<close>

text \<open>The sum buffer of the opaque image holds \<open>255 * i * j\<close>; the window of the output
  column \<open>x\<close> covers 1, 2, 3, 3, 2, 1 source columns for \<open>x = 0, \<dots>, 5\<close>.\<close>

lemma Blur_opaque_result:
  "Blur exact_scalars pf dst
     \<lparr>fImage = Some img, fBounds = \<lparr>fLeft = l, fTop = t, fRight = l + 4, fBottom = t + 4\<rparr>,
      fRowBytes = 4, fFormat = kA8_Format\<rparr>
     1 kNormal_Style kLow_Quality (Some m) False
   = (True,
      \<lparr>fImage = Some (apply_kernel (UNROLL_KERNEL_LOOP pf) (fresh_bytes pf Dst_image) 1 1
                        (build_sum_buffer (SkIsAlign4 pf Src_image) (fresh_words pf Sum_storage)
                           4 4 img 4)
                        4 4),
       fBounds = \<lparr>fLeft = l - 1, fTop = t - 1, fRight = l + 5, fBottom = t + 5\<rparr>,
       fRowBytes = 6, fFormat = kA8_Format\<rparr>,
      Some (1, 1), [Dst_image])"
  by (cases dst)
     (simp add: Blur_def Blur_image_def Blur_locals computeImageSize_def sum_buffer_passes_def
        kernel_pass_def SkIRect_width_def SkIRect_height_def Let_def rat_rounding)

lemma ucast_255: "(ucast (255 :: u8) :: u32) = 255"
  by simp

lemma opaque_rsum:
  assumes "\<forall>i. 0 \<le> i \<and> i < 16 \<longrightarrow> img i = (255 :: u8)"
  shows "0 \<le> p \<Longrightarrow> p + int n \<le> 16 \<Longrightarrow> rsum img p n = 255 * of_nat n"
proof (induction n)
  case 0
  show ?case by simp
next
  case (Suc n)
  have a: "0 \<le> p + int n \<and> p + int n < 16" using Suc.prems by simp
  have b: "img (p + int n) = 255" using assms a by blast
  have "p + int n \<le> 16" using Suc.prems by simp
  then have c: "rsum img p n = 255 * of_nat n" using Suc.IH Suc.prems(1) by blast
  have d: "(of_nat (Suc n) :: u32) = of_nat n + 1" by simp
  show ?case unfolding rsum.simps b c d ucast_255 by (simp only: distrib_left mult_1_right)
qed

lemma opaque_prefix2:
  assumes "\<forall>i. 0 \<le> i \<and> i < 16 \<longrightarrow> img i = (255 :: u8)" and "i \<le> 4"
  shows "j \<le> 4 \<Longrightarrow> prefix2 img 4 i j = 255 * of_nat i * of_nat j"
proof (induction j)
  case 0
  show ?case by simp
next
  case (Suc j)
  have "0 \<le> int j * 4" "int j * 4 + int i \<le> 16" using Suc.prems assms(2) by simp_all
  then have b: "rsum img (int j * 4) i = 255 * of_nat i"
    by (rule opaque_rsum [OF assms(1)])
  have c: "prefix2 img 4 i j = 255 * of_nat i * of_nat j" using Suc by simp
  have d: "(of_nat (Suc j) :: u32) = of_nat j + 1" by simp
  show ?case unfolding prefix2.simps b c d by (simp only: distrib_left mult_1_right)
qed

lemma opaque_sum_buffer:
  assumes "\<forall>i. 0 \<le> i \<and> i < 16 \<longrightarrow> img i = (255 :: u8)" and "i \<le> 4" and "j \<le> 4"
  shows "build_sum_buffer aligned sbuf 4 4 img 4 (int j * 5 + int i) = 255 * of_nat i * of_nat j"
proof -
  have "build_sum_buffer aligned sbuf 4 4 img 4 (int j * (4 + 1) + int i) = prefix2 img 4 i j"
    using assms(2,3) by (intro build_sum_buffer_at) simp_all
  then show ?thesis using opaque_prefix2 [OF assms] by simp
qed

lemma opaque_sum_buffer_at:
  assumes "\<forall>i. 0 \<le> i \<and> i < 16 \<longrightarrow> img i = (255 :: u8)" and "0 \<le> p" and "p < 25"
  shows "build_sum_buffer aligned sbuf 4 4 img 4 p
           = 255 * of_nat (nat (p mod 5)) * of_nat (nat (p div 5))"
proof -
  have a: "0 \<le> p mod 5" "p mod 5 \<le> 4" "0 \<le> p div 5" "p div 5 \<le> 4"
    "p div 5 * 5 + p mod 5 = p"
    using assms(2,3) by presburger+
  then have "nat (p mod 5) \<le> 4" "nat (p div 5) \<le> 4" by simp_all
  from opaque_sum_buffer [OF assms(1) this, of aligned sbuf] a show ?thesis by simp
qed

lemma apply_kernel_at_offset:
  assumes "0 \<le> k" and "k < 36"
  shows "apply_kernel unroll dst 1 1 sbuf 4 4 k
           = kernel_pixel sbuf 1 1 4 4 (nat (k mod 6)) (nat (k div 6))"
proof -
  have a: "0 \<le> k mod 6" "k mod 6 < 6" "0 \<le> k div 6" "k div 6 < 6"
    "k div 6 * 6 + k mod 6 = k"
    using assms by presburger+
  have "apply_kernel unroll dst 1 1 sbuf 4 4
          (int (nat (k div 6)) * (4 + 2 * 1) + int (nat (k mod 6)))
        = kernel_pixel sbuf 1 1 4 4 (nat (k mod 6)) (nat (k div 6))"
    using a by (intro apply_kernel_at) simp_all
  then show ?thesis using a by simp
qed

lemma upto_0_numeral: "[0..numeral n] = 0 # 1 # [2..numeral n]"
  by (simp add: upto_rec1 [of 0] upto_rec1 [of 1])

lemma opaque_blur_pixels:
  assumes "\<forall>i. 0 \<le> i \<and> i < 16 \<longrightarrow> img i = (255 :: u8)"
  shows "map (apply_kernel unroll dst 1 1 (build_sum_buffer aligned sbuf 4 4 img 4) 4 4) [0..35]
           = [28, 56, 84, 84, 56, 28,
              56, 113, 169, 169, 113, 56,
              84, 169, 254, 254, 169, 84,
              84, 169, 254, 254, 169, 84,
              56, 113, 169, 169, 113, 56,
              28, 56, 84, 84, 56, 28]"
  by (simp add: upto_0_numeral upto_rec_numeral apply_kernel_at_offset kernel_pixel_def pin_def
        Let_def SkToU8_def opaque_sum_buffer_at [OF assms])


lemma BlurSeparable_opaque_result:
  "BlurSeparable exact_scalars pf dst
     \<lparr>fImage = Some img, fBounds = \<lparr>fLeft = l, fTop = t, fRight = l + 4, fBottom = t + 4\<rparr>,
      fRowBytes = 4, fFormat = kA8_Format\<rparr>
     1 kNormal_Style kLow_Quality (Some m)
   = (True,
      \<lparr>fImage = Some (snd (boxBlur (snd (boxBlur img 4 (fresh_bytes pf Tmp_buffer) 1 1 4 4 True))
                               4 (fresh_bytes pf Dst_image) 1 1 4 6 True)),
       fBounds = \<lparr>fLeft = l - 1, fTop = t - 1, fRight = l + 5, fBottom = t + 5\<rparr>,
       fRowBytes = 6, fFormat = kA8_Format\<rparr>,
      Some (1, 1), [Dst_image])"
  by (cases dst)
     (simp add: BlurSeparable_def Blur_def Blur_image_def Blur_locals computeImageSize_def
        separable_passes_def boxBlur_new_width
        SkIRect_width_def SkIRect_height_def Let_def rat_rounding case_prod_beta)

lemma boxBlur_transposed_at_offset:
  assumes "0 \<le> p" and "p < 4 * 6"
  shows "snd (boxBlur src 4 dst 1 1 4 4 True) p
           = boxBlur_columns src (p mod 4 * 4) 4 1 1 (nat (p div 4))"
proof -
  have a: "0 \<le> p mod 4" "p mod 4 < 4" "0 \<le> p div 4" "p div 4 < 6"
    "p mod 4 + p div 4 * 4 = p"
    using assms by presburger+
  have "snd (boxBlur src 4 dst 1 1 4 4 True)
          (int (nat (p mod 4)) * (if True then 1 else 4 + 2 * max 1 1)
           + int (nat (p div 4)) * (if True then 4 else 1))
        = boxBlur_columns src (int (nat (p mod 4)) * 4) 4 1 1 (nat (p div 4))"
    using a by (intro boxBlur_at) simp_all
  then show ?thesis using a by simp
qed

lemma boxBlur_transposed_at_offset2:
  assumes "0 \<le> p" and "p < 6 * 6"
  shows "snd (boxBlur src 4 dst 1 1 4 6 True) p
           = boxBlur_columns src (p mod 6 * 4) 4 1 1 (nat (p div 6))"
proof -
  have a: "0 \<le> p mod 6" "p mod 6 < 6" "0 \<le> p div 6" "p div 6 < 6"
    "p mod 6 + p div 6 * 6 = p"
    using assms by presburger+
  have "snd (boxBlur src 4 dst 1 1 4 6 True)
          (int (nat (p mod 6)) * (if True then 1 else 4 + 2 * max 1 1)
           + int (nat (p div 6)) * (if True then 6 else 1))
        = boxBlur_columns src (int (nat (p mod 6)) * 4) 4 1 1 (nat (p div 6))"
    using a by (intro boxBlur_at) simp_all
  then show ?thesis using a by simp
qed

lemma opaque_separable_pixels:
  assumes "\<forall>i. 0 \<le> i \<and> i < 16 \<longrightarrow> img i = (255 :: u8)"
  shows "map (snd (boxBlur (snd (boxBlur img 4 tp 1 1 4 4 True)) 4 dp 1 1 4 6 True)) [0..35]
           = [28, 57, 85, 85, 57, 28,
              57, 113, 170, 170, 113, 57,
              85, 170, 255, 255, 170, 85,
              85, 170, 255, 255, 170, 85,
              57, 113, 170, 170, 113, 57,
              28, 57, 85, 85, 57, 28]"
  using assms
  by (simp add: upto_0_numeral upto_rec_numeral boxBlur_transposed_at_offset
        boxBlur_transposed_at_offset2 boxBlur_columns_def box_window_def padded_def box_px_def
        half_def eval_simps)


lemma replicate_numeral_unfold:
  "replicate (numeral k) x = x # replicate (pred_numeral k) x"
  by (simp add: numeral_eq_Suc)

lemma opaque_bytes:
  assumes "map img [0..15] = replicate 16 (255 :: u8)"
  shows "\<forall>i. 0 \<le> i \<and> i < 16 \<longrightarrow> img i = 255"
proof (intro allI impI)
  fix i :: int
  assume "0 \<le> i \<and> i < 16"
  then have "i \<in> set [0..15]" by simp
  then have "img i \<in> set (map img [0..15])" by (simp only: set_map) (rule imageI)
  then show "img i = 255" unfolding assms by simp
qed

section \<open>The laws of the style post-processing\<close>


lemma byte_range: "0 \<le> uint (b :: u8) \<and> uint b \<le> 255"
  using uint_bounded [of b] by simp

lemma SkToU8_value:
  assumes "0 \<le> v" and "v \<le> 255"
  shows "uint (SkToU8 (word_of_int v)) = v"
proof -
  have "uint (SkToU8 (word_of_int v)) = take_bit 8 (take_bit 32 v)"
    by (simp add: SkToU8_def unsigned_ucast_eq uint_word_of_int_eq)
  also have "\<dots> = take_bit 8 v" by simp
  also have "\<dots> = v" using assms by (simp add: take_bit_int_eq_self)
  finally show ?thesis .
qed

lemma div255_round_aux:
  fixes p :: int
  assumes "0 \<le> p" and "p \<le> 65025"
  shows "(p + 128 + (p + 128) div 256) div 256 = (2 * p + 255) div 510"
proof -
  define q where "q = (p + 128) div 256"
  define r where "r = (p + 128) mod 256"
  have t: "p + 128 = 256 * q + r" and r: "0 \<le> r" "r < 256"
    by (simp_all add: q_def r_def)
  have q: "0 \<le> q" "q \<le> 254" using assms by (simp_all add: q_def)
  have q0: "1 \<le> q + r" using t assms(1) q r by linarith
  define m where "m = (p + 128 + q) div 256"
  have m: "m = (if r + q < 256 then q else q + 1)"
  proof (cases "r + q < 256")
    case True
    have "p + 128 + q = q * 256 + (r + q)" using t by simp
    then have "m = q + (r + q) div 256" unfolding m_def by simp
    then show ?thesis using True r q by simp
  next
    case False
    have "p + 128 + q = (q + 1) * 256 + (r + q - 256)" using t by simp
    then have "m = q + 1 + (r + q - 256) div 256" unfolding m_def
      by (simp only: div_mult_self3)
    moreover have "(r + q - 256) div 256 = 0" using False r q by simp
    ultimately show ?thesis using False by simp
  qed
  have lo: "510 * m \<le> 2 * p + 255" using m t r q q0 by (auto split: if_splits)
  have hi: "2 * p + 255 < 510 * (m + 1)" using m t r q by (auto split: if_splits)
  define e where "e = 2 * p + 255 - 510 * m"
  have e: "0 \<le> e" "e < 510" using lo hi by (simp_all add: e_def)
  have "2 * p + 255 = m * 510 + e" by (simp add: e_def)
  then have "(2 * p + 255) div 510 = m + e div 510" by simp
  then have "(2 * p + 255) div 510 = m" using e by simp
  then show ?thesis by (simp add: m_def q_def)
qed


lemma solid_px_style: "solid_px src = style_px (\<lambda>p q d. solid_value (src p) d) 0"
  by (rule ext) (simp add: solid_px_def style_px_def solid_value_def Let_def)

lemma outer_px_style: "outer_px src = style_px (\<lambda>p q d. outer_value (src p) d) 0"
  by (rule ext) (simp add: outer_px_def style_px_def outer_value_def Let_def)

lemma merge_px_style: "merge_px src blur = style_px (\<lambda>p q d. inner_value (src p) (blur q)) 1"
  by (rule ext) (simp add: merge_px_def style_px_def inner_value_def Let_def)

lemma style_px_pow_ptrs:
  "st_dst ((style_px g b ^^ n) st) = st_dst st + int n
   \<and> st_src ((style_px g b ^^ n) st) = st_src st + int n
   \<and> st_blur ((style_px g b ^^ n) st) = st_blur st + b * int n"
  by (induction n) (simp_all add: style_px_def distrib_left)

lemma style_px_pow_mem:
  "st_mem ((style_px g b ^^ n) st) p
     = (if st_dst st \<le> p \<and> p < st_dst st + int n
        then g (st_src st + (p - st_dst st)) (st_blur st + b * (p - st_dst st)) (st_mem st p)
        else st_mem st p)"
proof (induction n)
  case 0
  show ?case by auto
next
  case (Suc n)
  note ptrs = style_px_pow_ptrs [where g = g and b = b and n = n and st = st]
  have "st_mem ((style_px g b ^^ Suc n) st) p
        = (if p = st_dst st + int n
           then g (st_src st + int n) (st_blur st + b * int n)
                  (st_mem ((style_px g b ^^ n) st) p)
           else st_mem ((style_px g b ^^ n) st) p)"
    by (simp add: style_px_def ptrs)
  then show ?case using Suc by auto
qed

lemma style_row_ptrs:
  assumes "0 \<le> sw"
  shows "st_dst (style_row g b sw rd rs rb st) = st_dst st + sw + rd
       \<and> st_src (style_row g b sw rd rs rb st) = st_src st + sw + rs
       \<and> st_blur (style_row g b sw rd rs rb st) = st_blur st + b * sw + rb"
  using assms by (simp add: style_row_def Let_def style_px_pow_ptrs)

lemma style_row_mem:
  assumes "0 \<le> sw"
  shows "st_mem (style_row g b sw rd rs rb st) p
     = (if st_dst st \<le> p \<and> p < st_dst st + sw
        then g (st_src st + (p - st_dst st)) (st_blur st + b * (p - st_dst st)) (st_mem st p)
        else st_mem st p)"
  using assms by (simp add: style_row_def Let_def style_px_pow_mem)

lemma style_rows_ptrs:
  assumes "0 \<le> sw"
  shows "st_dst ((style_row g b sw (dRB - sw) (sRB - sw) rb ^^ J) st) = st_dst st + int J * dRB
       \<and> st_src ((style_row g b sw (dRB - sw) (sRB - sw) rb ^^ J) st) = st_src st + int J * sRB
       \<and> st_blur ((style_row g b sw (dRB - sw) (sRB - sw) rb ^^ J) st)
           = st_blur st + int J * (b * sw + rb)"
  by (induction J) (simp_all add: style_row_ptrs [OF assms] distrib_right)

lemma style_rows_mem:
  assumes sw: "0 \<le> sw" "sw \<le> dRB"
  shows "(\<forall>p. st_dst st + int J * dRB \<le> p \<longrightarrow>
            st_mem ((style_row g b sw (dRB - sw) (sRB - sw) rb ^^ J) st) p = st_mem st p)
       \<and> (\<forall>y x. y < J \<and> int x < sw \<longrightarrow>
            st_mem ((style_row g b sw (dRB - sw) (sRB - sw) rb ^^ J) st)
              (st_dst st + int y * dRB + int x)
            = g (st_src st + int y * sRB + int x) (st_blur st + int y * (b * sw + rb) + b * int x)
                (st_mem st (st_dst st + int y * dRB + int x)))"
proof (induction J)
  case 0
  show ?case by simp
next
  case (Suc J)
  let ?R = "style_row g b sw (dRB - sw) (sRB - sw) rb"
  let ?S = "(?R ^^ J) st"
  note ptrs = style_rows_ptrs [OF sw(1), where g = g and b = b and dRB = dRB and sRB = sRB
      and rb = rb and J = J and st = st]
  have mem: "st_mem (?R ?S) p
     = (if st_dst st + int J * dRB \<le> p \<and> p < st_dst st + int J * dRB + sw
        then g (st_src st + int J * sRB + (p - (st_dst st + int J * dRB)))
               (st_blur st + int J * (b * sw + rb) + b * (p - (st_dst st + int J * dRB)))
               (st_mem ?S p)
        else st_mem ?S p)" for p
    by (simp add: style_row_mem [OF sw(1)] ptrs)
  have dRB: "0 \<le> dRB" using sw by simp
  show ?case
  proof (intro conjI allI impI)
    fix p
    assume p: "st_dst st + int (Suc J) * dRB \<le> p"
    then have "st_dst st + int J * dRB + sw \<le> p" using sw by (simp add: distrib_right)
    moreover have "st_dst st + int J * dRB \<le> p" using p dRB by (simp add: distrib_right)
    ultimately show "st_mem ((?R ^^ Suc J) st) p = st_mem st p"
      using Suc by (simp add: mem)
  next
    fix y x
    assume yx: "y < Suc J \<and> int x < sw"
    show "st_mem ((?R ^^ Suc J) st) (st_dst st + int y * dRB + int x)
            = g (st_src st + int y * sRB + int x) (st_blur st + int y * (b * sw + rb) + b * int x)
                (st_mem st (st_dst st + int y * dRB + int x))"
    proof (cases "y = J")
      case True
      have "st_mem ?S (st_dst st + int J * dRB + int x) = st_mem st (st_dst st + int J * dRB + int x)"
        using Suc by simp
      then show ?thesis using yx True by (simp add: mem)
    next
      case False
      then have y: "y < J" using yx by simp
      then have "int y + 1 \<le> int J" by simp
      then have "(int y + 1) * dRB \<le> int J * dRB" using dRB by (rule mult_right_mono)
      then have "st_dst st + int y * dRB + int x < st_dst st + int J * dRB"
        using yx sw by (simp add: distrib_right)
      then show ?thesis using Suc y yx by (simp add: mem)
    qed
  qed
qed


lemma clamp_with_orig_solid:
  "clamp_with_orig dst dst0 dRB src src0 sRB sw sh kSolid_Style
     = st_mem ((style_row (\<lambda>p q d. solid_value (src p) d) 0 sw (dRB - sw) (sRB - sw) 0 ^^ nat sh)
                 \<lparr>st_dst = dst0, st_src = src0, st_blur = 0, st_mem = dst\<rparr>)"
  by (simp add: clamp_with_orig_def down_loop_1 Let_def solid_px_style style_row_def [abs_def])

lemma clamp_with_orig_outer:
  "clamp_with_orig dst dst0 dRB src src0 sRB sw sh kOuter_Style
     = st_mem ((style_row (\<lambda>p q d. outer_value (src p) d) 0 sw (dRB - sw) (sRB - sw) 0 ^^ nat sh)
                 \<lparr>st_dst = dst0, st_src = src0, st_blur = 0, st_mem = dst\<rparr>)"
  by (simp add: clamp_with_orig_def down_loop_1 Let_def outer_px_style style_row_def [abs_def])

lemma merge_src_with_blur_rows:
  "merge_src_with_blur dst dst0 dRB src src0 sRB blur blur0 bRB sw sh
     = st_mem ((style_row (\<lambda>p q d. inner_value (src p) (blur q)) 1 sw (dRB - sw) (sRB - sw)
                  (bRB - sw) ^^ nat sh)
                 \<lparr>st_dst = dst0, st_src = src0, st_blur = blur0, st_mem = dst\<rparr>)"
  by (simp add: merge_src_with_blur_def down_loop_1 Let_def merge_px_style
        style_row_def [abs_def] case_prod_beta)

lemma clamp_with_orig_solid_at:
  assumes "sw \<le> dRB" and "int y < sh" and "int x < sw"
  shows "clamp_with_orig dst dst0 dRB src src0 sRB sw sh kSolid_Style (dst0 + int y * dRB + int x)
           = solid_value (src (src0 + int y * sRB + int x)) (dst (dst0 + int y * dRB + int x))"
proof -
  have sw: "0 \<le> sw" using assms(3) by simp
  have y: "y < nat sh" using assms(2) by simp
  show ?thesis
    using style_rows_mem [OF sw assms(1), where J = "nat sh" and sRB = sRB and rb = 0 and b = 0
        and g = "\<lambda>p q d. solid_value (src p) d"
        and st = "\<lparr>st_dst = dst0, st_src = src0, st_blur = 0, st_mem = dst\<rparr>"] y assms(3)
    by (simp add: clamp_with_orig_solid)
qed

lemma clamp_with_orig_outer_at:
  assumes "sw \<le> dRB" and "int y < sh" and "int x < sw"
  shows "clamp_with_orig dst dst0 dRB src src0 sRB sw sh kOuter_Style (dst0 + int y * dRB + int x)
           = outer_value (src (src0 + int y * sRB + int x)) (dst (dst0 + int y * dRB + int x))"
proof -
  have sw: "0 \<le> sw" using assms(3) by simp
  have y: "y < nat sh" using assms(2) by simp
  show ?thesis
    using style_rows_mem [OF sw assms(1), where J = "nat sh" and sRB = sRB and rb = 0 and b = 0
        and g = "\<lambda>p q d. outer_value (src p) d"
        and st = "\<lparr>st_dst = dst0, st_src = src0, st_blur = 0, st_mem = dst\<rparr>"] y assms(3)
    by (simp add: clamp_with_orig_outer)
qed

lemma merge_src_with_blur_at:
  assumes "sw \<le> dRB" and "int y < sh" and "int x < sw"
  shows "merge_src_with_blur dst dst0 dRB src src0 sRB blur blur0 bRB sw sh
           (dst0 + int y * dRB + int x)
           = inner_value (src (src0 + int y * sRB + int x)) (blur (blur0 + int y * bRB + int x))"
proof -
  have sw: "0 \<le> sw" using assms(3) by simp
  have y: "y < nat sh" using assms(2) by simp
  show ?thesis
    using style_rows_mem [OF sw assms(1), where J = "nat sh" and sRB = sRB and rb = "bRB - sw"
        and b = 1 and g = "\<lambda>p q d. inner_value (src p) (blur q)"
        and st = "\<lparr>st_dst = dst0, st_src = src0, st_blur = blur0, st_mem = dst\<rparr>"] y assms(3)
    by (simp add: merge_src_with_blur_rows)
qed

lemma int_div_le:
  fixes a b k :: int
  assumes "0 < b" and "a < b * (k + 1)"
  shows "a div b \<le> k"
proof -
  have "b * (a div b) + a mod b = a" by simp
  moreover have "0 \<le> a mod b" using assms(1) by simp
  ultimately have "b * (a div b) < b * (k + 1)" using assms(2) by linarith
  then have "a div b < k + 1" using assms(1) by (simp add: mult_less_cancel_left_pos)
  then show ?thesis by simp
qed

lemma int_le_div:
  fixes a b k :: int
  assumes "0 < b" and "b * k \<le> a"
  shows "k \<le> a div b"
proof -
  have "b * (a div b) + a mod b = a" by simp
  moreover have "a mod b < b" using assms(1) by simp
  ultimately have "b * k < b * (a div b) + b" using assms(2) by linarith
  then have "b * k < b * (a div b + 1)" by (simp add: distrib_left)
  then have "k < a div b + 1" using assms(1) by (simp add: mult_less_cancel_left_pos)
  then show ?thesis by simp
qed

lemma solid_value_law:
  "uint (solid_value s d) = uint s + uint d - (2 * uint s * uint d + 255) div 510
   \<and> uint d \<le> uint (solid_value s d) \<and> uint s \<le> uint (solid_value s d)"
proof -
  let ?s = "uint s" and ?d = "uint d"
  have s: "0 \<le> ?s" "?s \<le> 255" and d: "0 \<le> ?d" "?d \<le> 255"
    using byte_range [of s] byte_range [of d] by simp_all
  define m where "m = (2 * (?s * ?d) + 255) div 510"
  have sd: "0 \<le> ?s * ?d" using s d by simp
  have "?s * ?d \<le> 255 * 255" using s d by (intro mult_mono) simp_all
  then have r: "SkMulDiv255Round ?s ?d = m"
    using div255_round_aux [of "?s * ?d"] sd by (simp add: SkMulDiv255Round_def Let_def m_def)
  have "?s * ?d \<le> ?s * 255" using s d by (intro mult_left_mono) simp_all
  then have "2 * (?s * ?d) + 255 < 510 * (?s + 1)" by simp
  then have ms: "m \<le> ?s" unfolding m_def by (intro int_div_le) simp_all
  have "?d * ?s \<le> ?d * 255" using s d by (intro mult_left_mono) simp_all
  then have "2 * (?s * ?d) + 255 < 510 * (?d + 1)" by (simp add: mult.commute)
  then have md: "m \<le> ?d" unfolding m_def by (intro int_div_le) simp_all
  have "0 \<le> (255 - ?s) * (255 - ?d)" using s d by simp
  then have "510 * (?s + ?d - 255) \<le> 2 * (?s * ?d) + 255" by (simp add: algebra_simps)
  then have lo: "?s + ?d - 255 \<le> m" unfolding m_def by (intro int_le_div) simp_all
  have "0 \<le> ?s + ?d - m" "?s + ?d - m \<le> 255" using ms lo d by linarith+
  then have v: "uint (solid_value s d) = ?s + ?d - m"
    unfolding solid_value_def r by (rule SkToU8_value)
  show ?thesis using v ms md by (simp add: m_def mult.assoc)
qed


lemma outer_value_law:
  "uint (outer_value s d) = uint d * (256 - uint s) div 256
   \<and> uint (outer_value s d) \<le> uint d \<and> outer_value 255 d = 0"
proof -
  let ?s = "uint s" and ?d = "uint d"
  have s: "0 \<le> ?s" "?s \<le> 255" and d: "0 \<le> ?d" "?d \<le> 255"
    using byte_range [of s] byte_range [of d] by simp_all
  define v where "v = ?d * (256 - ?s) div 256"
  have "?d * (256 - ?s) \<le> ?d * 256" using s d by (intro mult_left_mono) simp_all
  then have "?d * (256 - ?s) < 256 * (?d + 1)" by simp
  then have vd: "v \<le> ?d" unfolding v_def by (intro int_div_le) simp_all
  have "0 \<le> ?d * (256 - ?s)" using s d by simp
  then have v0: "0 \<le> v" unfolding v_def by (simp add: pos_imp_zdiv_nonneg_iff)
  have "v \<le> 255" using vd d by simp
  with v0 have u: "uint (SkToU8 (word_of_int v)) = v" by (rule SkToU8_value)
  have z: "s = 0 \<Longrightarrow> v = ?d" by (simp add: v_def)
  have a: "uint (outer_value s d) = v"
  proof (cases "s = 0")
    case True
    then show ?thesis using z by (simp add: outer_value_def)
  next
    case False
    have "SkAlphaMul ?d (SkAlpha255To256 (255 - ?s)) = v"
      by (simp add: SkAlphaMul_def SkAlpha255To256_def v_def)
    then show ?thesis using False u by (simp only: outer_value_def if_True simp_thms)
  qed
  have "?d div 256 = 0" using d by simp
  then have "uint (SkToU8 (word_of_int (?d div 256))) = 0" by (simp add: SkToU8_def)
  then have "SkToU8 (word_of_int (?d div 256)) = 0" by (simp only: uint_0_iff)
  then have b: "outer_value 255 d = 0"
    by (simp add: outer_value_def SkAlphaMul_def SkAlpha255To256_def)
  show ?thesis using a vd b by (simp add: v_def)
qed

lemma inner_value_arith:
  fixes s b :: int
  assumes "0 \<le> s" "s \<le> 255" "0 \<le> b" "b \<le> 255"
  shows "0 \<le> b * (s + 1) div 256 \<and> b * (s + 1) div 256 \<le> s \<and> b * (s + 1) div 256 \<le> b"
proof -
  define v where "v = b * (s + 1) div 256"
  define T where "T = b * (s + 1)"
  have "T \<le> 255 * (s + 1)" unfolding T_def using assms by (intro mult_right_mono) simp_all
  then have "T < 256 * (s + 1)" using assms(1) by (simp add: distrib_left)
  then have "b * (s + 1) < 256 * (s + 1)" by (simp only: T_def)
  then have vs: "v \<le> s" unfolding v_def by (intro int_div_le) simp_all
  have "b * (s + 1) \<le> b * 256" using assms by (intro mult_left_mono) simp_all
  then have "b * (s + 1) < 256 * (b + 1)" by simp
  then have vb: "v \<le> b" unfolding v_def by (intro int_div_le) simp_all
  have "0 \<le> b * (s + 1)" using assms by simp
  then have v0: "0 \<le> v" unfolding v_def by (simp add: pos_imp_zdiv_nonneg_iff)
  show ?thesis using vs vb v0 by (simp add: v_def)
qed

lemma inner_value_law:
  "uint (inner_value s b) = uint b * (uint s + 1) div 256
   \<and> uint (inner_value s b) \<le> uint s \<and> uint (inner_value s b) \<le> uint b"
proof -
  let ?v = "uint b * (uint s + 1) div 256"
  have s: "0 \<le> uint s" "uint s \<le> 255" and b: "0 \<le> uint b" "uint b \<le> 255"
    using byte_range [of s] byte_range [of b] by simp_all
  note a = inner_value_arith [OF s b]
  have "?v \<le> 255" using a s(2) by linarith
  with a have u: "uint (SkToU8 (word_of_int ?v)) = ?v" by (intro SkToU8_value) simp_all
  have "SkAlphaMul (uint b) (SkAlpha255To256 (uint s)) = ?v"
    by (simp add: SkAlphaMul_def SkAlpha255To256_def)
  then have "uint (inner_value s b) = ?v" using u by (simp only: inner_value_def)
  then show ?thesis using a by simp
qed

lemma Blur_image_styles:
  assumes "computeImageSize d \<noteq> 0"
  shows "Blur_image ops pf d src sp radius style quality separable =
     (let pad = Blur_passCount ops radius quality * Blur_rx ops radius quality;
          dp = Blur_blurred ops pf src sp radius quality separable;
          off = Blur_passCount ops radius quality
                  * (Blur_rx ops radius quality + Blur_rx ops radius quality * fRowBytes d);
          sw = SkIRect_width (fBounds src);
          sh = SkIRect_height (fBounds src)
      in if style = kInner_Style
         then if computeImageSize src = 0 then (False, d\<lparr>fImage := Some dp\<rparr>, [])
              else (True,
                    d\<lparr>fImage := Some (merge_src_with_blur (fresh_bytes pf Inner_image) 0
                                         (fRowBytes src) sp 0 (fRowBytes src) dp off
                                         (fRowBytes d) sw sh)\<rparr>,
                    [Inner_image])
         else if style = kNormal_Style then (True, d\<lparr>fImage := Some dp\<rparr>, [Dst_image])
         else (True,
               d\<lparr>fImage := Some (clamp_with_orig dp off (fRowBytes d) sp 0 (fRowBytes src)
                                    sw sh style)\<rparr>,
               [Dst_image]))"
  using assms by (simp add: Blur_image_def Blur_blurred_def Let_def)

lemma Blur_pixels_styles:
  assumes "fFormat src = kA8_Format" and "0 < Blur_rx ops radius quality"
    and "fImage src = Some sp"
    and "computeImageSize (Blur_dst ops dst src radius quality) \<noteq> 0"
  shows "Blur_pixels ops pf dst src radius kNormal_Style quality margin separable
           = Blur_blurred ops pf src sp radius quality separable"
    and "style = kSolid_Style \<or> style = kOuter_Style \<Longrightarrow>
         Blur_pixels ops pf dst src radius style quality margin separable
           = clamp_with_orig (Blur_blurred ops pf src sp radius quality separable)
               (Blur_passCount ops radius quality
                  * (Blur_rx ops radius quality
                     + Blur_rx ops radius quality
                         * int_to_u32 (SkIRect_width (Blur_bounds ops src radius quality))))
               (int_to_u32 (SkIRect_width (Blur_bounds ops src radius quality))) sp 0 (fRowBytes src)
               (SkIRect_width (fBounds src)) (SkIRect_height (fBounds src)) style"
    and "computeImageSize src \<noteq> 0 \<Longrightarrow>
         Blur_pixels ops pf dst src radius kInner_Style quality margin separable
           = merge_src_with_blur (fresh_bytes pf Inner_image) 0 (fRowBytes src) sp 0
               (fRowBytes src) (Blur_blurred ops pf src sp radius quality separable)
               (Blur_passCount ops radius quality
                  * (Blur_rx ops radius quality
                     + Blur_rx ops radius quality
                         * int_to_u32 (SkIRect_width (Blur_bounds ops src radius quality))))
               (int_to_u32 (SkIRect_width (Blur_bounds ops src radius quality)))
               (SkIRect_width (fBounds src)) (SkIRect_height (fBounds src))"
  using assms(3,4)
  by (auto simp add: Blur_pixels_def Blur_supported [OF assms(1,2)] Blur_image_styles Let_def)



lemma Blur_passCount_pos: "0 < Blur_passCount ops radius quality"
  by (simp add: Blur_passCount_def)

lemma Blur_rowBytes_ge:
  assumes "0 < Blur_rx ops radius quality"
  shows "SkIRect_width (fBounds src) \<le> SkIRect_width (Blur_bounds ops src radius quality)"
proof -
  have "0 \<le> Blur_passCount ops radius quality * Blur_rx ops radius quality"
    using assms Blur_passCount_pos [of ops radius quality] by simp
  then show ?thesis by (simp add: Blur_bounds_def SkIRect_width_def Let_def)
qed


text \<open>The blurred pixel over the corner of an opaque 4 by 4 source, radius 1.\<close>

lemma opaque_normal_pixel:
  "Blur_pixels exact_scalars plain_platform
        \<lparr>fImage = None, fBounds = \<lparr>fLeft = 0, fTop = 0, fRight = 0, fBottom = 0\<rparr>,
         fRowBytes = 0, fFormat = kBW_Format\<rparr>
        \<lparr>fImage = Some (\<lambda>_. 255), fBounds = \<lparr>fLeft = 0, fTop = 0, fRight = 4, fBottom = 4\<rparr>,
         fRowBytes = 4, fFormat = kA8_Format\<rparr>
        1 kNormal_Style kLow_Quality (Some (0, 0)) False 7 = 113"
  using Blur_opaque_result [where l = 0 and t = 0 and pf = plain_platform and m = "(0, 0)"
      and img = "\<lambda>_. 255"
      and dst = "\<lparr>fImage = None, fBounds = \<lparr>fLeft = 0, fTop = 0, fRight = 0, fBottom = 0\<rparr>,
         fRowBytes = 0, fFormat = kBW_Format\<rparr>"]
  by (simp add: Blur_pixels_def apply_kernel_at_offset kernel_pixel_def pin_def Let_def
        SkToU8_def opaque_sum_buffer_at)

section \<open>The claims\<close>

text \<open>
  Claim C1 (zero-sum invariant). Every row iteration of \<open>boxBlur\<close> reaches
  \<open>SkASSERT(sum == 0)\<close> with \<open>sum = 0\<close>, for every source, stride, width, height and
  pair of radii: the window subtracts each byte it added. Every row iteration of
  \<open>boxBlurInterp\<close> reaches \<open>SkASSERT(outer_sum == 0 && inner_sum == 0)\<close> with both sums
  0, for every source, stride, width, height and scales, and every radius of at least 1.
  These are the radii that the function receives: it is static, and its only caller
  \<open>Blur\<close> returns at \<open>if (rx <= 0) return false\<close> before it passes \<open>rx\<close> or \<open>ry\<close>.
\<close>

theorem boxBlur_rows_end_with_zero_sum:
  "b_sum (boxBlur_row src src_y_stride leftRadius rightRadius width
            (leftRadius + rightRadius) (SkMin32 width (leftRadius + rightRadius))
            scale dst_x_stride dst_y_stride y dst0) = 0
   \<and> (1 \<le> radius \<longrightarrow>
        i_outer_sum (boxBlurInterp_row src src_y_stride width (radius * 2)
            (SkMin32 width (radius * 2)) outer_scale inner_scale dst_x_stride dst_y_stride
            y dst0) = 0
      \<and> i_inner_sum (boxBlurInterp_row src src_y_stride width (radius * 2)
            (SkMin32 width (radius * 2)) outer_scale inner_scale dst_x_stride dst_y_stride
            y dst0) = 0)"
proof (intro conjI impI)
  show "b_sum (boxBlur_row src src_y_stride leftRadius rightRadius width
            (leftRadius + rightRadius) (SkMin32 width (leftRadius + rightRadius))
            scale dst_x_stride dst_y_stride y dst0) = 0"
    by (rule boxBlur_row_sum)
next
  show "i_outer_sum (boxBlurInterp_row src src_y_stride width (radius * 2)
            (SkMin32 width (radius * 2)) outer_scale inner_scale dst_x_stride dst_y_stride
            y dst0) = 0"
    by (rule boxBlurInterp_row_outer)
next
  assume "1 \<le> radius"
  then have "0 < SkMin32 width (radius * 2) \<or> width \<le> radius * 2"
    by (auto simp: SkMin32_def)
  then show "i_inner_sum (boxBlurInterp_row src src_y_stride width (radius * 2)
            (SkMin32 width (radius * 2)) outer_scale inner_scale dst_x_stride dst_y_stride
            y dst0) = 0"
    by (rule boxBlurInterp_row_inner)
qed

text \<open>Witness of C1: a row of four bytes 255, radius 1, with the scales that
  \<open>boxBlurInterp\<close> computes for \<open>outer_weight = 128\<close>.\<close>

theorem boxBlur_rows_end_with_zero_sum_witness:
  "(1::int) \<le> 1
   \<and> i_outer_sum (boxBlurInterp_row (\<lambda>_. 255) 4 4 (1 * 2) (SkMin32 4 (1 * 2))
                    2818048 8323072 1 6 0 (\<lambda>_. 0)) = 0
   \<and> i_inner_sum (boxBlurInterp_row (\<lambda>_. 255) 4 4 (1 * 2) (SkMin32 4 (1 * 2))
                    2818048 8323072 1 6 0 (\<lambda>_. 0)) = 0"
  using boxBlur_rows_end_with_zero_sum
    [of "\<lambda>_. 255" 4 0 0 4 0 1 6 0 "\<lambda>_. 0" 1 2818048 8323072]
  by simp

text \<open>
  The radius 0 is outside that guard. There \<open>kernelSize - 2 = -1\<close>, and \<open>boxBlurInterp\<close> on
  a row of one byte 1 (\<open>outer_weight = 128\<close>, so \<open>outer_scale = 129 << 16\<close> and
  \<open>inner_scale = (127 << 16) / -1\<close>) would leave \<open>inner_sum = 0 - 1\<close>.
\<close>

lemma boxBlurInterp_radius0_inner_sum:
  "i_inner_sum (boxBlurInterp_row (\<lambda>_. 1) 1 1 (0 * 2) (SkMin32 1 (0 * 2))
                  8454144 (word_of_int (- 8323072)) 1 1 0 (\<lambda>_. 0)) = 4294967295
   \<and> (4294967295 :: u32) \<noteq> 0"
  by (simp add: boxBlurInterp_row_unfold SkMin32_def)

text \<open>
  Claim C2 (amended). For an image of width \<open>srcW \<ge> 0\<close>, height \<open>srcH\<close> and any row stride,
  \<open>build_sum_buffer\<close> leaves a buffer with rows of \<open>srcW + 1\<close> entries whose first row
  and first column are zero and whose entry in row \<open>j\<close> and column \<open>i\<close>
  (\<open>i \<le> srcW\<close>, \<open>j \<le> srcH\<close>) is the sum of the source over the first \<open>i\<close> columns of
  the first \<open>j\<close> rows, modulo \<open>2^32\<close>: the entries are \<open>uint32_t\<close>. The four corners of a
  rectangle \<open>[x0, x1) \<times> [y0, y1)\<close> combine by inclusion and exclusion, in \<open>uint32_t\<close>
  arithmetic, to the sum of the source over that rectangle modulo \<open>2^32\<close>. So an entry,
  or the total of a rectangle, is exact when the sum is below \<open>2^32\<close>, which it is when
  the region has at most 16843009 pixels (the sum is at most 255 times the number of
  pixels); the total of such a rectangle is exact also when the entries have wrapped.
  The result does not depend on the alignment of the source or on what the buffer held
  before.
\<close>

theorem build_sum_buffer_prefix_sums:
  assumes "0 \<le> srcW" and "int i \<le> srcW" and "int j \<le> srcH"
    and "x0 \<le> x1" and "int x1 \<le> srcW" and "y0 \<le> y1" and "int y1 \<le> srcH"
  shows "build_sum_buffer aligned sbuf srcW srcH src srcRB (int i) = 0
       \<and> build_sum_buffer aligned sbuf srcW srcH src srcRB (int j * (srcW + 1)) = 0
       \<and> uint (build_sum_buffer aligned sbuf srcW srcH src srcRB (int j * (srcW + 1) + int i))
           = rect_total src srcRB 0 i 0 j mod 2 ^ 32
       \<and> uint (build_sum_buffer aligned sbuf srcW srcH src srcRB (int y1 * (srcW + 1) + int x1)
               + build_sum_buffer aligned sbuf srcW srcH src srcRB (int y0 * (srcW + 1) + int x0)
               - build_sum_buffer aligned sbuf srcW srcH src srcRB (int y0 * (srcW + 1) + int x1)
               - build_sum_buffer aligned sbuf srcW srcH src srcRB (int y1 * (srcW + 1) + int x0))
           = rect_total src srcRB x0 (x1 - x0) y0 (y1 - y0) mod 2 ^ 32
       \<and> (rect_total src srcRB 0 i 0 j < 2 ^ 32 \<longrightarrow>
            uint (build_sum_buffer aligned sbuf srcW srcH src srcRB (int j * (srcW + 1) + int i))
              = rect_total src srcRB 0 i 0 j)
       \<and> (rect_total src srcRB x0 (x1 - x0) y0 (y1 - y0) < 2 ^ 32 \<longrightarrow>
            uint (build_sum_buffer aligned sbuf srcW srcH src srcRB (int y1 * (srcW + 1) + int x1)
               + build_sum_buffer aligned sbuf srcW srcH src srcRB (int y0 * (srcW + 1) + int x0)
               - build_sum_buffer aligned sbuf srcW srcH src srcRB (int y0 * (srcW + 1) + int x1)
               - build_sum_buffer aligned sbuf srcW srcH src srcRB (int y1 * (srcW + 1) + int x0))
              = rect_total src srcRB x0 (x1 - x0) y0 (y1 - y0))
       \<and> rect_total src srcRB 0 i 0 j \<le> 255 * int i * int j"
proof -
  let ?B = "build_sum_buffer aligned sbuf srcW srcH src srcRB"
  have a: "?B (int j' * (srcW + 1) + int i') = prefix2 src srcRB i' j'"
    if "int i' \<le> srcW" "int j' \<le> srcH" for i' j'
    using assms(1) that by (rule build_sum_buffer_at)
  have x0: "int x0 \<le> srcW" and y0: "int y0 \<le> srcH" using assms by linarith+
  have "0 \<le> srcH" using assms(3) by linarith
  then have r0: "?B (int i) = 0" using a [of i 0] assms(2) by simp
  have c0: "?B (int j * (srcW + 1)) = 0" using a [of 0 j] assms(1,3) by simp
  have e: "?B (int j * (srcW + 1) + int i) = rect_sum src srcRB 0 i 0 j"
    using a [OF assms(2,3)] by (simp only: prefix2_rect)
  have ie: "?B (int y1 * (srcW + 1) + int x1) + ?B (int y0 * (srcW + 1) + int x0)
            - ?B (int y0 * (srcW + 1) + int x1) - ?B (int y1 * (srcW + 1) + int x0)
            = rect_sum src srcRB x0 (x1 - x0) y0 (y1 - y0)"
    using inclusion_exclusion [OF assms(4) assms(6), of src srcRB] assms
    by (simp only: a x0 y0 simp_thms)
  have m: "0 \<le> t \<Longrightarrow> t < 2 ^ 32 \<Longrightarrow> t mod 2 ^ 32 = t" for t :: int by simp
  note b1 = rect_total_bounds [of src srcRB 0 i 0 j]
  note b2 = rect_total_bounds [of src srcRB x0 "x1 - x0" y0 "y1 - y0"]
  show ?thesis
    unfolding e ie uint_rect_sum
    using r0 c0 b1 b2 by (simp only: simp_thms) (simp add: m)
qed

text \<open>Witness of C2: the image with rows \<open>1 2\<close> and \<open>4 5\<close>, stored with stride 3.\<close>

theorem build_sum_buffer_prefix_sums_witness:
  "(0::int) \<le> 2 \<and> int 2 \<le> 2 \<and> int 2 \<le> 2 \<and> (1::nat) \<le> 2 \<and> int 2 \<le> 2 \<and> (0::nat) \<le> 1 \<and> int 1 \<le> 2
   \<and> build_sum_buffer (\<lambda>p. p mod 4 = 0) (\<lambda>_. 7) 2 2 (\<lambda>p. word_of_int (p + 1)) 3 (int 2) = 0
   \<and> build_sum_buffer (\<lambda>p. p mod 4 = 0) (\<lambda>_. 7) 2 2 (\<lambda>p. word_of_int (p + 1)) 3 (int 2 * (2 + 1)) = 0
   \<and> rect_total (\<lambda>p. word_of_int (p + 1)) 3 0 2 0 2 = 12
   \<and> uint (build_sum_buffer (\<lambda>p. p mod 4 = 0) (\<lambda>_. 7) 2 2 (\<lambda>p. word_of_int (p + 1)) 3 (int 2 * (2 + 1) + int 2)) = 12
   \<and> rect_total (\<lambda>p. word_of_int (p + 1)) 3 1 (2 - 1) 0 (1 - 0) = 2
   \<and> uint (build_sum_buffer (\<lambda>p. p mod 4 = 0) (\<lambda>_. 7) 2 2 (\<lambda>p. word_of_int (p + 1)) 3 (int 1 * (2 + 1) + int 2)
           + build_sum_buffer (\<lambda>p. p mod 4 = 0) (\<lambda>_. 7) 2 2 (\<lambda>p. word_of_int (p + 1)) 3 (int 0 * (2 + 1) + int 1)
           - build_sum_buffer (\<lambda>p. p mod 4 = 0) (\<lambda>_. 7) 2 2 (\<lambda>p. word_of_int (p + 1)) 3 (int 0 * (2 + 1) + int 2)
           - build_sum_buffer (\<lambda>p. p mod 4 = 0) (\<lambda>_. 7) 2 2 (\<lambda>p. word_of_int (p + 1)) 3 (int 1 * (2 + 1) + int 1))
     = 2"
  using build_sum_buffer_prefix_sums [where srcW = 2 and srcH = 2 and i = 2 and j = 2
      and ?x0.0 = 1 and ?x1.0 = 2 and ?y0.0 = 0 and ?y1.0 = 1 and aligned = "\<lambda>p. p mod 4 = 0"
      and sbuf = "\<lambda>_. 7" and src = "\<lambda>p. word_of_int (p + 1)" and srcRB = 3]
  by (auto simp add: eval_simps rect_total_numeral row_total_numeral uint_word_of_int_eq)

text \<open>
  Counterexample to C2 as stated (the entry equals the sum): for an image of 4105 by
  4105 bytes 255 the sum of the whole image is 4297011375, which is not below \<open>2^32\<close>,
  and the last entry of the buffer is 2044079.
\<close>

theorem build_sum_buffer_wraps:
  "uint (build_sum_buffer (\<lambda>_. False) (\<lambda>_. 0) 4105 4105 (\<lambda>_. 255) 4105 (4105 * 4106 + 4105))
     = 2044079
   \<and> rect_total (\<lambda>_. 255) 4105 0 4105 0 4105 = 4297011375
   \<and> (2044079 :: int) \<noteq> 4297011375"
proof -
  have "build_sum_buffer (\<lambda>_. False) (\<lambda>_. 0) 4105 4105 (\<lambda>_. 255) 4105
          (int 4105 * (4105 + 1) + int 4105) = prefix2 (\<lambda>_. 255) 4105 4105 4105"
    by (rule build_sum_buffer_at) simp_all
  then have "uint (build_sum_buffer (\<lambda>_. False) (\<lambda>_. 0) 4105 4105 (\<lambda>_. 255) 4105
                (4105 * 4106 + 4105))
             = rect_total (\<lambda>_. 255) 4105 0 4105 0 4105 mod 2 ^ 32"
    by (simp add: prefix2_rect uint_rect_sum)
  moreover have "rect_total (\<lambda>_. 255) 4105 0 4105 0 4105 = 4297011375"
    by (simp add: rect_total_const)
  ultimately show ?thesis by simp
qed

text \<open>
  Claim C3. For radii and source sizes that are not negative, \<open>apply_kernel\<close> writes at
  every pixel \<open>(x, y)\<close> of the \<open>(sw + 2*rx)\<close> by \<open>(sh + 2*ry)\<close> destination the value
  \<open>kernel_pixel\<close>, that is \<open>SkToU8(tmp * scale >> 24)\<close> for the four-corner sample with
  clamped window coordinates; and its result is the one of \<open>kernel_clamped\<close>, the single
  clamped loop, whether the segmented loops run (\<open>2*rx \<le> sw\<close>), with or without the
  unrolled centre loop, or \<open>kernel_clamped\<close> itself is called.
\<close>

theorem apply_kernel_clamped_box:
  assumes "0 \<le> rx" and "0 \<le> ry" and "0 \<le> sw" and "0 \<le> sh"
    and "int x < sw + 2 * rx" and "int y < sh + 2 * ry"
  shows "apply_kernel unroll dst rx ry sbuf sw sh (int y * (sw + 2 * rx) + int x)
           = kernel_pixel sbuf rx ry sw sh x y
       \<and> apply_kernel unroll dst rx ry sbuf sw sh = kernel_clamped dst rx ry sbuf sw sh"
proof (intro conjI)
  show "apply_kernel unroll dst rx ry sbuf sw sh (int y * (sw + 2 * rx) + int x)
           = kernel_pixel sbuf rx ry sw sh x y"
    by (rule apply_kernel_at [OF assms])
next
  show "apply_kernel unroll dst rx ry sbuf sw sh = kernel_clamped dst rx ry sbuf sw sh"
    by (rule apply_kernel_is_kernel_clamped [OF assms(1)])
qed

text \<open>Witness of C3: the prefix sums of a 2 by 2 image of bytes 255, radius 1; the
  pixel \<open>(1, 1)\<close> sees the whole image: \<open>(1020 * (2^24 / 9)) >> 24 = 113\<close>.\<close>

theorem apply_kernel_clamped_box_witness:
  "(0::int) \<le> 1 \<and> (0::int) \<le> 1 \<and> (0::int) \<le> 2 \<and> (0::int) \<le> 2
   \<and> int 1 < 2 + 2 * 1 \<and> int 1 < 2 + 2 * 1
   \<and> apply_kernel True (\<lambda>_. 0) 1 1
         (\<lambda>p. if p = 4 then 255 else if p = 5 \<or> p = 7 then 510 else if p = 8 then 1020 else 0)
         2 2 (int 1 * (2 + 2 * 1) + int 1) = 113
   \<and> apply_kernel True (\<lambda>_. 0) 1 1
         (\<lambda>p. if p = 4 then 255 else if p = 5 \<or> p = 7 then 510 else if p = 8 then 1020 else 0)
         2 2
     = kernel_clamped (\<lambda>_. 0) 1 1
         (\<lambda>p. if p = 4 then 255 else if p = 5 \<or> p = 7 then 510 else if p = 8 then 1020 else 0)
         2 2"
  using apply_kernel_clamped_box [where rx = 1 and ry = 1 and sw = 2 and sh = 2 and x = 1
      and y = 1 and unroll = True and dst = "\<lambda>_. 0"
      and sbuf = "\<lambda>p. if p = 4 then 255 else if p = 5 \<or> p = 7 then 510
                        else if p = 8 then 1020 else 0"]
  by (clarsimp simp add: kernel_pixel_def pin_def SkToU8_def Let_def)

text \<open>
  Claim C4. \<open>boxBlur\<close> is static and \<open>Blur\<close> is its only caller. \<open>Blur\<close> passes the radii
  \<open>(rx, rx)\<close> or \<open>(ry, ry)\<close> at the low quality, and at the high quality the radii
  \<open>loRadius\<close> and \<open>hiRadius\<close> of \<open>get_adjusted_radii\<close>, which it calls only when
  \<open>outerWeight == 255\<close>, where (with exact scalars) both are \<open>rx\<close>: the function receives
  equal radii. For every source, every \<open>width >= 0\<close>, every height and every radius
  \<open>>= 0\<close> on both sides, \<open>boxBlur\<close> returns the new width
  \<open>width + leftRadius + rightRadius\<close>, and every column \<open>k\<close> below the new width of every
  row \<open>y\<close> below the height of the destination (at \<open>y * new_width + k\<close>, or at
  \<open>y + k * height\<close> when the output is transposed) holds the average
  \<open>(sum * scale + half) >> 24\<close>, with \<open>scale = 2^24 / (leftRadius + rightRadius + 1)\<close>, of
  the zero-padded source row over the columns \<open>k - leftRadius - rightRadius, \<dots>, k\<close>.
\<close>

theorem boxBlur_box_average:
  assumes "0 \<le> radius" and "0 \<le> width" and "int y < height"
    and "int k < width + radius + radius"
  shows "fst (boxBlur src src_y_stride dst radius radius width height transposed)
           = width + radius + radius
       \<and> snd (boxBlur src src_y_stride dst radius radius width height transposed)
           (int y * (if transposed then 1 else width + radius + radius)
            + int k * (if transposed then height else 1))
           = box_px (word_of_int (2 ^ 24 sdiv (radius + radius + 1)))
               (box_window src (int y * src_y_stride) width (radius + radius) (int k))
       \<and> (Blur_outerWeight exact_scalars blur_radius quality = 255 \<longrightarrow>
            get_adjusted_radii exact_scalars (Blur_passRadius exact_scalars blur_radius quality)
              = (Blur_rx exact_scalars blur_radius quality,
                 Blur_rx exact_scalars blur_radius quality))"
proof (intro conjI impI)
  show "fst (boxBlur src src_y_stride dst radius radius width height transposed)
           = width + radius + radius"
    by (simp add: boxBlur_new_width)
  have k: "k < nat (width + 2 * max radius radius)" using assms(4) by simp
  show "snd (boxBlur src src_y_stride dst radius radius width height transposed)
           (int y * (if transposed then 1 else width + radius + radius)
            + int k * (if transposed then height else 1))
           = box_px (word_of_int (2 ^ 24 sdiv (radius + radius + 1)))
               (box_window src (int y * src_y_stride) width (radius + radius) (int k))"
  proof -
    have e: "width + 2 * max radius radius = width + radius + radius" by simp
    have col: "boxBlur_columns src (int y * src_y_stride) width radius radius k
                 = box_px (word_of_int (2 ^ 24 sdiv (radius + radius + 1)))
                     (box_window src (int y * src_y_stride) width (radius + radius) (int k))"
    proof -
      have "k < nat (width + radius + radius)" using assms(4) by linarith
      then show ?thesis by (simp add: boxBlur_columns_def)
    qed
    show ?thesis
      using boxBlur_at [OF assms(1) assms(1) assms(2) assms(3) k,
          of src src_y_stride dst transposed]
      by (simp only: e col)
  qed
  assume "Blur_outerWeight exact_scalars blur_radius quality = 255"
  then show "get_adjusted_radii exact_scalars (Blur_passRadius exact_scalars blur_radius quality)
              = (Blur_rx exact_scalars blur_radius quality,
                 Blur_rx exact_scalars blur_radius quality)"
    by (rule get_adjusted_radii_equal)
qed

text \<open>Witness of C4: one row of three bytes 255, radius 1 on both sides. The new width
  is 5, and column 1 holds \<open>(510 * (2^24 / 3) + 2^23) >> 24 = 170\<close>. \<open>Blur\<close> with the radius 1
  has \<open>outerWeight = 255\<close> and the radii \<open>(1, 1)\<close>.\<close>

theorem boxBlur_box_average_witness:
  "(0::int) \<le> 1 \<and> (0::int) \<le> 3 \<and> int 0 < 1 \<and> int 1 < 3 + 1 + 1
   \<and> fst (boxBlur (\<lambda>_. 255) 3 (\<lambda>_. 0) 1 1 3 1 False) = 5
   \<and> snd (boxBlur (\<lambda>_. 255) 3 (\<lambda>_. 0) 1 1 3 1 False) 1 = 170
   \<and> Blur_outerWeight exact_scalars 1 kLow_Quality = 255
   \<and> get_adjusted_radii exact_scalars (Blur_passRadius exact_scalars 1 kLow_Quality) = (1, 1)"
  using boxBlur_box_average [where radius = 1 and width = 3 and y = 0 and height = 1 and k = 1
      and src = "\<lambda>_. 255" and src_y_stride = 3 and dst = "\<lambda>_. 0" and transposed = False
      and blur_radius = 1 and quality = kLow_Quality]
  by (simp add: box_window_def padded_def box_px_def half_def eval_simps Blur_outerWeight_def
        Blur_locals rat_rounding)




text \<open>
  Claim C6. The laws of the styles, for a call of \<open>Blur\<close> that builds an image, at every
  pixel \<open>(x, y)\<close> of the source, with \<open>s\<close> the source byte and \<open>d\<close> the blurred byte over it
  (the byte that the normal style returns there). The solid style returns
  \<open>s + d - round (s * d / 255)\<close>, which is at least \<open>d\<close> and at least \<open>s\<close>; the outer style
  returns \<open>d * (256 - s) >> 8\<close>, which is at most \<open>d\<close> and is 0 where \<open>s = 255\<close>; the inner
  style returns \<open>d * (s + 1) >> 8\<close>, at most \<open>s\<close>, in an image laid out like the source
  (whose rows must not overlap: \<open>width <= rowBytes\<close>), and the mask it returns has the
  bounds and the row bytes of the source. \<open>round (s * d / 255)\<close> is written
  \<open>(2 * s * d + 255) div 510\<close>.
\<close>

theorem Blur_style_laws:
  assumes "fFormat src = kA8_Format" and "0 < Blur_rx ops radius quality"
    and "fImage src = Some sp"
    and "computeImageSize (Blur_dst ops dst src radius quality) \<noteq> 0"
    and "int x < SkIRect_width (fBounds src)" and "int y < SkIRect_height (fBounds src)"
  shows
    "(let s = sp (int y * fRowBytes src + int x);
          p = Blur_offset ops src radius quality x y;
          d = Blur_pixels ops pf dst src radius kNormal_Style quality margin separable p;
          solid = Blur_pixels ops pf dst src radius kSolid_Style quality margin separable p;
          outer = Blur_pixels ops pf dst src radius kOuter_Style quality margin separable p;
          inner = Blur_pixels ops pf dst src radius kInner_Style quality margin separable
                    (int y * fRowBytes src + int x)
      in uint solid = uint s + uint d - (2 * uint s * uint d + 255) div 510
         \<and> d \<le> solid \<and> s \<le> solid
         \<and> uint outer = uint d * (256 - uint s) div 256 \<and> outer \<le> d
         \<and> (s = 255 \<longrightarrow> outer = 0)
         \<and> (computeImageSize src \<noteq> 0 \<and> SkIRect_width (fBounds src) \<le> fRowBytes src \<longrightarrow>
               uint inner = uint d * (uint s + 1) div 256 \<and> inner \<le> s \<and> inner \<le> d))
     \<and> (fst (Blur ops pf dst src radius kInner_Style quality margin separable) \<longrightarrow>
           fBounds (fst (snd (Blur ops pf dst src radius kInner_Style quality margin separable)))
             = fBounds src
           \<and> fRowBytes (fst (snd (Blur ops pf dst src radius kInner_Style quality margin
                                     separable)))
             = fRowBytes src)"
proof -
  let ?B = "Blur_blurred ops pf src sp radius quality separable"
  let ?RB = "SkIRect_width (Blur_bounds ops src radius quality)"
  let ?off = "Blur_passCount ops radius quality
                * (Blur_rx ops radius quality + Blur_rx ops radius quality * ?RB)"
  let ?sw = "SkIRect_width (fBounds src)" and ?sh = "SkIRect_height (fBounds src)"
  let ?s = "sp (int y * fRowBytes src + int x)"
  let ?p = "Blur_offset ops src radius quality x y"
  note px = Blur_pixels_styles [OF assms(1-4), where pf = pf and margin = margin
      and separable = separable]
  have p: "?p = ?off + int y * ?RB + int x" by (simp add: Blur_offset_def Let_def)
  have rb: "?sw \<le> ?RB" using assms(2) by (rule Blur_rowBytes_ge)
  have "0 \<le> ?RB" using rb assms(5) by simp
  then have u32: "int_to_u32 ?RB = ?RB" by simp
  have d: "Blur_pixels ops pf dst src radius kNormal_Style quality margin separable ?p = ?B ?p"
    by (simp only: px(1))
  have solid: "Blur_pixels ops pf dst src radius kSolid_Style quality margin separable ?p
                 = solid_value ?s (?B ?p)"
    using clamp_with_orig_solid_at [OF rb assms(6,5), of ?B ?off sp 0 "fRowBytes src"]
    by (simp add: px(2) p u32)
  have outer: "Blur_pixels ops pf dst src radius kOuter_Style quality margin separable ?p
                 = outer_value ?s (?B ?p)"
    using clamp_with_orig_outer_at [OF rb assms(6,5), of ?B ?off sp 0 "fRowBytes src"]
    by (simp add: px(2) p u32)
  have inner: "Blur_pixels ops pf dst src radius kInner_Style quality margin separable
                 (int y * fRowBytes src + int x) = inner_value ?s (?B ?p)"
    if "computeImageSize src \<noteq> 0" "?sw \<le> fRowBytes src"
    using merge_src_with_blur_at [OF that(2) assms(6,5),
        of "fresh_bytes pf Inner_image" 0 sp 0 "fRowBytes src" ?B ?off ?RB]
    by (simp add: px(3) [OF that(1)] p u32)
  note sl = solid_value_law [of ?s "?B ?p"]
  note ol = outer_value_law [of ?s "?B ?p"]
  note il = inner_value_law [of ?s "?B ?p"]
  have bounds: "fBounds (fst (snd (Blur ops pf dst src radius kInner_Style quality margin
                                     separable))) = fBounds src
      \<and> fRowBytes (fst (snd (Blur ops pf dst src radius kInner_Style quality margin
                                separable))) = fRowBytes src"
    if "fst (Blur ops pf dst src radius kInner_Style quality margin separable)"
    using that by (simp add: Blur_supported [OF assms(1,2)] Let_def split: if_splits)
  have laws: "uint (solid_value ?s (?B ?p)) = uint ?s + uint (?B ?p)
                 - (2 * uint ?s * uint (?B ?p) + 255) div 510
      \<and> ?B ?p \<le> solid_value ?s (?B ?p) \<and> ?s \<le> solid_value ?s (?B ?p)
      \<and> uint (outer_value ?s (?B ?p)) = uint (?B ?p) * (256 - uint ?s) div 256
      \<and> outer_value ?s (?B ?p) \<le> ?B ?p
      \<and> (?s = 255 \<longrightarrow> outer_value ?s (?B ?p) = 0)
      \<and> uint (inner_value ?s (?B ?p)) = uint (?B ?p) * (uint ?s + 1) div 256
      \<and> inner_value ?s (?B ?p) \<le> ?s \<and> inner_value ?s (?B ?p) \<le> ?B ?p"
    using sl ol il outer_value_law [of 255 "?B ?p"] by (auto simp add: word_le_def)
  show ?thesis
    unfolding Let_def d solid outer
    using laws inner bounds by auto
qed

text \<open>Witness of C6: the corner of an opaque 4 by 4 source, radius 1, low quality. The
  blurred byte over it is 113; the solid style gives 255, the outer style 0 and the inner
  style \<open>113 * 256 >> 8 = 113\<close>.\<close>

theorem Blur_style_laws_witness:
  "fFormat \<lparr>fImage = Some (\<lambda>_. 255), fBounds = \<lparr>fLeft = 0, fTop = 0, fRight = 4, fBottom = 4\<rparr>,
         fRowBytes = 4, fFormat = kA8_Format\<rparr> = kA8_Format
   \<and> 0 < Blur_rx exact_scalars 1 kLow_Quality
   \<and> computeImageSize (Blur_dst exact_scalars
        \<lparr>fImage = None, fBounds = \<lparr>fLeft = 0, fTop = 0, fRight = 0, fBottom = 0\<rparr>,
         fRowBytes = 0, fFormat = kBW_Format\<rparr>
        \<lparr>fImage = Some (\<lambda>_. 255), fBounds = \<lparr>fLeft = 0, fTop = 0, fRight = 4, fBottom = 4\<rparr>,
         fRowBytes = 4, fFormat = kA8_Format\<rparr>
        1 kLow_Quality) = 36
   \<and> computeImageSize \<lparr>fImage = Some (\<lambda>_. 255), fBounds = \<lparr>fLeft = 0, fTop = 0, fRight = 4, fBottom = 4\<rparr>,
         fRowBytes = 4, fFormat = kA8_Format\<rparr> = 16
   \<and> Blur_offset exact_scalars
        \<lparr>fImage = Some (\<lambda>_. 255), fBounds = \<lparr>fLeft = 0, fTop = 0, fRight = 4, fBottom = 4\<rparr>,
         fRowBytes = 4, fFormat = kA8_Format\<rparr>
        1 kLow_Quality 0 0 = 7
   \<and> Blur_pixels exact_scalars plain_platform
        \<lparr>fImage = None, fBounds = \<lparr>fLeft = 0, fTop = 0, fRight = 0, fBottom = 0\<rparr>,
         fRowBytes = 0, fFormat = kBW_Format\<rparr>
        \<lparr>fImage = Some (\<lambda>_. 255), fBounds = \<lparr>fLeft = 0, fTop = 0, fRight = 4, fBottom = 4\<rparr>,
         fRowBytes = 4, fFormat = kA8_Format\<rparr>
        1 kNormal_Style kLow_Quality (Some (0, 0)) False 7 = 113
   \<and> uint (Blur_pixels exact_scalars plain_platform
        \<lparr>fImage = None, fBounds = \<lparr>fLeft = 0, fTop = 0, fRight = 0, fBottom = 0\<rparr>,
         fRowBytes = 0, fFormat = kBW_Format\<rparr>
        \<lparr>fImage = Some (\<lambda>_. 255), fBounds = \<lparr>fLeft = 0, fTop = 0, fRight = 4, fBottom = 4\<rparr>,
         fRowBytes = 4, fFormat = kA8_Format\<rparr>
        1 kSolid_Style kLow_Quality (Some (0, 0)) False 7) = 255
   \<and> Blur_pixels exact_scalars plain_platform
        \<lparr>fImage = None, fBounds = \<lparr>fLeft = 0, fTop = 0, fRight = 0, fBottom = 0\<rparr>,
         fRowBytes = 0, fFormat = kBW_Format\<rparr>
        \<lparr>fImage = Some (\<lambda>_. 255), fBounds = \<lparr>fLeft = 0, fTop = 0, fRight = 4, fBottom = 4\<rparr>,
         fRowBytes = 4, fFormat = kA8_Format\<rparr>
        1 kOuter_Style kLow_Quality (Some (0, 0)) False 7 = 0
   \<and> uint (Blur_pixels exact_scalars plain_platform
        \<lparr>fImage = None, fBounds = \<lparr>fLeft = 0, fTop = 0, fRight = 0, fBottom = 0\<rparr>,
         fRowBytes = 0, fFormat = kBW_Format\<rparr>
        \<lparr>fImage = Some (\<lambda>_. 255), fBounds = \<lparr>fLeft = 0, fTop = 0, fRight = 4, fBottom = 4\<rparr>,
         fRowBytes = 4, fFormat = kA8_Format\<rparr>
        1 kInner_Style kLow_Quality (Some (0, 0)) False 0) = 113
   \<and> fst (Blur exact_scalars plain_platform
        \<lparr>fImage = None, fBounds = \<lparr>fLeft = 0, fTop = 0, fRight = 0, fBottom = 0\<rparr>,
         fRowBytes = 0, fFormat = kBW_Format\<rparr>
        \<lparr>fImage = Some (\<lambda>_. 255), fBounds = \<lparr>fLeft = 0, fTop = 0, fRight = 4, fBottom = 4\<rparr>,
         fRowBytes = 4, fFormat = kA8_Format\<rparr>
        1 kInner_Style kLow_Quality (Some (0, 0)) False)
   \<and> fBounds (fst (snd (Blur exact_scalars plain_platform
        \<lparr>fImage = None, fBounds = \<lparr>fLeft = 0, fTop = 0, fRight = 0, fBottom = 0\<rparr>,
         fRowBytes = 0, fFormat = kBW_Format\<rparr>
        \<lparr>fImage = Some (\<lambda>_. 255), fBounds = \<lparr>fLeft = 0, fTop = 0, fRight = 4, fBottom = 4\<rparr>,
         fRowBytes = 4, fFormat = kA8_Format\<rparr>
        1 kInner_Style kLow_Quality (Some (0, 0)) False)))
       = \<lparr>fLeft = 0, fTop = 0, fRight = 4, fBottom = 4\<rparr>
   \<and> fRowBytes (fst (snd (Blur exact_scalars plain_platform
        \<lparr>fImage = None, fBounds = \<lparr>fLeft = 0, fTop = 0, fRight = 0, fBottom = 0\<rparr>,
         fRowBytes = 0, fFormat = kBW_Format\<rparr>
        \<lparr>fImage = Some (\<lambda>_. 255), fBounds = \<lparr>fLeft = 0, fTop = 0, fRight = 4, fBottom = 4\<rparr>,
         fRowBytes = 4, fFormat = kA8_Format\<rparr>
        1 kInner_Style kLow_Quality (Some (0, 0)) False))) = 4"
  using Blur_style_laws [where ops = exact_scalars and pf = plain_platform
      and dst = "\<lparr>fImage = None, fBounds = \<lparr>fLeft = 0, fTop = 0, fRight = 0, fBottom = 0\<rparr>,
         fRowBytes = 0, fFormat = kBW_Format\<rparr>"
      and src = "\<lparr>fImage = Some (\<lambda>_. 255), fBounds = \<lparr>fLeft = 0, fTop = 0, fRight = 4, fBottom = 4\<rparr>,
         fRowBytes = 4, fFormat = kA8_Format\<rparr>"
      and sp = "\<lambda>_. 255" and radius = 1 and quality = kLow_Quality and x = 0 and y = 0
      and margin = "Some (0, 0)" and separable = False]
  by (simp add: Let_def Blur_locals rat_rounding computeImageSize_def Blur_dst_def
        Blur_bounds_def SkIRect_width_def SkIRect_height_def Blur_offset_def Blur_fst
        opaque_normal_pixel)

text \<open>
  Claim C7 (amended). \<open>Blur\<close> on a 4 by 4 mask of bytes 255 with \<open>rowBytes = 4\<close>, the radius
  1, the low quality and the normal style returns true with the margin \<open>(1, 1)\<close> and a
  6 by 6 mask (\<open>rowBytes = 6\<close>) that it allocates. The 3 by 3 window of the output pixel
  \<open>(x, y)\<close> covers \<open>c x * c y\<close> source pixels, with \<open>c = 1, 2, 3, 3, 2, 1\<close>, and the pixel is
  \<open>(255 * c x * c y * (2^24 / 9)) >> 24\<close>: the corner \<open>(0, 0)\<close> is 28 (one source pixel of
  nine), the pixel \<open>(1, 1)\<close> is 113 (four of nine), and the interior 2 by 2 block is 254,
  because \<open>2^24 / 9\<close> is truncated. \<open>BlurSeparable\<close> on the same input rounds each of its two
  passes: its corner is 28 too, and its interior block is 255.
\<close>

theorem Blur_opaque_4x4:
  assumes "map img [0..15] = replicate 16 255"
  shows "(\<exists>out.
            Blur exact_scalars pf dst
              \<lparr>fImage = Some img,
               fBounds = \<lparr>fLeft = l, fTop = t, fRight = l + 4, fBottom = t + 4\<rparr>,
               fRowBytes = 4, fFormat = kA8_Format\<rparr>
              1 kNormal_Style kLow_Quality (Some m) False
            = (True,
               \<lparr>fImage = Some out,
                fBounds = \<lparr>fLeft = l - 1, fTop = t - 1, fRight = l + 5, fBottom = t + 5\<rparr>,
                fRowBytes = 6, fFormat = kA8_Format\<rparr>,
               Some (1, 1), [Dst_image])
            \<and> map out [0..35]
              = [28, 56, 84, 84, 56, 28,
                 56, 113, 169, 169, 113, 56,
                 84, 169, 254, 254, 169, 84,
                 84, 169, 254, 254, 169, 84,
                 56, 113, 169, 169, 113, 56,
                 28, 56, 84, 84, 56, 28])
       \<and> (\<exists>out.
            BlurSeparable exact_scalars pf dst
              \<lparr>fImage = Some img,
               fBounds = \<lparr>fLeft = l, fTop = t, fRight = l + 4, fBottom = t + 4\<rparr>,
               fRowBytes = 4, fFormat = kA8_Format\<rparr>
              1 kNormal_Style kLow_Quality (Some m)
            = (True,
               \<lparr>fImage = Some out,
                fBounds = \<lparr>fLeft = l - 1, fTop = t - 1, fRight = l + 5, fBottom = t + 5\<rparr>,
                fRowBytes = 6, fFormat = kA8_Format\<rparr>,
               Some (1, 1), [Dst_image])
            \<and> map out [0..35]
              = [28, 57, 85, 85, 57, 28,
                 57, 113, 170, 170, 113, 57,
                 85, 170, 255, 255, 170, 85,
                 85, 170, 255, 255, 170, 85,
                 57, 113, 170, 170, 113, 57,
                 28, 57, 85, 85, 57, 28])"
proof (intro conjI exI)
  note img = opaque_bytes [OF assms]
  show "Blur exact_scalars pf dst
          \<lparr>fImage = Some img,
           fBounds = \<lparr>fLeft = l, fTop = t, fRight = l + 4, fBottom = t + 4\<rparr>,
           fRowBytes = 4, fFormat = kA8_Format\<rparr>
          1 kNormal_Style kLow_Quality (Some m) False
        = (True,
           \<lparr>fImage = Some (apply_kernel (UNROLL_KERNEL_LOOP pf) (fresh_bytes pf Dst_image) 1 1
                        (build_sum_buffer (SkIsAlign4 pf Src_image) (fresh_words pf Sum_storage)
                           4 4 img 4)
                        4 4),
            fBounds = \<lparr>fLeft = l - 1, fTop = t - 1, fRight = l + 5, fBottom = t + 5\<rparr>,
            fRowBytes = 6, fFormat = kA8_Format\<rparr>,
           Some (1, 1), [Dst_image])"
    by (rule Blur_opaque_result)
  show "map (apply_kernel (UNROLL_KERNEL_LOOP pf) (fresh_bytes pf Dst_image) 1 1
               (build_sum_buffer (SkIsAlign4 pf Src_image) (fresh_words pf Sum_storage)
                  4 4 img 4)
               4 4) [0..35]
          = [28, 56, 84, 84, 56, 28,
             56, 113, 169, 169, 113, 56,
             84, 169, 254, 254, 169, 84,
             84, 169, 254, 254, 169, 84,
             56, 113, 169, 169, 113, 56,
             28, 56, 84, 84, 56, 28]"
    by (rule opaque_blur_pixels [OF img])
  show "BlurSeparable exact_scalars pf dst
          \<lparr>fImage = Some img,
           fBounds = \<lparr>fLeft = l, fTop = t, fRight = l + 4, fBottom = t + 4\<rparr>,
           fRowBytes = 4, fFormat = kA8_Format\<rparr>
          1 kNormal_Style kLow_Quality (Some m)
        = (True,
           \<lparr>fImage = Some (snd (boxBlur (snd (boxBlur img 4 (fresh_bytes pf Tmp_buffer) 1 1 4 4 True))
                               4 (fresh_bytes pf Dst_image) 1 1 4 6 True)),
            fBounds = \<lparr>fLeft = l - 1, fTop = t - 1, fRight = l + 5, fBottom = t + 5\<rparr>,
            fRowBytes = 6, fFormat = kA8_Format\<rparr>,
           Some (1, 1), [Dst_image])"
    by (rule BlurSeparable_opaque_result)
  show "map (snd (boxBlur (snd (boxBlur img 4 (fresh_bytes pf Tmp_buffer) 1 1 4 4 True))
                    4 (fresh_bytes pf Dst_image) 1 1 4 6 True)) [0..35]
          = [28, 57, 85, 85, 57, 28,
             57, 113, 170, 170, 113, 57,
             85, 170, 255, 255, 170, 85,
             85, 170, 255, 255, 170, 85,
             57, 113, 170, 170, 113, 57,
             28, 57, 85, 85, 57, 28]"
    by (rule opaque_separable_pixels [OF img])
qed

text \<open>Witness of C7: the source image is 255 on its 16 bytes and 0 elsewhere.\<close>

theorem Blur_opaque_4x4_witness:
  "map (\<lambda>i. if 0 \<le> i \<and> i < 16 then 255 else 0) [0..15] = replicate 16 (255 :: u8)
   \<and> (\<exists>out.
        Blur exact_scalars plain_platform
          \<lparr>fImage = None, fBounds = \<lparr>fLeft = 0, fTop = 0, fRight = 0, fBottom = 0\<rparr>,
           fRowBytes = 0, fFormat = kBW_Format\<rparr>
          \<lparr>fImage = Some (\<lambda>i. if 0 \<le> i \<and> i < 16 then 255 else 0),
           fBounds = \<lparr>fLeft = 0, fTop = 0, fRight = 4, fBottom = 4\<rparr>,
           fRowBytes = 4, fFormat = kA8_Format\<rparr>
          1 kNormal_Style kLow_Quality (Some (0, 0)) False
        = (True,
           \<lparr>fImage = Some out,
            fBounds = \<lparr>fLeft = - 1, fTop = - 1, fRight = 5, fBottom = 5\<rparr>,
            fRowBytes = 6, fFormat = kA8_Format\<rparr>,
           Some (1, 1), [Dst_image])
        \<and> map out [0..35]
          = [28, 56, 84, 84, 56, 28,
             56, 113, 169, 169, 113, 56,
             84, 169, 254, 254, 169, 84,
             84, 169, 254, 254, 169, 84,
             56, 113, 169, 169, 113, 56,
             28, 56, 84, 84, 56, 28])"
  using Blur_opaque_4x4 [where img = "\<lambda>i. if 0 \<le> i \<and> i < 16 then 255 else 0"
      and pf = plain_platform
      and dst = "\<lparr>fImage = None, fBounds = \<lparr>fLeft = 0, fTop = 0, fRight = 0, fBottom = 0\<rparr>,
                 fRowBytes = 0, fFormat = kBW_Format\<rparr>"
      and l = 0 and t = 0 and m = "(0, 0)"]
  by (simp add: upto_0_numeral upto_rec_numeral replicate_numeral_unfold)

text \<open>
  Counterexample to C7 as stated (the corner pixel is \<open>255 * 4/9\<close> rounded, that is 113,
  and the interior block is 255): the corner pixel \<open>(0, 0)\<close> of the output is 28, on both
  paths, and the interior pixel \<open>(2, 2)\<close> of the output of \<open>Blur\<close> is 254.
\<close>

theorem Blur_opaque_4x4_corner_and_interior:
  "the (fImage (fst (snd (Blur exact_scalars plain_platform
        \<lparr>fImage = None, fBounds = \<lparr>fLeft = 0, fTop = 0, fRight = 0, fBottom = 0\<rparr>,
         fRowBytes = 0, fFormat = kA8_Format\<rparr>
        \<lparr>fImage = Some (\<lambda>_. 255), fBounds = \<lparr>fLeft = 0, fTop = 0, fRight = 4, fBottom = 4\<rparr>,
         fRowBytes = 4, fFormat = kA8_Format\<rparr>
        1 kNormal_Style kLow_Quality (Some (0, 0)) False)))) 0 = 28
   \<and> the (fImage (fst (snd (Blur exact_scalars plain_platform
        \<lparr>fImage = None, fBounds = \<lparr>fLeft = 0, fTop = 0, fRight = 0, fBottom = 0\<rparr>,
         fRowBytes = 0, fFormat = kA8_Format\<rparr>
        \<lparr>fImage = Some (\<lambda>_. 255), fBounds = \<lparr>fLeft = 0, fTop = 0, fRight = 4, fBottom = 4\<rparr>,
         fRowBytes = 4, fFormat = kA8_Format\<rparr>
        1 kNormal_Style kLow_Quality (Some (0, 0)) False)))) (2 * 6 + 2) = 254
   \<and> the (fImage (fst (snd (BlurSeparable exact_scalars plain_platform
        \<lparr>fImage = None, fBounds = \<lparr>fLeft = 0, fTop = 0, fRight = 0, fBottom = 0\<rparr>,
         fRowBytes = 0, fFormat = kA8_Format\<rparr>
        \<lparr>fImage = Some (\<lambda>_. 255), fBounds = \<lparr>fLeft = 0, fTop = 0, fRight = 4, fBottom = 4\<rparr>,
         fRowBytes = 4, fFormat = kA8_Format\<rparr>
        1 kNormal_Style kLow_Quality (Some (0, 0)))))) 0 = 28
   \<and> (28 :: u8) \<noteq> 113 \<and> (254 :: u8) \<noteq> 255"
  using Blur_opaque_result [where l = 0 and t = 0]
    BlurSeparable_opaque_result [where l = 0 and t = 0]
  by (simp add: apply_kernel_at_offset kernel_pixel_def pin_def Let_def SkToU8_def
        opaque_sum_buffer_at boxBlur_transposed_at_offset
        boxBlur_transposed_at_offset2 boxBlur_columns_def box_window_def padded_def box_px_def
        half_def eval_simps)

text \<open>
  Claim C8. \<open>Blur\<close> returns false exactly when the source format is not the 8-bit alpha
  format, or \<open>rx\<close> (the ceiling of the radius of a pass) is not positive, or the source
  has an image and a computed image size is 0: the size of the destination, or, for
  the inner style, the size of the source. In the first two cases the function
  returns at once: \<open>*dst\<close> and \<open>*margin\<close> are untouched and nothing is allocated. In
  the other cases the bounds of \<open>dst\<close> have been computed. Whenever the function
  returns false, no buffer that it allocated is left allocated.
\<close>



theorem Blur_returns_false_exactly:
  "(\<not> fst (Blur ops pf dst src radius style quality margin separable) \<longleftrightarrow>
      fFormat src \<noteq> kA8_Format \<or> Blur_rx ops radius quality \<le> 0
      \<or> (fImage src \<noteq> None
          \<and> (computeImageSize (Blur_dst ops dst src radius quality) = 0
             \<or> (style = kInner_Style \<and> computeImageSize src = 0))))
   \<and> (fFormat src \<noteq> kA8_Format \<or> Blur_rx ops radius quality \<le> 0 \<longrightarrow>
        Blur ops pf dst src radius style quality margin separable = (False, dst, margin, []))
   \<and> (fFormat src = kA8_Format \<and> 0 < Blur_rx ops radius quality
        \<and> \<not> fst (Blur ops pf dst src radius style quality margin separable) \<longrightarrow>
        fBounds (fst (snd (Blur ops pf dst src radius style quality margin separable)))
          = Blur_bounds ops src radius quality)
   \<and> (\<not> fst (Blur ops pf dst src radius style quality margin separable) \<longrightarrow>
        snd (snd (snd (Blur ops pf dst src radius style quality margin separable))) = [])"
proof (intro conjI impI)
  show "(\<not> fst (Blur ops pf dst src radius style quality margin separable)) =
      (fFormat src \<noteq> kA8_Format \<or> Blur_rx ops radius quality \<le> 0
      \<or> (fImage src \<noteq> None
          \<and> (computeImageSize (Blur_dst ops dst src radius quality) = 0
             \<or> (style = kInner_Style \<and> computeImageSize src = 0))))"
    by (simp only: Blur_fst simp_thms)
next
  assume "fFormat src \<noteq> kA8_Format \<or> Blur_rx ops radius quality \<le> 0"
  then show "Blur ops pf dst src radius style quality margin separable = (False, dst, margin, [])"
    by (rule Blur_unsupported)
next
  assume "fFormat src = kA8_Format \<and> 0 < Blur_rx ops radius quality
        \<and> \<not> fst (Blur ops pf dst src radius style quality margin separable)"
  then show "fBounds (fst (snd (Blur ops pf dst src radius style quality margin separable)))
          = Blur_bounds ops src radius quality"
    by (intro Blur_false_bounds) simp_all
next
  assume "\<not> fst (Blur ops pf dst src radius style quality margin separable)"
  then show "snd (snd (snd (Blur ops pf dst src radius style quality margin separable))) = []"
    by (rule Blur_false_live)
qed

text \<open>Witness of C8: an empty source mask with an image, inner style, radius 1 (the
  destination is 2 by 2 but the source size is 0), and a source mask of the 1-bit
  format, for which \<open>*dst\<close> and \<open>*margin\<close> are untouched.\<close>

theorem Blur_returns_false_exactly_witness:
  "fFormat \<lparr>fImage = Some (\<lambda>_. 0), fBounds = \<lparr>fLeft = 0, fTop = 0, fRight = 0, fBottom = 0\<rparr>,
            fRowBytes = 0, fFormat = kA8_Format\<rparr> = kA8_Format
   \<and> 0 < Blur_rx exact_scalars 1 kLow_Quality
   \<and> \<not> fst (Blur exact_scalars plain_platform
        \<lparr>fImage = None, fBounds = \<lparr>fLeft = 0, fTop = 0, fRight = 0, fBottom = 0\<rparr>,
         fRowBytes = 0, fFormat = kBW_Format\<rparr>
        \<lparr>fImage = Some (\<lambda>_. 0), fBounds = \<lparr>fLeft = 0, fTop = 0, fRight = 0, fBottom = 0\<rparr>,
         fRowBytes = 0, fFormat = kA8_Format\<rparr>
        1 kInner_Style kLow_Quality None False)
   \<and> fBounds (fst (snd (Blur exact_scalars plain_platform
        \<lparr>fImage = None, fBounds = \<lparr>fLeft = 0, fTop = 0, fRight = 0, fBottom = 0\<rparr>,
         fRowBytes = 0, fFormat = kBW_Format\<rparr>
        \<lparr>fImage = Some (\<lambda>_. 0), fBounds = \<lparr>fLeft = 0, fTop = 0, fRight = 0, fBottom = 0\<rparr>,
         fRowBytes = 0, fFormat = kA8_Format\<rparr>
        1 kInner_Style kLow_Quality None False)))
       = \<lparr>fLeft = - 1, fTop = - 1, fRight = 1, fBottom = 1\<rparr>
   \<and> snd (snd (snd (Blur exact_scalars plain_platform
        \<lparr>fImage = None, fBounds = \<lparr>fLeft = 0, fTop = 0, fRight = 0, fBottom = 0\<rparr>,
         fRowBytes = 0, fFormat = kBW_Format\<rparr>
        \<lparr>fImage = Some (\<lambda>_. 0), fBounds = \<lparr>fLeft = 0, fTop = 0, fRight = 0, fBottom = 0\<rparr>,
         fRowBytes = 0, fFormat = kA8_Format\<rparr>
        1 kInner_Style kLow_Quality None False))) = []
   \<and> fFormat \<lparr>fImage = Some (\<lambda>_. 0),
                 fBounds = \<lparr>fLeft = 0, fTop = 0, fRight = 4, fBottom = 4\<rparr>,
                 fRowBytes = 4, fFormat = kBW_Format\<rparr> \<noteq> kA8_Format
   \<and> Blur exact_scalars plain_platform
        \<lparr>fImage = None, fBounds = \<lparr>fLeft = 0, fTop = 0, fRight = 0, fBottom = 0\<rparr>,
         fRowBytes = 0, fFormat = kBW_Format\<rparr>
        \<lparr>fImage = Some (\<lambda>_. 0), fBounds = \<lparr>fLeft = 0, fTop = 0, fRight = 4, fBottom = 4\<rparr>,
         fRowBytes = 4, fFormat = kBW_Format\<rparr>
        1 kNormal_Style kLow_Quality (Some (7, 7)) False
       = (False,
          \<lparr>fImage = None, fBounds = \<lparr>fLeft = 0, fTop = 0, fRight = 0, fBottom = 0\<rparr>,
           fRowBytes = 0, fFormat = kBW_Format\<rparr>,
          Some (7, 7), [])"
  using Blur_returns_false_exactly [where ops = exact_scalars and pf = plain_platform
      and dst = "\<lparr>fImage = None, fBounds = \<lparr>fLeft = 0, fTop = 0, fRight = 0, fBottom = 0\<rparr>,
                 fRowBytes = 0, fFormat = kBW_Format\<rparr>"
      and src = "\<lparr>fImage = Some (\<lambda>_. 0),
                 fBounds = \<lparr>fLeft = 0, fTop = 0, fRight = 4, fBottom = 4\<rparr>,
                 fRowBytes = 4, fFormat = kBW_Format\<rparr>"
      and radius = 1 and style = kNormal_Style and quality = kLow_Quality
      and margin = "Some (7, 7)" and separable = False]
    Blur_returns_false_exactly [where ops = exact_scalars and pf = plain_platform
      and dst = "\<lparr>fImage = None, fBounds = \<lparr>fLeft = 0, fTop = 0, fRight = 0, fBottom = 0\<rparr>,
                 fRowBytes = 0, fFormat = kBW_Format\<rparr>"
      and src = "\<lparr>fImage = Some (\<lambda>_. 0),
                 fBounds = \<lparr>fLeft = 0, fTop = 0, fRight = 0, fBottom = 0\<rparr>,
                 fRowBytes = 0, fFormat = kA8_Format\<rparr>"
      and radius = 1 and style = kInner_Style and quality = kLow_Quality and margin = None
      and separable = False]
  by (simp add: Blur_locals computeImageSize_def SkIRect_height_def SkIRect_width_def
        Blur_bounds_def Let_def)

text \<open>
  Claim C9. With \<open>createMode = kJustComputeBounds\<close>, \<open>BlurRect\<close> returns true for every
  rectangle, radius and style. With \<open>radius = (provided_radius * 0.57735 + 0.5) * 2\<close> and
  \<open>pad = SkScalarRoundToInt(radius * 3) / 2\<close>, half the profile size, \<open>*margin\<close> becomes
  \<open>(pad, pad)\<close>; the bounds of \<open>dst\<close> are \<open>SkScalarRoundToInt\<close> of the four edges of the
  rectangle moved out by \<open>pad\<close>, or, for the inner style, \<open>SkScalarRoundToInt\<close> of the four
  edges themselves; \<open>dst->fRowBytes\<close> is the width of the bounds, or the floor of the
  width of the rectangle for the inner style, as \<open>uint32_t\<close>; the format is the 8-bit
  alpha format, \<open>dst->fImage\<close> is NULL and nothing is allocated.
\<close>

theorem BlurRect_just_compute_bounds:
  "BlurRect ops pf dst src provided_radius style margin kJustComputeBounds_CreateMode =
     (let radius = SkScalarMul ops
                     (scalar_add ops
                        (SkScalarMul ops provided_radius (SkFloatToScalar ops (57735 / 100000)))
                        (SkFloatToScalar ops (1 / 2)))
                     (SkFloatToScalar ops 2);
          pad = SkScalarRoundToInt ops (SkScalarMul ops radius (SkIntToScalar ops 3)) sdiv 2;
          left = SkScalarRoundToInt ops (scalar_sub ops (fLeft src) (SkIntToScalar ops pad));
          top = SkScalarRoundToInt ops (scalar_sub ops (fTop src) (SkIntToScalar ops pad));
          right = SkScalarRoundToInt ops (scalar_add ops (fRight src) (SkIntToScalar ops pad));
          bottom = SkScalarRoundToInt ops (scalar_add ops (fBottom src) (SkIntToScalar ops pad));
          sw = SkScalarFloorToInt ops (scalar_sub ops (fRight src) (fLeft src))
      in (True,
          (if style = kInner_Style
           then dst\<lparr>fBounds := \<lparr>fLeft = SkScalarRoundToInt ops (fLeft src),
                                fTop = SkScalarRoundToInt ops (fTop src),
                                fRight = SkScalarRoundToInt ops (fRight src),
                                fBottom = SkScalarRoundToInt ops (fBottom src)\<rparr>,
                    fRowBytes := (if sw < 0 then sw + 2 ^ 32 else sw),
                    fFormat := kA8_Format, fImage := None\<rparr>
           else dst\<lparr>fBounds := \<lparr>fLeft = left, fTop = top, fRight = right, fBottom = bottom\<rparr>,
                    fRowBytes := (if right - left < 0 then right - left + 2 ^ 32
                                  else right - left),
                    fFormat := kA8_Format, fImage := None\<rparr>),
          (case margin of None \<Rightarrow> None | Some m \<Rightarrow> Some (pad, pad)),
          []))"
  by (simp add: BlurRect_def Let_def kBlurRadiusFudgeFactor_def compute_profile_size_def
        rounded_def rounded_outset_def SkIRect_width_def int_to_u32_def)

text \<open>Instances of C9 with exact scalars, on the rectangle from \<open>(2/5, 2/5)\<close> to
  \<open>(53/5, 53/5)\<close>. The radius 2 gives the profile size 10 and \<open>pad = 5\<close>: the bounds
  are \<open>(-5, -5, 16, 16)\<close>, and \<open>(0, 0, 11, 11)\<close> with the row bytes 10 for the inner
  style. The radius \<open>-3\<close> gives the profile size \<open>-7\<close> and \<open>pad = -3\<close>: the bounds
  \<open>(3, 3, 8, 8)\<close> are inside the rectangle. On the rectangle from \<open>(0, 0)\<close> to \<open>(4, 4)\<close>
  the radius \<open>-3\<close> gives the inverted bounds \<open>(3, 3, 1, 1)\<close>, and the row bytes are
  \<open>2^32 - 2\<close>.\<close>

theorem BlurRect_just_compute_bounds_witness:
  "BlurRect exact_scalars plain_platform
     \<lparr>fImage = Some (\<lambda>_. 9), fBounds = \<lparr>fLeft = 7, fTop = 7, fRight = 7, fBottom = 7\<rparr>,
      fRowBytes = 7, fFormat = kBW_Format\<rparr>
     \<lparr>fLeft = 2 / 5, fTop = 2 / 5, fRight = 53 / 5, fBottom = 53 / 5\<rparr>
     2 kNormal_Style (Some (0, 0)) kJustComputeBounds_CreateMode
   = (True,
      \<lparr>fImage = None, fBounds = \<lparr>fLeft = - 5, fTop = - 5, fRight = 16, fBottom = 16\<rparr>,
       fRowBytes = 21, fFormat = kA8_Format\<rparr>,
      Some (5, 5), [])
   \<and> BlurRect exact_scalars plain_platform
     \<lparr>fImage = Some (\<lambda>_. 9), fBounds = \<lparr>fLeft = 7, fTop = 7, fRight = 7, fBottom = 7\<rparr>,
      fRowBytes = 7, fFormat = kBW_Format\<rparr>
     \<lparr>fLeft = 2 / 5, fTop = 2 / 5, fRight = 53 / 5, fBottom = 53 / 5\<rparr>
     2 kInner_Style None kJustComputeBounds_CreateMode
   = (True,
      \<lparr>fImage = None, fBounds = \<lparr>fLeft = 0, fTop = 0, fRight = 11, fBottom = 11\<rparr>,
       fRowBytes = 10, fFormat = kA8_Format\<rparr>,
      None, [])
   \<and> BlurRect exact_scalars plain_platform
     \<lparr>fImage = Some (\<lambda>_. 9), fBounds = \<lparr>fLeft = 7, fTop = 7, fRight = 7, fBottom = 7\<rparr>,
      fRowBytes = 7, fFormat = kBW_Format\<rparr>
     \<lparr>fLeft = 2 / 5, fTop = 2 / 5, fRight = 53 / 5, fBottom = 53 / 5\<rparr>
     (- 3) kSolid_Style (Some (0, 0)) kJustComputeBounds_CreateMode
   = (True,
      \<lparr>fImage = None, fBounds = \<lparr>fLeft = 3, fTop = 3, fRight = 8, fBottom = 8\<rparr>,
       fRowBytes = 5, fFormat = kA8_Format\<rparr>,
      Some (- 3, - 3), [])
   \<and> BlurRect exact_scalars plain_platform
     \<lparr>fImage = Some (\<lambda>_. 9), fBounds = \<lparr>fLeft = 7, fTop = 7, fRight = 7, fBottom = 7\<rparr>,
      fRowBytes = 7, fFormat = kBW_Format\<rparr>
     \<lparr>fLeft = 0, fTop = 0, fRight = 4, fBottom = 4\<rparr>
     (- 3) kOuter_Style (Some (0, 0)) kJustComputeBounds_CreateMode
   = (True,
      \<lparr>fImage = None, fBounds = \<lparr>fLeft = 3, fTop = 3, fRight = 1, fBottom = 1\<rparr>,
       fRowBytes = 4294967294, fFormat = kA8_Format\<rparr>,
      Some (- 3, - 3), [])"
  using BlurRect_just_compute_bounds [where ops = exact_scalars and pf = plain_platform
      and dst = "\<lparr>fImage = Some (\<lambda>_. 9),
                 fBounds = \<lparr>fLeft = 7, fTop = 7, fRight = 7, fBottom = 7\<rparr>,
                 fRowBytes = 7, fFormat = kBW_Format\<rparr>"
      and src = "\<lparr>fLeft = 2 / 5, fTop = 2 / 5, fRight = 53 / 5, fBottom = 53 / 5\<rparr>"
      and provided_radius = 2 and style = kNormal_Style and margin = "Some (0, 0)"]
    BlurRect_just_compute_bounds [where ops = exact_scalars and pf = plain_platform
      and dst = "\<lparr>fImage = Some (\<lambda>_. 9),
                 fBounds = \<lparr>fLeft = 7, fTop = 7, fRight = 7, fBottom = 7\<rparr>,
                 fRowBytes = 7, fFormat = kBW_Format\<rparr>"
      and src = "\<lparr>fLeft = 2 / 5, fTop = 2 / 5, fRight = 53 / 5, fBottom = 53 / 5\<rparr>"
      and provided_radius = 2 and style = kInner_Style and margin = None]
    BlurRect_just_compute_bounds [where ops = exact_scalars and pf = plain_platform
      and dst = "\<lparr>fImage = Some (\<lambda>_. 9),
                 fBounds = \<lparr>fLeft = 7, fTop = 7, fRight = 7, fBottom = 7\<rparr>,
                 fRowBytes = 7, fFormat = kBW_Format\<rparr>"
      and src = "\<lparr>fLeft = 2 / 5, fTop = 2 / 5, fRight = 53 / 5, fBottom = 53 / 5\<rparr>"
      and provided_radius = "- 3" and style = kSolid_Style and margin = "Some (0, 0)"]
    BlurRect_just_compute_bounds [where ops = exact_scalars and pf = plain_platform
      and dst = "\<lparr>fImage = Some (\<lambda>_. 9),
                 fBounds = \<lparr>fLeft = 7, fTop = 7, fRight = 7, fBottom = 7\<rparr>,
                 fRowBytes = 7, fFormat = kBW_Format\<rparr>"
      and src = "\<lparr>fLeft = 0, fTop = 0, fRight = 4, fBottom = 4\<rparr>"
      and provided_radius = "- 3" and style = kOuter_Style and margin = "Some (0, 0)"]
  by (simp add: Let_def signed_divide_int_def rat_rounding)

text \<open>
  Claim C10. When the source mask has the 8-bit alpha format, \<open>rx\<close> is positive and
  \<open>src.fImage\<close> is NULL, \<open>Blur\<close> returns true, sets \<open>*margin\<close> (when the pointer is
  not NULL) to \<open>(passCount * rx, passCount * rx)\<close>, gives \<open>dst\<close> the bounds of the source
  moved out by the margin (the bounds and row bytes of the source for the inner style)
  and the 8-bit alpha format, leaves \<open>dst->fImage\<close> NULL and allocates nothing.
\<close>


theorem Blur_null_image_is_bounds_query:
  assumes "fFormat src = kA8_Format" and "0 < Blur_rx ops radius quality"
    and "fImage src = None"
  shows "Blur ops pf dst src radius style quality margin separable =
           (True,
            (if style = kInner_Style
             then (Blur_dst ops dst src radius quality)
                    \<lparr>fBounds := fBounds src, fRowBytes := fRowBytes src\<rparr>
             else Blur_dst ops dst src radius quality),
            margin_set margin (Blur_passCount ops radius quality * Blur_rx ops radius quality),
            [])
       \<and> fImage (fst (snd (Blur ops pf dst src radius style quality margin separable))) = None
       \<and> fBounds (fst (snd (Blur ops pf dst src radius style quality margin separable)))
           = (if style = kInner_Style then fBounds src else Blur_bounds ops src radius quality)"
  using assms(3) by (simp add: Blur_supported [OF assms(1,2)] Let_def)

text \<open>Witness of C10: a 4 by 4 source mask without an image, radius 1.\<close>

theorem Blur_null_image_is_bounds_query_witness:
  "fFormat \<lparr>fImage = None, fBounds = \<lparr>fLeft = 0, fTop = 0, fRight = 4, fBottom = 4\<rparr>,
            fRowBytes = 4, fFormat = kA8_Format\<rparr> = kA8_Format
   \<and> 0 < Blur_rx exact_scalars 1 kLow_Quality
   \<and> fImage \<lparr>fImage = None, fBounds = \<lparr>fLeft = 0, fTop = 0, fRight = 4, fBottom = 4\<rparr>,
              fRowBytes = 4, fFormat = kA8_Format\<rparr> = None
   \<and> Blur exact_scalars plain_platform
        \<lparr>fImage = Some (\<lambda>_. 9), fBounds = \<lparr>fLeft = 7, fTop = 7, fRight = 7, fBottom = 7\<rparr>,
         fRowBytes = 7, fFormat = kBW_Format\<rparr>
        \<lparr>fImage = None, fBounds = \<lparr>fLeft = 0, fTop = 0, fRight = 4, fBottom = 4\<rparr>,
         fRowBytes = 4, fFormat = kA8_Format\<rparr>
        1 kNormal_Style kLow_Quality (Some (0, 0)) False
     = (True,
        \<lparr>fImage = None, fBounds = \<lparr>fLeft = - 1, fTop = - 1, fRight = 5, fBottom = 5\<rparr>,
         fRowBytes = 6, fFormat = kA8_Format\<rparr>,
        Some (1, 1), [])"
  using Blur_null_image_is_bounds_query [where ops = exact_scalars and pf = plain_platform
      and dst = "\<lparr>fImage = Some (\<lambda>_. 9),
                 fBounds = \<lparr>fLeft = 7, fTop = 7, fRight = 7, fBottom = 7\<rparr>,
                 fRowBytes = 7, fFormat = kBW_Format\<rparr>"
      and src = "\<lparr>fImage = None, fBounds = \<lparr>fLeft = 0, fTop = 0, fRight = 4, fBottom = 4\<rparr>,
                 fRowBytes = 4, fFormat = kA8_Format\<rparr>"
      and radius = 1 and style = kNormal_Style and quality = kLow_Quality
      and margin = "Some (0, 0)" and separable = False]
  by (simp add: Blur_locals Blur_dst_def Blur_bounds_def SkIRect_width_def margin_set_def Let_def)

end
